(* ===== verification/Prelude.thy ===== *)
theory Prelude
  imports "HOL-Library.Word" "HOL-Library.AList"
begin

text \<open>
  Shared vocabulary of the development.

  \<^item> Machine integers of the Rust sources are words of their width; arithmetic on
    them wraps, as in a release build of the node (Cargo.toml does not turn overflow
    checks on).  Lengths of vectors and queues are natural numbers.
  \<^item> A fallible call returns \<open>rust_error + 'a\<close>.  \<open>Io_error\<close> is an error that
    downcasts to \<open>std::io::Error\<close>, \<open>Bail\<close> is any other \<open>anyhow\<close> error (a
    \<open>bail!\<close> or \<open>ensure!\<close>), \<open>Panic\<close> is a panic of the running thread.
  \<^item> \<open>HashMap\<close> is an association list with distinct keys, \<open>HashSet\<close> a list
    with distinct elements.  The order of the list is the iteration order, which Rust does
    not specify; statements that quantify over all states hold for every order.
  \<^item> The locale \<open>hash_map\<close> is the contract of a map as its clients use it, the
    locale \<open>transition_system\<close> the contract of a state machine with an invariant,
    and \<open>payload_codec\<close> that of a serialiser and its parser.
\<close>

section \<open>Types\<close>

type_synonym u8 = "8 word"
type_synonym u16 = "16 word"
type_synonym u32 = "32 word"
type_synonym u64 = "64 word"
type_synonym usize = "64 word"
type_synonym bytes = "u8 list"

datatype rust_error = Io_error string | Bail string | Panic string

type_synonym 'a result = "rust_error + 'a"

type_synonym ('k, 'v) hmap = "('k \<times> 'v) list"
type_synonym 'a hset = "'a list"

named_theorems hash_simps \<open>equations of the hash map and hash set operations\<close>
named_theorems codec_simps \<open>round-trip equations of the wire format\<close>
named_theorems peer_list_intros \<open>preservation of the catch-up peer list invariant\<close>
named_theorems node_intros \<open>preservation of the invariant of the node\<close>

section \<open>Hash maps and hash sets\<close>

abbreviation hm_get :: "('k, 'v) hmap \<Rightarrow> 'k \<Rightarrow> 'v option" where
  "hm_get m k \<equiv> map_of m k"

abbreviation hm_keys :: "('k, 'v) hmap \<Rightarrow> 'k list" where
  "hm_keys m \<equiv> map fst m"

abbreviation hm_values :: "('k, 'v) hmap \<Rightarrow> 'v list" where
  "hm_values m \<equiv> map snd m"

abbreviation hm_insert :: "'k \<Rightarrow> 'v \<Rightarrow> ('k, 'v) hmap \<Rightarrow> ('k, 'v) hmap" where
  "hm_insert k v m \<equiv> AList.update k v m"

abbreviation hm_remove :: "'k \<Rightarrow> ('k, 'v) hmap \<Rightarrow> ('k, 'v) hmap" where
  "hm_remove k m \<equiv> AList.delete k m"

abbreviation hm_retain :: "('k \<Rightarrow> 'v \<Rightarrow> bool) \<Rightarrow> ('k, 'v) hmap \<Rightarrow> ('k, 'v) hmap" where
  "hm_retain P m \<equiv> filter (\<lambda>(k, v). P k v) m"

abbreviation hm_wf :: "('k, 'v) hmap \<Rightarrow> bool" where
  "hm_wf m \<equiv> distinct (hm_keys m)"

text \<open>\<open>entry(k).and_modify(|x| *x += 1).or_insert(1)\<close>, returning the new count.\<close>

definition hm_count :: "'k \<Rightarrow> ('k, u64) hmap \<Rightarrow> u64 \<times> ('k, u64) hmap" where
  "hm_count k m = (let n = (case hm_get m k of Some x \<Rightarrow> x + 1 | None \<Rightarrow> 1) in (n, hm_insert k n m))"

definition hs_insert :: "'a \<Rightarrow> 'a hset \<Rightarrow> 'a hset" where
  "hs_insert x s = (if x \<in> set s then s else s @ [x])"

definition hs_remove :: "'a \<Rightarrow> 'a hset \<Rightarrow> 'a hset" where
  "hs_remove x s = filter (\<lambda>y. y \<noteq> x) s"

definition hs_extend :: "'a hset \<Rightarrow> 'a list \<Rightarrow> 'a hset" where
  "hs_extend s xs = fold hs_insert xs s"

definition hs_is_disjoint :: "'a hset \<Rightarrow> 'a hset \<Rightarrow> bool" where
  "hs_is_disjoint s t \<longleftrightarrow> (\<forall>x \<in> set s. x \<notin> set t)"

section \<open>Big-endian integers (\<open>to_be_bytes\<close>, \<open>from_be_bytes\<close>)\<close>

text \<open>\<open>nat_to_be n x\<close> is the big-endian encoding of \<open>x\<close> in \<open>n\<close> bytes.\<close>

primrec nat_to_be :: "nat \<Rightarrow> nat \<Rightarrow> bytes" where
  "nat_to_be 0 x = []"
| "nat_to_be (Suc n) x = nat_to_be n (x div 256) @ [word_of_nat x]"

definition be_value :: "bytes \<Rightarrow> nat" where
  "be_value bs = foldl (\<lambda>acc b. acc * 256 + unat b) 0 bs"

definition u32_to_be_bytes :: "u32 \<Rightarrow> bytes" where
  "u32_to_be_bytes w = nat_to_be 4 (unat w)"

text \<open>\<open>None\<close> is the error of converting a slice of another length to \<open>[u8; 4]\<close>.\<close>

definition u32_from_be_bytes :: "bytes \<Rightarrow> u32 option" where
  "u32_from_be_bytes bs = (if length bs = 4 then Some (word_of_nat (be_value bs)) else None)"

section \<open>Interfaces\<close>

text \<open>
  The contract of a map: what a lookup returns after each update, for every map that the
  updates can produce.
\<close>

locale hash_map =
  fixes empty :: 'm
    and get :: "'m \<Rightarrow> 'k \<Rightarrow> 'v option"
    and ins :: "'k \<Rightarrow> 'v \<Rightarrow> 'm \<Rightarrow> 'm"
    and rem :: "'k \<Rightarrow> 'm \<Rightarrow> 'm"
    and ret :: "('k \<Rightarrow> 'v \<Rightarrow> bool) \<Rightarrow> 'm \<Rightarrow> 'm"
    and wf :: "'m \<Rightarrow> bool"
  assumes get_empty: "get empty k = None"
    and get_ins: "wf m \<Longrightarrow> get (ins k v m) k' = (if k' = k then Some v else get m k')"
    and get_rem: "wf m \<Longrightarrow> get (rem k m) k' = (if k' = k then None else get m k')"
    and get_ret: "wf m \<Longrightarrow> get (ret P m) k =
      (case get m k of None \<Rightarrow> None | Some v \<Rightarrow> if P k v then Some v else None)"
    and wf_empty: "wf empty"
    and wf_ins: "wf m \<Longrightarrow> wf (ins k v m)"
    and wf_rem: "wf m \<Longrightarrow> wf (rem k m)"
    and wf_ret: "wf m \<Longrightarrow> wf (ret P m)"
begin

lemma ins_then_rem: "wf m \<Longrightarrow> get (rem k (ins k v m)) k' = (if k' = k then None else get m k')"
  by (simp add: get_rem get_ins wf_ins)

lemma wf_fold_ins: "wf m \<Longrightarrow> wf (fold (\<lambda>k m. ins k (f m k) m) ks m)"
  by (induction ks arbitrary: m) (simp_all add: wf_ins)

lemma get_fold_ins:
  "wf m \<Longrightarrow> get (fold (\<lambda>k m. ins k (g k (get m k)) m) ks m) k =
     (if k \<in> set ks then Some (the (((\<lambda>x. Some (g k x)) ^^ count_list ks k) (get m k)))
      else get m k)"
proof (induction ks arbitrary: m)
  case Nil
  then show ?case by simp
next
  case (Cons a ks)
  let ?m = "ins a (g a (get m a)) m"
  have IH: "get (fold (\<lambda>k m. ins k (g k (get m k)) m) ks ?m) k =
     (if k \<in> set ks then Some (the (((\<lambda>x. Some (g k x)) ^^ count_list ks k) (get ?m k)))
      else get ?m k)"
    using Cons.prems by (intro Cons.IH wf_ins)
  have zero: "k \<notin> set ks \<Longrightarrow> count_list ks k = 0"
    by (simp add: count_list_0_iff)
  show ?case
    using Cons.prems IH zero by (auto simp: get_ins funpow_Suc_right simp del: funpow.simps(2))
qed

end

text \<open>
  A state machine with an invariant: the invariant holds initially, every step keeps it, so
  it holds in every reachable state.
\<close>

locale transition_system =
  fixes init :: "'s \<Rightarrow> bool"
    and step :: "'s \<Rightarrow> 's \<Rightarrow> bool"
    and inv :: "'s \<Rightarrow> bool"
  assumes inv_init: "init s \<Longrightarrow> inv s"
    and inv_step: "step s t \<Longrightarrow> inv s \<Longrightarrow> inv t"
begin

lemma inv_steps: "step\<^sup>*\<^sup>* s t \<Longrightarrow> inv s \<Longrightarrow> inv t"
  by (induction rule: rtranclp_induct) (auto intro: inv_step)

lemma inv_reachable: "init s \<Longrightarrow> step\<^sup>*\<^sup>* s t \<Longrightarrow> inv t"
  by (blast intro: inv_init inv_steps)

end

text \<open>
  A serialiser and its parser: parsing what was serialised gives the value back, up to a
  normalisation of the parts that are not transmitted, for the values that can be serialised.
\<close>

locale payload_codec =
  fixes enc :: "'a \<Rightarrow> 'w"
    and dec :: "'w \<Rightarrow> 'b result"
    and norm :: "'a \<Rightarrow> 'b"
    and ok :: "'a \<Rightarrow> bool"
  assumes dec_enc: "ok x \<Longrightarrow> dec (enc x) = Inr (norm x)"
begin

lemma enc_inj: "ok x \<Longrightarrow> ok y \<Longrightarrow> enc x = enc y \<Longrightarrow> norm x = norm y"
  using dec_enc by (metis sum.inject(2))

lemma dec_map_enc: "\<forall>x \<in> set xs. ok x \<Longrightarrow> map (\<lambda>x. dec (enc x)) xs = map (Inr \<circ> norm) xs"
  by (simp add: dec_enc)

end

section \<open>Lemmas on hash maps and hash sets\<close>

lemma map_of_retain [hash_simps]:
  "distinct (map fst m) \<Longrightarrow> map_of (filter (\<lambda>(k, v). P k v) m) k =
     (case map_of m k of None \<Rightarrow> None | Some v \<Rightarrow> if P k v then Some v else None)"
  by (induction m) (auto simp: map_of_eq_None_iff image_iff split: option.splits)

lemma distinct_retain [hash_simps, simp]:
  "distinct (map fst m) \<Longrightarrow> distinct (map fst (filter P m))"
  by (induction m) auto

lemma distinct_remove [hash_simps, simp]:
  "distinct (map fst m) \<Longrightarrow> distinct (map fst (AList.delete k m))"
  by (rule distinct_delete)

lemma distinct_insert [hash_simps, simp]:
  "distinct (map fst m) \<Longrightarrow> distinct (map fst (AList.update k v m))"
  by (rule distinct_update)

lemma set_delete: "set (AList.delete k m) = {(k', v). (k', v) \<in> set m \<and> k' \<noteq> k}"
  by (auto simp: AList.delete_eq)

lemma set_update_subset: "set (AList.update k v m) \<subseteq> insert (k, v) (set m)"
  by (induction m) auto

lemma set_update_distinct:
  "distinct (map fst m) \<Longrightarrow>
     set (AList.update k v m) = insert (k, v) {(k', v'). (k', v') \<in> set m \<and> k' \<noteq> k}"
  by (induction m) (auto simp: image_iff)

interpretation hm: hash_map "[]" hm_get hm_insert hm_remove hm_retain hm_wf
  by unfold_locales
    (simp_all add: update_conv' delete_conv' map_of_retain distinct_update distinct_delete)

lemma set_hs_insert [hash_simps, simp]: "set (hs_insert x s) = insert x (set s)"
  by (auto simp: hs_insert_def)

lemma distinct_hs_insert [hash_simps, simp]: "distinct s \<Longrightarrow> distinct (hs_insert x s)"
  by (simp add: hs_insert_def)

lemma set_hs_remove [hash_simps, simp]: "set (hs_remove x s) = set s - {x}"
  by (auto simp: hs_remove_def)

lemma distinct_hs_remove [hash_simps, simp]: "distinct s \<Longrightarrow> distinct (hs_remove x s)"
  by (simp add: hs_remove_def)

lemma length_hs_insert: "length (hs_insert x s) \<le> Suc (length s)"
  by (simp add: hs_insert_def)

lemma set_hs_extend [hash_simps, simp]: "set (hs_extend s xs) = set s \<union> set xs"
  by (induction xs arbitrary: s) (auto simp: hs_extend_def)

lemma distinct_hs_extend [hash_simps, simp]: "distinct s \<Longrightarrow> distinct (hs_extend s xs)"
  by (induction xs arbitrary: s) (auto simp: hs_extend_def)

lemma hm_count_get:
  "hm_get (snd (hm_count k m)) k' = (if k' = k then Some (fst (hm_count k m)) else hm_get m k')"
  by (simp add: hm_count_def Let_def update_conv')

section \<open>Lemmas on bytes\<close>

lemma length_nat_to_be [simp]: "length (nat_to_be n x) = n"
  by (induction n arbitrary: x) simp_all

lemma be_value_snoc [simp]: "be_value (bs @ [b]) = be_value bs * 256 + unat b"
  by (simp add: be_value_def)

lemma be_value_nat_to_be [simp]: "be_value (nat_to_be n x) = x mod 256 ^ n"
proof (induction n arbitrary: x)
  case 0
  show ?case by (simp add: be_value_def)
next
  case (Suc n)
  have "x mod (256 * 256 ^ n) = 256 * (x div 256 mod 256 ^ n) + x mod 256"
    by (rule mod_mult2_eq)
  with Suc show ?case by (simp add: unat_of_nat take_bit_eq_mod mult.commute)
qed

lemma be_value_bound: "be_value bs < 256 ^ length bs"
proof (induction bs rule: rev_induct)
  case Nil
  show ?case by (simp add: be_value_def)
next
  case (snoc b bs)
  have "unat b < 256" using unsigned_less [of b] by simp
  with snoc show ?case by simp
qed

lemma length_u32_to_be_bytes [simp]: "length (u32_to_be_bytes w) = 4"
  by (simp add: u32_to_be_bytes_def)

lemma u32_from_to_be_bytes [simp, codec_simps]: "u32_from_be_bytes (u32_to_be_bytes w) = Some w"
proof -
  have "unat w < 2 ^ 32" using unsigned_less [of w] by simp
  then show ?thesis by (simp add: u32_from_be_bytes_def u32_to_be_bytes_def)
qed

end
