(* ===== verification/Packet_Types.thy ===== *)
theory Packet_Types
  imports Prelude
begin

text \<open>
  The messages between the network layer and the consensus layer:
  \<open>consensus_ffi/helpers.rs\<close> (packet types, the return codes of the consensus FFI and
  their classification, query responses, the stop signal of the queues) and
  \<open>consensus_ffi/messaging.rs\<close> (\<open>ConsensusMessage\<close>).  The lemmas relate the code
  tables to the enumerations they decode and the classifications to each other.
\<close>

section \<open>Packet types\<close>

datatype packet_type = Block | Transaction | FinalizationRecord | FinalizationMessage | CatchUpStatus

definition PACKET_TYPE_FROM_INT :: "packet_type list" where
  "PACKET_TYPE_FROM_INT = [Block, Transaction, FinalizationRecord, FinalizationMessage, CatchUpStatus]"

definition packet_type_try_from :: "u8 \<Rightarrow> packet_type result" where
  "packet_type_try_from v =
     (if unat v < length PACKET_TYPE_FROM_INT then Inr (PACKET_TYPE_FROM_INT ! unat v)
      else Inl (Bail ''Unsupported packet type''))"

text \<open>The tag of a packet type: the discriminant of the Rust enumeration.\<close>

primrec packet_type_tag :: "packet_type \<Rightarrow> u8" where
  "packet_type_tag Block = 0"
| "packet_type_tag Transaction = 1"
| "packet_type_tag FinalizationRecord = 2"
| "packet_type_tag FinalizationMessage = 3"
| "packet_type_tag CatchUpStatus = 4"

primrec packet_type_display :: "packet_type \<Rightarrow> string" where
  "packet_type_display Block = ''block''"
| "packet_type_display Transaction = ''transaction''"
| "packet_type_display FinalizationRecord = ''finalization record''"
| "packet_type_display FinalizationMessage = ''finalization message''"
| "packet_type_display CatchUpStatus = ''catch-up status message''"

primrec packet_type_is_rebroadcastable :: "packet_type \<Rightarrow> bool" where
  "packet_type_is_rebroadcastable Block = True"
| "packet_type_is_rebroadcastable Transaction = True"
| "packet_type_is_rebroadcastable FinalizationRecord = True"
| "packet_type_is_rebroadcastable FinalizationMessage = True"
| "packet_type_is_rebroadcastable CatchUpStatus = False"

primrec packet_type_label :: "packet_type \<Rightarrow> string" where
  "packet_type_label Block = ''block''"
| "packet_type_label Transaction = ''transaction''"
| "packet_type_label FinalizationRecord = ''finalization record''"
| "packet_type_label FinalizationMessage = ''finalization message''"
| "packet_type_label CatchUpStatus = ''catch-up status message''"

section \<open>Return codes of the consensus layer\<close>

datatype ffi_response =
    BakerNotFound | Success | DeserializationError | InvalidResult | PendingBlock
  | PendingFinalization | Asynchronous | DuplicateEntry | Stale | IncorrectFinalizationSession
  | Unverifiable | ContinueCatchUp | BlockTooEarly | MissingImportFile | ConsensusShutDown
  | ExpiryTooLate | VerificationFailed | NonexistingSenderAccount | DuplicateNonce | NonceTooLarge
  | TooLowEnergy | InvalidGenesisIndex | DuplicateAccountRegistrationID
  | CredentialDeploymentInvalidSignatures | CredentialDeploymentInvalidIP
  | CredentialDeploymentInvalidAR | CredentialDeploymentExpired | ChainUpdateInvalidEffectiveTime
  | ChainUpdateSequenceNumberTooOld | ChainUpdateInvalidSignatures | MaxBlockEnergyExceeded
  | InsufficientFunds | DoubleSign

text \<open>
  The variants in the order of their declaration.  The first has the explicit discriminant
  \<open>-1\<close> and each further one the discriminant of its predecessor plus one.
\<close>

definition ffi_variants :: "ffi_response list" where
  "ffi_variants =
    [BakerNotFound, Success, DeserializationError, InvalidResult, PendingBlock,
     PendingFinalization, Asynchronous, DuplicateEntry, Stale, IncorrectFinalizationSession,
     Unverifiable, ContinueCatchUp, BlockTooEarly, MissingImportFile, ConsensusShutDown,
     ExpiryTooLate, VerificationFailed, NonexistingSenderAccount, DuplicateNonce, NonceTooLarge,
     TooLowEnergy, InvalidGenesisIndex, DuplicateAccountRegistrationID,
     CredentialDeploymentInvalidSignatures, CredentialDeploymentInvalidIP,
     CredentialDeploymentInvalidAR, CredentialDeploymentExpired, ChainUpdateInvalidEffectiveTime,
     ChainUpdateSequenceNumberTooOld, ChainUpdateInvalidSignatures, MaxBlockEnergyExceeded,
     InsufficientFunds, DoubleSign]"

text \<open>\<open>TryFrom<i64>\<close>: the match of the source as a table; the error carries the code.\<close>

definition ffi_response_table :: "(int \<times> ffi_response) list" where
  "ffi_response_table =
    [(-1, BakerNotFound), (0, Success), (1, DeserializationError), (2, InvalidResult),
     (3, PendingBlock), (4, PendingFinalization), (5, Asynchronous), (6, DuplicateEntry),
     (7, Stale), (8, IncorrectFinalizationSession), (9, Unverifiable), (10, ContinueCatchUp),
     (11, BlockTooEarly), (12, MissingImportFile), (13, ConsensusShutDown), (14, ExpiryTooLate),
     (15, VerificationFailed), (16, NonexistingSenderAccount), (17, DuplicateNonce),
     (18, NonceTooLarge), (19, TooLowEnergy), (20, InvalidGenesisIndex),
     (21, DuplicateAccountRegistrationID), (22, CredentialDeploymentInvalidSignatures),
     (23, CredentialDeploymentInvalidIP), (24, CredentialDeploymentInvalidAR),
     (25, CredentialDeploymentExpired), (26, ChainUpdateInvalidEffectiveTime),
     (27, ChainUpdateSequenceNumberTooOld), (28, ChainUpdateInvalidSignatures),
     (29, MaxBlockEnergyExceeded), (30, InsufficientFunds), (31, DoubleSign)]"

definition ffi_response_try_from :: "int \<Rightarrow> int + ffi_response" where
  "ffi_response_try_from value =
     (case map_of ffi_response_table value of Some r \<Rightarrow> Inr r | None \<Rightarrow> Inl value)"

definition is_successful :: "ffi_response \<Rightarrow> bool" where
  "is_successful r \<longleftrightarrow> r \<in> {Success, PendingBlock, PendingFinalization, Asynchronous}"

definition is_pending :: "ffi_response \<Rightarrow> bool" where
  "is_pending r \<longleftrightarrow> r \<in> {PendingBlock, PendingFinalization, InvalidGenesisIndex, Unverifiable}"

definition is_acceptable :: "ffi_response \<Rightarrow> bool" where
  "is_acceptable r \<longleftrightarrow> r \<notin> {BakerNotFound, DeserializationError, InvalidResult, Unverifiable,
     BlockTooEarly, ExpiryTooLate, VerificationFailed, NonexistingSenderAccount, DuplicateNonce,
     NonceTooLarge, TooLowEnergy, ConsensusShutDown, InvalidGenesisIndex, InsufficientFunds}"

primrec is_rebroadcastable :: "ffi_response \<Rightarrow> packet_type \<Rightarrow> bool" where
  "is_rebroadcastable DeserializationError pt = False"
| "is_rebroadcastable InvalidResult pt = False"
| "is_rebroadcastable Unverifiable pt = False"
| "is_rebroadcastable DuplicateEntry pt = False"
| "is_rebroadcastable Stale pt = False"
| "is_rebroadcastable IncorrectFinalizationSession pt = False"
| "is_rebroadcastable BlockTooEarly pt = False"
| "is_rebroadcastable ExpiryTooLate pt = False"
| "is_rebroadcastable VerificationFailed pt = False"
| "is_rebroadcastable NonexistingSenderAccount pt = False"
| "is_rebroadcastable DuplicateNonce pt = False"
| "is_rebroadcastable NonceTooLarge pt = False"
| "is_rebroadcastable TooLowEnergy pt = False"
| "is_rebroadcastable ConsensusShutDown pt = False"
| "is_rebroadcastable InvalidGenesisIndex pt = False"
| "is_rebroadcastable DuplicateAccountRegistrationID pt = False"
| "is_rebroadcastable CredentialDeploymentInvalidSignatures pt = False"
| "is_rebroadcastable CredentialDeploymentInvalidIP pt = False"
| "is_rebroadcastable CredentialDeploymentInvalidAR pt = False"
| "is_rebroadcastable CredentialDeploymentExpired pt = False"
| "is_rebroadcastable ChainUpdateInvalidEffectiveTime pt = False"
| "is_rebroadcastable ChainUpdateSequenceNumberTooOld pt = False"
| "is_rebroadcastable ChainUpdateInvalidSignatures pt = False"
| "is_rebroadcastable MaxBlockEnergyExceeded pt = False"
| "is_rebroadcastable InsufficientFunds pt = False"
| "is_rebroadcastable BakerNotFound pt = False"
| "is_rebroadcastable MissingImportFile pt = False"
| "is_rebroadcastable ContinueCatchUp pt = False"
| "is_rebroadcastable DoubleSign pt = False"
| "is_rebroadcastable PendingBlock pt = (pt \<noteq> Block)"
| "is_rebroadcastable Success pt = True"
| "is_rebroadcastable PendingFinalization pt = True"
| "is_rebroadcastable Asynchronous pt = True"

definition ffi_response_label :: "ffi_response \<Rightarrow> string" where
  "ffi_response_label r =
     (if is_successful r \<or> r = ContinueCatchUp then ''valid''
      else if r = DuplicateEntry then ''duplicate'' else ''invalid'')"

section \<open>Committee status and query responses\<close>

datatype baking_committee_response =
  ActiveInCommittee | NotInCommittee | AddedButNotActiveInCommittee | AddedButWrongKeys

definition baking_committee_try_from :: "u8 \<Rightarrow> baking_committee_response result" where
  "baking_committee_try_from v =
     (if v = 0 then Inr ActiveInCommittee else if v = 1 then Inr NotInCommittee
      else if v = 2 then Inr AddedButNotActiveInCommittee else if v = 3 then Inr AddedButWrongKeys
      else Inl (Bail ''Unsupported FFI return code for committee status''))"

datatype finalization_committee_response =
  FinNotInCommittee | FinAddedButNotActiveInCommittee | FinActiveInCommittee

definition finalization_committee_try_from :: "u8 \<Rightarrow> finalization_committee_response result" where
  "finalization_committee_try_from v =
     (if v = 0 then Inr FinNotInCommittee else if v = 1 then Inr FinAddedButNotActiveInCommittee
      else if v = 2 then Inr FinActiveInCommittee
      else Inl (Bail ''Unsupported FFI return code for committee status''))"

datatype query_response =
  QueryInvalidArgument | QueryInternalError | QueryOk | QueryNotFound | QueryUnavailable
  | QueryFutureEpoch

text \<open>The \<open>tonic::Status\<close> codes that \<open>ensure_ok\<close> produces.\<close>

datatype status_code = Code_invalid_argument | Code_internal | Code_not_found | Code_unavailable

definition query_response_try_from :: "int \<Rightarrow> int + query_response" where
  "query_response_try_from value =
     (if value = -2 then Inr QueryInvalidArgument else if value = -1 then Inr QueryInternalError
      else if value = 0 then Inr QueryOk else if value = 1 then Inr QueryNotFound
      else if value = 2 then Inr QueryUnavailable else if value = 3 then Inr QueryFutureEpoch
      else Inl value)"

primrec ensure_ok :: "query_response \<Rightarrow> string \<Rightarrow> (status_code \<times> string) + unit" where
  "ensure_ok QueryInvalidArgument msg = Inl (Code_invalid_argument, ''Invalid argument.'')"
| "ensure_ok QueryInternalError msg = Inl (Code_internal, ''Internal error: '' @ msg @
     ''. Please report this bug at https://github.com/Concordium/concordium-node/issues.'')"
| "ensure_ok QueryOk msg = Inr ()"
| "ensure_ok QueryNotFound msg = Inl (Code_not_found, msg @ '' not found.'')"
| "ensure_ok QueryUnavailable msg =
     Inl (Code_unavailable, ''The service is not available at the current protocol version.'')"
| "ensure_ok QueryFutureEpoch msg = Inl (Code_unavailable, ''Future epoch.'')"

section \<open>Consensus messages\<close>

datatype 'a queue_msg = Relay 'a | Stop

datatype peer_status = CatchingUp | Pending | UpToDate

datatype distribution_mode = Direct_mode | Broadcast_mode

datatype 'p message_type = Inbound 'p distribution_mode | Outbound "'p option"

record 'p consensus_message =
  direction :: "'p message_type"
  variant :: packet_type
  payload :: bytes
  msg_dont_relay_to :: "'p list"
  omit_status :: "peer_status option"

definition consensus_message_new ::
  "'p message_type \<Rightarrow> packet_type \<Rightarrow> bytes \<Rightarrow> 'p list \<Rightarrow> peer_status option \<Rightarrow> 'p consensus_message" where
  "consensus_message_new dir var pl dont_relay omit =
     \<lparr>direction = dir, variant = var, payload = pl, msg_dont_relay_to = dont_relay, omit_status = omit\<rparr>"

definition distribution_mode_of :: "'p consensus_message \<Rightarrow> distribution_mode" where
  "distribution_mode_of m = (case direction m of
     Inbound _ mode \<Rightarrow> mode
   | Outbound (Some _) \<Rightarrow> Direct_mode
   | Outbound None \<Rightarrow> Broadcast_mode)"

definition target_peer :: "'p consensus_message \<Rightarrow> 'p option result" where
  "target_peer m = (case direction m of
     Outbound target \<Rightarrow> Inr target
   | Inbound _ _ \<Rightarrow> Inl (Panic ''An Inbound ConsensusMessage does not have a target peer!''))"

definition source_peer :: "'p consensus_message \<Rightarrow> 'p result" where
  "source_peer m = (case direction m of
     Inbound source _ \<Rightarrow> Inr source
   | Outbound _ \<Rightarrow> Inl (Panic ''An Outbound ConsensusMessage does not have a source peer!''))"

section \<open>Lemmas\<close>

lemma packet_type_try_from_tag [simp]: "packet_type_try_from (packet_type_tag t) = Inr t"
  by (cases t) (simp_all add: packet_type_try_from_def PACKET_TYPE_FROM_INT_def)

lemma packet_type_try_from_Inr: "packet_type_try_from v = Inr t \<Longrightarrow> v = packet_type_tag t"
proof -
  assume a: "packet_type_try_from v = Inr t"
  then have "unat v < 5"
    by (simp add: packet_type_try_from_def PACKET_TYPE_FROM_INT_def split: if_splits)
  then have "\<exists>n < 5. v = word_of_nat n" by (intro exI [of _ "unat v"]) simp
  then obtain n where n: "n < 5" "v = word_of_nat n" by blast
  from n(1) have "n \<in> {0, 1, 2, 3, 4}" by auto
  with n(2) have "v \<in> {0, 1, 2, 3, 4}" by auto
  with a show ?thesis
    by (auto simp: packet_type_try_from_def PACKET_TYPE_FROM_INT_def)
qed

lemma ffi_response_table_lookup:
  "\<forall>c \<in> set [-1..31]. map_of ffi_response_table c = Some (ffi_variants ! nat (c + 1))"
  by code_simp

lemma set_ffi_variants: "set ffi_variants = UNIV"
proof -
  have "r \<in> set ffi_variants" for r by (cases r) (simp_all add: ffi_variants_def)
  then show ?thesis by blast
qed

lemma distinct_ffi_variants: "distinct ffi_variants"
  by (simp add: ffi_variants_def)

lemma is_rebroadcastable_successful: "is_rebroadcastable r pt \<Longrightarrow> is_successful r"
  by (cases r) (simp_all add: is_successful_def)

lemma is_successful_acceptable: "is_successful r \<Longrightarrow> is_acceptable r"
  by (auto simp: is_successful_def is_acceptable_def)

section \<open>Codes and predicates\<close>

text \<open>The decoder of FFI return codes inverts the discriminants of the enumeration: a code
  decodes to the variant declared at that position (the first having code -1), and every other
  code is refused with that code in the error.\<close>

lemma ffi_response_decodes_discriminants:
  "ffi_response_try_from c =
     (if -1 \<le> c \<and> c \<le> 31 then Inr (ffi_variants ! nat (c + 1)) else Inl c)"
proof (cases "-1 \<le> c \<and> c \<le> 31")
  case True
  then have "c \<in> set [-1..31]" by simp
  with ffi_response_table_lookup have "map_of ffi_response_table c = Some (ffi_variants ! nat (c + 1))"
    by blast
  with True show ?thesis by (simp add: ffi_response_try_from_def)
next
  case False
  then have "map_of ffi_response_table c = None"
    by (auto simp: ffi_response_table_def)
  with False show ?thesis by (simp add: ffi_response_try_from_def)
qed

text \<open>A broadcast is passed on exactly when consensus processed it successfully, except for
  blocks whose parent is still missing.  In particular nothing that consensus finds unacceptable
  is relayed.\<close>

lemma rebroadcast_iff_successful:
  "(is_rebroadcastable r pt \<longleftrightarrow> is_successful r \<and> \<not> (r = PendingBlock \<and> pt = Block)) \<and>
   \<not> (is_rebroadcastable r pt \<and> \<not> is_acceptable r)"
proof
  show "is_rebroadcastable r pt \<longleftrightarrow> is_successful r \<and> \<not> (r = PendingBlock \<and> pt = Block)"
    by (cases r) (simp_all add: is_successful_def)
  show "\<not> (is_rebroadcastable r pt \<and> \<not> is_acceptable r)"
    using is_rebroadcastable_successful is_successful_acceptable by blast
qed

end
