(* ===== verification/Peer_Types.thy ===== *)
theory Peer_Types
  imports Prelude
begin

text \<open>
  The identifiers and messages of the network layer: \<open>common/p2p_node_id.rs\<close>,
  \<open>common/p2p_peer.rs\<close> and \<open>network/mod.rs\<close>.  Socket addresses are an IP address
  and a port.  Hexadecimal printing (\<open>{:016x}\<close>) and parsing
  (\<open>from_str_radix(s, 16)\<close>) of the standard library are written out.

  The types \<open>semver::Version\<close> and \<open>BlockHash\<close> come from packages outside the
  repository: of a version the code reads the major and minor numbers only, a block hash is
  its byte string.
\<close>

section \<open>Hexadecimal numbers\<close>

definition hex_digit_char :: "nat \<Rightarrow> char" where
  "hex_digit_char d = (if d < 10 then char_of (48 + d) else char_of (87 + d))"

definition hex_digit_val :: "char \<Rightarrow> nat option" where
  "hex_digit_val c = (let n = of_char c :: nat in
     if 48 \<le> n \<and> n \<le> 57 then Some (n - 48)
     else if 97 \<le> n \<and> n \<le> 102 then Some (n - 87)
     else if 65 \<le> n \<and> n \<le> 70 then Some (n - 55)
     else None)"

text \<open>Exactly \<open>n\<close> lower-case digits, the most significant first.\<close>

primrec to_hex :: "nat \<Rightarrow> nat \<Rightarrow> string" where
  "to_hex 0 x = []"
| "to_hex (Suc n) x = to_hex n (x div 16) @ [hex_digit_char (x mod 16)]"

text \<open>
  The digit loop of \<open>u64::from_str_radix\<close>: multiply and add with overflow checks.
\<close>

fun hex_digits_u64 :: "nat \<Rightarrow> string \<Rightarrow> nat option" where
  "hex_digits_u64 acc [] = Some acc"
| "hex_digits_u64 acc (c # cs) =
     (case hex_digit_val c of
        None \<Rightarrow> None
      | Some d \<Rightarrow>
          if acc * 16 \<ge> 2 ^ 64 then None
          else if acc * 16 + d \<ge> 2 ^ 64 then None
          else hex_digits_u64 (acc * 16 + d) cs)"

text \<open>
  The sign handling: an empty string and a lone sign are refused, a leading plus is skipped;
  a leading minus is not a digit of an unsigned type.
\<close>

definition u64_from_str_radix_16 :: "string \<Rightarrow> u64 option" where
  "u64_from_str_radix_16 s =
     (if s = [] then None
      else if s = ''+'' \<or> s = ''-'' then None
      else map_option word_of_nat (hex_digits_u64 0 (if hd s = CHR ''+'' then tl s else s)))"

section \<open>Identifiers\<close>

datatype p2p_node_id = P2PNodeId (as_raw: u64)

definition p2p_node_id_display :: "p2p_node_id \<Rightarrow> string" where
  "p2p_node_id_display i = to_hex 16 (unat (as_raw i))"

definition p2p_node_id_from_str :: "string \<Rightarrow> p2p_node_id result" where
  "p2p_node_id_from_str s = (case u64_from_str_radix_16 s of
     Some n \<Rightarrow> Inr (P2PNodeId n)
   | None \<Rightarrow> Inl (Bail ''Invalid Node Id''))"

datatype token = Token (token_val: usize)

datatype remote_peer_id = RemotePeerId (remote_peer_id_val: usize)

definition remote_peer_id_display :: "remote_peer_id \<Rightarrow> string" where
  "remote_peer_id_display i = to_hex 16 (unat (remote_peer_id_val i))"

definition remote_peer_id_from_str :: "string \<Rightarrow> remote_peer_id result" where
  "remote_peer_id_from_str s = (case u64_from_str_radix_16 s of
     Some n \<Rightarrow> Inr (RemotePeerId n)
   | None \<Rightarrow> Inl (Bail ''Invalid Remote Peer Id''))"

definition remote_peer_id_from_token :: "token \<Rightarrow> remote_peer_id" where
  "remote_peer_id_from_token t = RemotePeerId (token_val t)"

definition to_token :: "remote_peer_id \<Rightarrow> token" where
  "to_token i = Token (remote_peer_id_val i)"

datatype network_id = NetworkId (network_id_val: u16)

type_synonym networks = "network_id hset"

section \<open>Addresses and peers\<close>

datatype ip_addr = V4 u32 | V6 "128 word"

record socket_addr =
  sa_ip :: ip_addr
  sa_port :: u16

abbreviation socket_addr_new :: "ip_addr \<Rightarrow> u16 \<Rightarrow> socket_addr" where
  "socket_addr_new i p \<equiv> \<lparr>sa_ip = i, sa_port = p\<rparr>"

datatype peer_type = Node | Bootstrapper

definition peer_type_display :: "peer_type \<Rightarrow> string" where
  "peer_type_display t = (case t of Node \<Rightarrow> ''Node'' | Bootstrapper \<Rightarrow> ''Bootstrapper'')"

record p2p_peer =
  pp_id :: p2p_node_id
  pp_addr :: socket_addr
  pp_peer_type :: peer_type

record remote_peer =
  self_id :: "p2p_node_id option"
  addr :: socket_addr
  local_id :: remote_peer_id
  external_port :: u16
  peer_type :: peer_type

definition remote_peer_eq :: "remote_peer \<Rightarrow> remote_peer \<Rightarrow> bool" where
  "remote_peer_eq p q \<longleftrightarrow> local_id p = local_id q"

definition external_addr :: "remote_peer \<Rightarrow> socket_addr" where
  "external_addr p = socket_addr_new (sa_ip (addr p)) (external_port p)"

definition peer :: "remote_peer \<Rightarrow> p2p_peer option" where
  "peer p = map_option (\<lambda>i. \<lparr>pp_id = i, pp_addr = external_addr p, pp_peer_type = peer_type p\<rparr>)
     (self_id p)"

record peer_stats =
  ps_self_id :: p2p_node_id
  ps_addr :: socket_addr
  ps_external_port :: u16
  ps_local_id :: remote_peer_id
  ps_peer_type :: peer_type
  ps_latency :: u64
  ps_msgs_sent :: u64
  ps_msgs_received :: u64
  ps_bytes_sent :: u64
  ps_bytes_received :: u64

definition external_address :: "peer_stats \<Rightarrow> socket_addr" where
  "external_address s = socket_addr_new (sa_ip (ps_addr s)) (ps_external_port s)"

section \<open>Network messages\<close>

definition WIRE_PROTOCOL_CURRENT_VERSION :: u8 where
  "WIRE_PROTOCOL_CURRENT_VERSION = 1"

definition WIRE_PROTOCOL_VERSIONS :: "u8 list" where
  "WIRE_PROTOCOL_VERSIONS = [WIRE_PROTOCOL_CURRENT_VERSION]"

type_synonym block_hash = bytes

record version =
  v_major :: u64
  v_minor :: u64
  v_rest :: string

record handshake =
  remote_id :: p2p_node_id
  remote_port :: u16
  hs_networks :: networks
  node_version :: version
  wire_versions :: "u8 list"
  genesis_blocks :: "block_hash list"
  hs_proof :: bytes

datatype network_request =
  Ping | GetPeers networks | Handshake handshake | JoinNetwork network_id | LeaveNetwork network_id

datatype network_response = Pong | PeerList "p2p_peer list"

datatype packet_destination = Direct remote_peer_id | Broadcast "remote_peer_id list"

record network_packet =
  destination :: packet_destination
  packet_network_id :: network_id
  message :: bytes

datatype network_payload =
    NetworkRequest network_request
  | NetworkResponse network_response
  | NetworkPacket network_packet

record network_message =
  created :: u64
  received :: "u64 option"
  net_payload :: network_payload

text \<open>The macro \<open>netmsg!\<close>, with the time stamp it takes.\<close>

definition netmsg :: "u64 \<Rightarrow> network_payload \<Rightarrow> network_message" where
  "netmsg now p = \<lparr>created = now, received = None, net_payload = p\<rparr>"

section \<open>Lemmas\<close>

lemma hex_digit_roundtrip [simp]: "d < 16 \<Longrightarrow> hex_digit_val (hex_digit_char d) = Some d"
  by (cases "d < 10") (simp_all add: hex_digit_val_def hex_digit_char_def Let_def)

lemma hex_digit_char_sign: "d < 16 \<Longrightarrow> hex_digit_char d \<notin> {CHR ''+'', CHR ''-''}"
proof -
  assume "d < 16"
  then have "d \<in> set [0..<16]" by simp
  moreover have "\<forall>d \<in> set [0..<16]. hex_digit_char d \<notin> {CHR ''+'', CHR ''-''}" by code_simp
  ultimately show ?thesis by blast
qed

lemma set_to_hex: "set (to_hex n x) \<inter> {CHR ''+'', CHR ''-''} = {}"
  using hex_digit_char_sign by (induction n arbitrary: x) auto

lemma length_to_hex [simp]: "length (to_hex n x) = n"
  by (induction n arbitrary: x) simp_all

lemma hex_digits_append:
  "hex_digits_u64 acc (xs @ ys) = Option.bind (hex_digits_u64 acc xs) (\<lambda>a. hex_digits_u64 a ys)"
  by (induction acc xs rule: hex_digits_u64.induct) (auto split: option.splits)

lemma hex_digits_to_hex:
  "x < 16 ^ n \<Longrightarrow> x < 2 ^ 64 \<Longrightarrow> hex_digits_u64 0 (to_hex n x) = Some x"
proof (induction n arbitrary: x)
  case 0
  then show ?case by simp
next
  case (Suc n)
  then have "hex_digits_u64 0 (to_hex n (x div 16)) = Some (x div 16)"
    by (intro Suc.IH) (auto simp: less_mult_imp_div_less)
  with Suc.prems show ?case by (simp add: hex_digits_append)
qed

lemma u64_from_str_radix_to_hex [codec_simps]:
  "u64_from_str_radix_16 (to_hex 16 (unat w)) = Some w"
proof -
  have bound: "unat w < 2 ^ 64" using unsigned_less [of w] by simp
  then have digits: "hex_digits_u64 0 (to_hex 16 (unat w)) = Some (unat w)"
    by (intro hex_digits_to_hex) simp_all
  have other: "to_hex 16 (unat w) \<noteq> ys" if "length ys \<noteq> 16" for ys
    using that length_to_hex by metis
  have ne: "to_hex 16 (unat w) \<noteq> []" "to_hex 16 (unat w) \<noteq> ''+''" "to_hex 16 (unat w) \<noteq> ''-''"
    by (rule other, simp)+
  then have "hd (to_hex 16 (unat w)) \<noteq> CHR ''+''"
    using set_to_hex [of 16 "unat w"] hd_in_set [OF ne(1)] by (metis disjoint_iff insertI1)
  with ne digits show ?thesis by (simp add: u64_from_str_radix_16_def)
qed

lemma to_token_inverse [simp]: "remote_peer_id_from_token (to_token i) = i"
  by (simp add: remote_peer_id_from_token_def to_token_def)

lemma from_token_inverse [simp]: "to_token (remote_peer_id_from_token t) = t"
  by (simp add: remote_peer_id_from_token_def to_token_def)

lemma to_token_inject [simp]: "to_token i = to_token j \<longleftrightarrow> i = j"
  by (cases i; cases j) (simp add: to_token_def)

text \<open>Printing an identifier and parsing the result gives the identifier back, for the
  identifiers nodes give themselves and for the identifiers the node gives to its peers.\<close>

lemma node_ids_print_parse:
  "p2p_node_id_from_str (p2p_node_id_display i) = Inr i \<and>
   remote_peer_id_from_str (remote_peer_id_display j) = Inr j \<and>
   length (p2p_node_id_display i) = 16 \<and> length (remote_peer_id_display j) = 16"
  by (simp add: p2p_node_id_from_str_def p2p_node_id_display_def remote_peer_id_from_str_def
      remote_peer_id_display_def codec_simps)

end
