(* ===== verification/Metrics.thy ===== *)
theory Metrics
  imports Prelude
begin

text \<open>
  The counters and gauges of \<open>stats_export_service.rs\<close>.  The prometheus registry is outside the repository; an operation
  that updates a metric returns the update, in the order of the calls, and
  \<open>metric_value\<close> folds such a log into the number a scrape would show.
\<close>

datatype metric =
    Packets_received
  | Packets_sent
  | Connected_peers
  | Connections_received
  | Inbound_high_priority_message_queue_size
  | Inbound_low_priority_message_queue_size
  | Outbound_high_priority_message_queue_size
  | Outbound_low_priority_message_queue_size
  | Received_bytes
  | Sent_bytes
  | Last_finalized_block_height
  | Last_finalized_block_timestamp
  | Last_arrived_block_height
  | Last_arrived_block_timestamp
  | Baked_blocks
  | Finalized_baked_blocks
  | Received_consensus_messages string string
  | Sent_consensus_messages string
  | Soft_banned_peers
  | Soft_banned_peers_total
  | Total_peers
  | Node_info
  | Node_startup_timestamp
  | Grpc_request_response_time string string
  | Grpc_in_flight_requests
  | Unsupported_pending_protocol_version
  | Peer_bucket_size string
  | Grpc_connected_clients

datatype metric_op =
    Metric_inc metric
  | Metric_inc_by metric u64
  | Metric_dec metric
  | Metric_set metric int

type_synonym metric_log = "metric_op list"

primrec metric_apply :: "metric \<Rightarrow> metric_op \<Rightarrow> int \<Rightarrow> int" where
  "metric_apply m (Metric_inc m') v = (if m' = m then v + 1 else v)"
| "metric_apply m (Metric_inc_by m' n) v = (if m' = m then v + uint n else v)"
| "metric_apply m (Metric_dec m') v = (if m' = m then v - 1 else v)"
| "metric_apply m (Metric_set m' x) v = (if m' = m then x else v)"

definition metric_value :: "metric \<Rightarrow> metric_log \<Rightarrow> int" where
  "metric_value m log = fold (metric_apply m) log 0"

lemma metric_value_Nil [simp]: "metric_value m [] = 0"
  by (simp add: metric_value_def)

lemma metric_value_snoc [simp]: "metric_value m (log @ [x]) = metric_apply m x (metric_value m log)"
  by (simp add: metric_value_def)

lemma metric_value_snoc2 [simp]:
  "metric_value m (log @ [x, y]) = metric_apply m y (metric_apply m x (metric_value m log))"
  by (simp add: metric_value_def)

end
