(* ===== verification/Buckets.thy ===== *)
theory Buckets
  imports Peer_Types Metrics "HOL-Library.Multiset"
begin

text \<open>
  The peer buckets of a bootstrapper, \<open>network/buckets.rs\<close>.

  A bucket is a hash set of nodes compared by their external address, here a list without two
  nodes of the same external address.  \<open>self.buckets[0]\<close> panics on an empty vector, so
  the operations return a result; \<open>buckets_no_panic\<close> shows that the panic is not
  reachable.  The clock is read once per operation and passed as \<open>now\<close>.  The sampling of
  the \<open>rand\<close> package is a parameter with its documented contract
  \<open>chooses_multiple\<close>.
\<close>

section \<open>Model\<close>

definition BUCKET_COUNT :: nat where
  "BUCKET_COUNT = 1"

record bucket_node =
  bn_peer :: remote_peer
  bn_networks :: networks
  bn_last_seen :: u64

definition bucket_node_eq :: "bucket_node \<Rightarrow> bucket_node \<Rightarrow> bool" where
  "bucket_node_eq n m \<longleftrightarrow> external_addr (bn_peer n) = external_addr (bn_peer m)"

type_synonym bucket = "bucket_node hset"

record buckets =
  bucket_vec :: "bucket list"

definition buckets_default :: buckets where
  "buckets_default = \<lparr>bucket_vec = replicate BUCKET_COUNT []\<rparr>"

text \<open>\<open>HashSet::replace\<close>: the new value takes the place of the equal old one, which is
  returned.\<close>

fun bucket_replace :: "bucket_node \<Rightarrow> bucket \<Rightarrow> bucket_node option \<times> bucket" where
  "bucket_replace n [] = (None, [n])"
| "bucket_replace n (m # b) =
     (if bucket_node_eq m n then (Some m, n # b)
      else (let (old, b') = bucket_replace n b in (old, m # b')))"

text \<open>\<open>&mut self.buckets[0]\<close>\<close>

definition with_bucket_0 :: "(bucket \<Rightarrow> 'a \<times> bucket) \<Rightarrow> buckets \<Rightarrow> ('a \<times> buckets) result" where
  "with_bucket_0 f bs = (case bucket_vec bs of
     [] \<Rightarrow> Inl (Panic ''index out of bounds'')
   | b # rest \<Rightarrow> (let (r, b') = f b in Inr (r, bs\<lparr>bucket_vec := b' # rest\<rparr>)))"

definition insert_into_bucket ::
    "u64 \<Rightarrow> remote_peer \<Rightarrow> networks \<Rightarrow> buckets \<Rightarrow> (metric_log \<times> buckets) result" where
  "insert_into_bucket now p nets bs = with_bucket_0 (\<lambda>b.
     (case bucket_replace \<lparr>bn_peer = p, bn_networks = nets, bn_last_seen = now\<rparr> b of
        (None, b') \<Rightarrow> ([Metric_inc (Peer_bucket_size ''0'')], b')
      | (Some _, b') \<Rightarrow> ([], b'))) bs"

definition update_network_ids ::
    "u64 \<Rightarrow> remote_peer \<Rightarrow> networks \<Rightarrow> buckets \<Rightarrow> (metric_log \<times> buckets) result" where
  "update_network_ids now p nets bs = with_bucket_0 (\<lambda>b.
     ([], snd (bucket_replace \<lparr>bn_peer = p, bn_networks = nets, bn_last_seen = now\<rparr> b))) bs"

definition bucket_filter_criteria :: "remote_peer_id option \<Rightarrow> networks \<Rightarrow> bucket_node \<Rightarrow> bool" where
  "bucket_filter_criteria sender nets n \<longleftrightarrow>
     peer_type (bn_peer n) = Node \<and>
     Some (local_id (bn_peer n)) \<noteq> sender \<and>
     (nets = [] \<or> \<not> hs_is_disjoint (bn_networks n) nets)"

definition get_all_nodes :: "remote_peer_id option \<Rightarrow> networks \<Rightarrow> buckets \<Rightarrow> remote_peer list" where
  "get_all_nodes sender nets bs =
     concat (map (\<lambda>b. map bn_peer (filter (bucket_filter_criteria sender nets) b)) (bucket_vec bs))"

definition buckets_len :: "buckets \<Rightarrow> nat" where
  "buckets_len bs = sum_list (map (\<lambda>n. length (bn_networks n)) (concat (bucket_vec bs)))"

definition buckets_is_empty :: "buckets \<Rightarrow> bool" where
  "buckets_is_empty bs \<longleftrightarrow> buckets_len bs = 0"

definition get_random_nodes ::
    "(remote_peer list \<Rightarrow> nat \<Rightarrow> remote_peer list) \<Rightarrow> remote_peer_id \<Rightarrow> nat \<Rightarrow> networks \<Rightarrow> buckets \<Rightarrow>
     remote_peer list" where
  "get_random_nodes choose_multiple sender number nets bs =
     choose_multiple (get_all_nodes (Some sender) nets bs) number"

definition clean_buckets :: "u64 \<Rightarrow> u64 \<Rightarrow> buckets \<Rightarrow> (metric_log \<times> buckets) result" where
  "clean_buckets now timeout_bucket_entry_period bs =
     (let clean_before = now - timeout_bucket_entry_period in
      with_bucket_0 (\<lambda>b.
        let b' = filter (\<lambda>n. clean_before \<le> bn_last_seen n) b in
        ([Metric_set (Peer_bucket_size ''0'') (int (length b'))], b')) bs)"

text \<open>
  The contract of \<open>IteratorRandom::choose_multiple\<close>: elements of the iterator, as many as
  asked for or all of them when there are fewer.
\<close>

definition chooses_multiple :: "('a list \<Rightarrow> nat \<Rightarrow> 'a list) \<Rightarrow> bool" where
  "chooses_multiple c \<longleftrightarrow>
     (\<forall>xs n. mset (c xs n) \<subseteq># mset xs \<and> length (c xs n) = min n (length xs))"

text \<open>The operations of other components on the buckets, as they arrive at the lock.\<close>

datatype bucket_op =
    Insert_into_bucket u64 remote_peer networks
  | Update_network_ids u64 remote_peer networks
  | Clean_buckets u64 u64

primrec bucket_op_run :: "bucket_op \<Rightarrow> buckets \<Rightarrow> (metric_log \<times> buckets) result" where
  "bucket_op_run (Insert_into_bucket now p nets) bs = insert_into_bucket now p nets bs"
| "bucket_op_run (Update_network_ids now p nets) bs = update_network_ids now p nets bs"
| "bucket_op_run (Clean_buckets now period) bs = clean_buckets now period bs"

fun bucket_run :: "bucket_op list \<Rightarrow> metric_log \<times> buckets \<Rightarrow> (metric_log \<times> buckets) result" where
  "bucket_run [] s = Inr s"
| "bucket_run (x # xs) (log, bs) = (case bucket_op_run x bs of
     Inl e \<Rightarrow> Inl e
   | Inr (l, bs') \<Rightarrow> bucket_run xs (log @ l, bs'))"

section \<open>The invariant\<close>

abbreviation node_addr :: "bucket_node \<Rightarrow> socket_addr" where
  "node_addr n \<equiv> external_addr (bn_peer n)"

text \<open>One bucket, and in it no two nodes with the same external address.\<close>

definition buckets_inv :: "buckets \<Rightarrow> bool" where
  "buckets_inv bs \<longleftrightarrow> length (bucket_vec bs) = BUCKET_COUNT \<and>
     (\<forall>b \<in> set (bucket_vec bs). distinct (map node_addr b))"

lemma set_bucket_replace:
  "distinct (map node_addr b) \<Longrightarrow>
   set (snd (bucket_replace n b)) = insert n {m \<in> set b. node_addr m \<noteq> node_addr n}"
  by (induction n b rule: bucket_replace.induct)
    (auto simp: bucket_node_eq_def image_iff split: prod.splits)

lemma addrs_bucket_replace:
  "map node_addr (snd (bucket_replace n b)) =
     (if node_addr n \<in> node_addr ` set b then map node_addr b else map node_addr b @ [node_addr n])"
  by (induction n b rule: bucket_replace.induct)
    (auto simp: bucket_node_eq_def split: prod.splits)

lemma old_bucket_replace:
  "fst (bucket_replace n b) = None \<longleftrightarrow> node_addr n \<notin> node_addr ` set b"
  by (induction n b rule: bucket_replace.induct)
    (auto simp: bucket_node_eq_def split: prod.splits)

lemma distinct_bucket_replace:
  "distinct (map node_addr b) \<Longrightarrow> distinct (map node_addr (snd (bucket_replace n b)))"
  by (simp add: addrs_bucket_replace)

lemma length_bucket_replace:
  "length (snd (bucket_replace n b)) =
     (if fst (bucket_replace n b) = None then Suc (length b) else length b)"
  using arg_cong [OF addrs_bucket_replace [of n b], of length] by (simp add: old_bucket_replace)

lemma buckets_inv_cases:
  assumes "buckets_inv bs"
  obtains b where "bs = \<lparr>bucket_vec = [b]\<rparr>" "distinct (map node_addr b)"
proof -
  from assms have "length (bucket_vec bs) = 1" by (simp add: buckets_inv_def BUCKET_COUNT_def)
  then obtain b where "bucket_vec bs = [b]" by (cases "bucket_vec bs") auto
  with assms that [of b] show thesis by (cases bs) (simp add: buckets_inv_def)
qed

lemma buckets_inv_single: "buckets_inv \<lparr>bucket_vec = [b]\<rparr> \<longleftrightarrow> distinct (map node_addr b)"
  by (simp add: buckets_inv_def BUCKET_COUNT_def)

lemma buckets_inv_default: "buckets_inv buckets_default"
  by (simp add: buckets_inv_def buckets_default_def BUCKET_COUNT_def)

lemmas bucket_op_defs =
  insert_into_bucket_def update_network_ids_def clean_buckets_def with_bucket_0_def Let_def

lemma bucket_op_run_inv:
  assumes "buckets_inv bs"
  shows "\<exists>l bs'. bucket_op_run x bs = Inr (l, bs') \<and> buckets_inv bs'"
proof -
  from assms obtain b where b: "bs = \<lparr>bucket_vec = [b]\<rparr>" "distinct (map node_addr b)"
    by (rule buckets_inv_cases)
  have rep: "distinct (map node_addr (snd (bucket_replace n b)))" for n
    using b(2) by (rule distinct_bucket_replace)
  have rep': "distinct (map node_addr b')" if "bucket_replace n b = (r, b')" for n r b'
    using rep [of n] that by simp
  have flt: "distinct (map node_addr (filter P b))" for P
    using b(2) by (rule distinct_map_filter)
  show ?thesis
    using rep rep' flt
    by (cases x) (auto simp: b(1) bucket_op_defs buckets_inv_single split: prod.splits option.splits)
qed

definition bucket_step :: "metric_log \<times> buckets \<Rightarrow> metric_log \<times> buckets \<Rightarrow> bool" where
  "bucket_step s t \<longleftrightarrow> (\<exists>x l. bucket_op_run x (snd s) = Inr (l, snd t) \<and> fst t = fst s @ l)"

interpretation bucket_sys: transition_system
  "\<lambda>s. s = ([], buckets_default)" bucket_step "\<lambda>s. buckets_inv (snd s)"
proof
  show "buckets_inv (snd s)" if "s = ([], buckets_default)" for s :: "metric_log \<times> buckets"
    using that by (simp add: buckets_inv_default)
  show "buckets_inv (snd t)" if "bucket_step s t" "buckets_inv (snd s)" for s t
    using that bucket_op_run_inv [of "snd s"] unfolding bucket_step_def by (metis Pair_inject sum.inject(2))
qed

lemma bucket_run_steps: "bucket_run xs s = Inr t \<Longrightarrow> bucket_step\<^sup>*\<^sup>* s t"
proof (induction xs s rule: bucket_run.induct)
  case (2 x xs log bs)
  then obtain l bs' where run: "bucket_op_run x bs = Inr (l, bs')" "bucket_run xs (log @ l, bs') = Inr t"
    by (auto split: sum.splits)
  then have "bucket_step\<^sup>*\<^sup>* (log @ l, bs') t" using 2 by blast
  moreover have "bucket_step (log, bs) (log @ l, bs')" using run by (auto simp: bucket_step_def)
  ultimately show ?case by (rule converse_rtranclp_into_rtranclp [rotated])
qed simp

lemma bucket_run_total: "buckets_inv (snd s) \<Longrightarrow> \<exists>t. bucket_run xs s = Inr t"
proof (induction xs s rule: bucket_run.induct)
  case (2 x xs log bs)
  then obtain l bs' where "bucket_op_run x bs = Inr (l, bs')" "buckets_inv bs'"
    using bucket_op_run_inv [of bs x] by auto
  with 2 show ?case by simp
qed simp

text \<open>The gauge follows the size of the bucket as long as \<open>update_network_ids\<close> only
  touches nodes that are present.\<close>

definition gauge_exact :: "metric_log \<times> buckets \<Rightarrow> bool" where
  "gauge_exact s \<longleftrightarrow>
     metric_value (Peer_bucket_size ''0'') (fst s) = int (length (concat (bucket_vec (snd s))))"

lemma gauge_exact_insert:
  assumes "buckets_inv bs" "gauge_exact (log, bs)" "insert_into_bucket now p nets bs = Inr (l, bs')"
  shows "gauge_exact (log @ l, bs')"
proof -
  from assms(1) obtain b where b: "bs = \<lparr>bucket_vec = [b]\<rparr>" by (rule buckets_inv_cases)
  let ?n = "\<lparr>bn_peer = p, bn_networks = nets, bn_last_seen = now\<rparr>"
  show ?thesis
    using assms(2,3) length_bucket_replace [of ?n b]
    by (auto simp: b gauge_exact_def bucket_op_defs split: prod.splits option.splits)
qed

lemma gauge_exact_clean:
  assumes "buckets_inv bs" "clean_buckets now period bs = Inr (l, bs')"
  shows "gauge_exact (log @ l, bs')"
proof -
  from assms(1) obtain b where b: "bs = \<lparr>bucket_vec = [b]\<rparr>" by (rule buckets_inv_cases)
  from assms(2) show ?thesis by (auto simp: b gauge_exact_def bucket_op_defs)
qed

definition no_update :: "bucket_op \<Rightarrow> bool" where
  "no_update x = (case x of Update_network_ids _ _ _ \<Rightarrow> False | _ \<Rightarrow> True)"

lemma gauge_exact_run:
  "bucket_run xs s = Inr t \<Longrightarrow> buckets_inv (snd s) \<Longrightarrow> gauge_exact s \<Longrightarrow> list_all no_update xs \<Longrightarrow>
   gauge_exact t"
proof (induction xs s rule: bucket_run.induct)
  case (2 x xs log bs)
  then obtain l bs' where run: "bucket_op_run x bs = Inr (l, bs')" "bucket_run xs (log @ l, bs') = Inr t"
    by (auto split: sum.splits)
  have inv: "buckets_inv bs'" using bucket_op_run_inv [of bs x] 2(3) run(1) by auto
  have "gauge_exact (log @ l, bs')"
    using run(1) 2(3-5) gauge_exact_insert gauge_exact_clean
    by (cases x) (auto simp: no_update_def)
  with 2 run inv show ?case by auto
qed simp

lemma distinct_map_submset:
  assumes "mset ps \<subseteq># mset xs" "distinct (map f xs)"
  shows "distinct (map f ps)"
proof -
  obtain ys where "mset xs = mset (ps @ ys)"
    using assms(1) by (metis ex_mset mset_append mset_subset_eq_exists_conv)
  then have "mset (map f xs) = mset (map f (ps @ ys))" by (simp only: mset_map)
  with assms(2) have "distinct (map f (ps @ ys))" by (metis mset_eq_imp_distinct_iff)
  then show ?thesis by simp
qed

section \<open>Properties\<close>

text \<open>(C12) Whatever insertions, network updates and clean-ups run on the buckets, in any order
  and with any clock values, none of them panics, there is exactly one bucket, and no two nodes
  in it have the same external address.\<close>

theorem buckets_no_panic:
  "\<exists>log b. bucket_run xs ([], buckets_default) = Inr (log, \<lparr>bucket_vec = [b]\<rparr>) \<and>
     distinct (map (\<lambda>n. external_addr (bn_peer n)) b)"
proof -
  obtain t where t: "bucket_run xs ([], buckets_default) = Inr t"
    using bucket_run_total [of "([], buckets_default)" xs] buckets_inv_default by auto
  have "buckets_inv (snd t)"
    using bucket_sys.inv_reachable [OF refl bucket_run_steps [OF t]] .
  then obtain b where "snd t = \<lparr>bucket_vec = [b]\<rparr>" "distinct (map node_addr b)"
    by (rule buckets_inv_cases)
  with t show ?thesis by (cases t) auto
qed

text \<open>(C13) The metric that reports the bucket size equals the number of nodes in the bucket after
  any sequence of insertions and clean-ups.\<close>

theorem bucket_gauge_exact:
  assumes "list_all no_update xs"
    and "bucket_run xs ([], buckets_default) = Inr (log, bs)"
  shows "metric_value (Peer_bucket_size ''0'') log = int (length (concat (bucket_vec bs)))"
proof -
  have "gauge_exact (log, bs)"
    using gauge_exact_run [OF assms(2) _ _ assms(1)] buckets_inv_default
    by (simp add: gauge_exact_def buckets_default_def BUCKET_COUNT_def)
  then show ?thesis by (simp add: gauge_exact_def)
qed

text \<open>Two insertions of the same address and a clean-up that keeps it.\<close>

theorem bucket_gauge_exact_witness:
  "let p = \<lparr>self_id = None, addr = socket_addr_new (V4 1) 1, local_id = RemotePeerId 1,
             external_port = 8888, peer_type = Node\<rparr>;
       xs = [Insert_into_bucket 10 p [], Insert_into_bucket 20 p [], Clean_buckets 25 10] in
   \<exists>log bs. bucket_run xs ([], buckets_default) = Inr (log, bs) \<and> length (concat (bucket_vec bs)) = 1 \<and>
     metric_value (Peer_bucket_size ''0'') log = 1"
proof -
  let ?p = "\<lparr>self_id = None, addr = socket_addr_new (V4 1) 1, local_id = RemotePeerId 1,
             external_port = 8888, peer_type = Node\<rparr>"
  let ?xs = "[Insert_into_bucket 10 ?p [], Insert_into_bucket 20 ?p [], Clean_buckets 25 10]"
  have ok: "list_all no_update ?xs" by (simp add: no_update_def)
  have run: "bucket_run ?xs ([], buckets_default) =
      Inr ([Metric_inc (Peer_bucket_size ''0''), Metric_set (Peer_bucket_size ''0'') 1],
           \<lparr>bucket_vec = [[\<lparr>bn_peer = ?p, bn_networks = [], bn_last_seen = 20\<rparr>]]\<rparr>)"
    by (simp add: bucket_op_defs buckets_default_def BUCKET_COUNT_def bucket_node_eq_def)
  from bucket_gauge_exact [OF ok run] run show ?thesis by (simp add: Let_def)
qed

text \<open>(C14) The peers a bootstrapper hands out are eligible: regular nodes other than the asking
  peer, on a shared network when networks were asked for; they have pairwise different external
  addresses, and there are as many as asked for unless fewer are eligible.\<close>

theorem random_nodes_eligible:
  assumes "chooses_multiple pick" "buckets_inv bs"
  shows "let ps = get_random_nodes pick sender number nets bs in
     distinct (map external_addr ps) \<and>
     length ps = min number (length (get_all_nodes (Some sender) nets bs)) \<and>
     (\<forall>p \<in> set ps. peer_type p = Node \<and> local_id p \<noteq> sender \<and>
        (\<exists>n \<in> set (concat (bucket_vec bs)). p = bn_peer n \<and>
           (nets = [] \<or> set (bn_networks n) \<inter> set nets \<noteq> {})))"
proof -
  let ?all = "get_all_nodes (Some sender) nets bs"
  let ?ps = "get_random_nodes pick sender number nets bs"
  have sub: "mset ?ps \<subseteq># mset ?all" and len: "length ?ps = min number (length ?all)"
    using assms(1) by (simp_all add: chooses_multiple_def get_random_nodes_def)
  from assms(2) obtain b where b: "bs = \<lparr>bucket_vec = [b]\<rparr>" "distinct (map node_addr b)"
    by (rule buckets_inv_cases)
  have "distinct (map external_addr ?all)"
    using distinct_map_filter [OF b(2), of "bucket_filter_criteria (Some sender) nets"]
    by (simp add: b(1) get_all_nodes_def comp_def)
  with sub have "distinct (map external_addr ?ps)" by (rule distinct_map_submset)
  moreover have "peer_type p = Node \<and> local_id p \<noteq> sender \<and>
      (\<exists>n \<in> set b. p = bn_peer n \<and> (nets = [] \<or> set (bn_networks n) \<inter> set nets \<noteq> {}))"
    if "p \<in> set ?ps" for p
    using that mset_subset_eqD [OF sub, of p]
    by (auto simp: b(1) get_all_nodes_def bucket_filter_criteria_def hs_is_disjoint_def)
  ultimately show ?thesis using len by (simp add: Let_def b(1))
qed

text \<open>The hypotheses hold: one regular node in the buckets, and the first elements as a sample.\<close>

theorem random_nodes_eligible_witness:
  "let n = \<lparr>bn_peer = \<lparr>self_id = None, addr = socket_addr_new (V4 1) 8888, local_id = RemotePeerId 1,
              external_port = 8888, peer_type = Node\<rparr>,
            bn_networks = [NetworkId 100], bn_last_seen = 0\<rparr>;
       ps = get_random_nodes (\<lambda>xs n. take n xs) (RemotePeerId 2) 5 [NetworkId 100] \<lparr>bucket_vec = [[n]]\<rparr>
   in chooses_multiple (\<lambda>(xs :: remote_peer list) n. take n xs) \<and> length ps = 1 \<and>
      distinct (map external_addr ps)"
proof -
  let ?n = "\<lparr>bn_peer = \<lparr>self_id = None, addr = socket_addr_new (V4 1) 8888, local_id = RemotePeerId 1,
              external_port = 8888, peer_type = Node\<rparr>,
            bn_networks = [NetworkId 100], bn_last_seen = 0\<rparr>"
  have pick: "chooses_multiple (\<lambda>(xs :: remote_peer list) n. take n xs)"
    by (auto simp: chooses_multiple_def min.commute
        intro: mset_subset_eq_add_left [of "mset (take n xs)" "mset (drop n xs)" for n xs,
          unfolded mset_append [symmetric] append_take_drop_id])
  have inv: "buckets_inv \<lparr>bucket_vec = [[?n]]\<rparr>" by (simp add: buckets_inv_single)
  have "length (get_all_nodes (Some (RemotePeerId 2)) [NetworkId 100] \<lparr>bucket_vec = [[?n]]\<rparr>) = 1"
    by (simp add: get_all_nodes_def bucket_filter_criteria_def hs_is_disjoint_def)
  with pick random_nodes_eligible [OF pick inv, of "RemotePeerId 2" 5 "[NetworkId 100]"]
  show ?thesis by (simp add: Let_def)
qed

end
