(* ===== verification/Dedup_Queues.thy ===== *)
theory Dedup_Queues
  imports Packet_Types
begin

text \<open>
  Deduplication of broadcast packets, \<open>connection/mod.rs\<close>.

  The packages \<open>circular_queue\<close>, \<open>twox_hash\<close> and \<open>sha2\<close> are outside the
  repository.  A circular queue is known by its capacity and by its elements in the order of
  its iterator, the newest first; creating one and pushing to one are parameters with the
  documented behaviour \<open>circular_queue_lawful\<close>, and so are the two hash functions
  (without any hypothesis, collisions included).

  The Rust trait \<open>DeduplicationQueue\<close> is the locale \<open>dedup_queue\<close>, interpreted for
  both implementations and for the trait object that the node stores.
\<close>

section \<open>Model\<close>

datatype dedup_hash_algorithm = XxHash64 | Sha256

definition dedup_hash_algorithm_from_str :: "string \<Rightarrow> dedup_hash_algorithm result" where
  "dedup_hash_algorithm_from_str s =
     (if s = ''xxhash64'' then Inr XxHash64
      else if s = ''sha256'' then Inr Sha256
      else Inl (Bail ''Could not parse deduplication hashing algorithm''))"

record 'a circular_queue =
  cq_capacity :: nat
  cq_items :: "'a list"

record 'a circular_queue_ops =
  cq_with_capacity :: "nat \<Rightarrow> 'a circular_queue"
  cq_push :: "'a \<Rightarrow> 'a circular_queue \<Rightarrow> 'a circular_queue"

text \<open>
  The documentation of \<open>circular_queue\<close>: when the queue runs out of capacity, newer items
  overwrite the oldest ones.
\<close>

definition circular_queue_lawful :: "'a circular_queue_ops \<Rightarrow> bool" where
  "circular_queue_lawful ops \<longleftrightarrow>
     (\<forall>n. cq_with_capacity ops n = \<lparr>cq_capacity = n, cq_items = []\<rparr>) \<and>
     (\<forall>x q. 0 < cq_capacity q \<longrightarrow>
        cq_push ops x q = q\<lparr>cq_items := take (cq_capacity q) (x # cq_items q)\<rparr>)"

text \<open>\<open>if let Some(v) = queue.iter_mut().find(|v| **v == x) { *v = y }\<close>\<close>

fun overwrite_first :: "'a \<Rightarrow> 'a \<Rightarrow> 'a list \<Rightarrow> 'a list" where
  "overwrite_first x y [] = []"
| "overwrite_first x y (z # zs) = (if z = x then y # zs else z # overwrite_first x y zs)"

record dedup_env =
  xx_queue_ops :: "u64 circular_queue_ops"
  sha_queue_ops :: "bytes circular_queue_ops"
  xxhash64 :: "u64 \<Rightarrow> bytes \<Rightarrow> u64"
  sha256 :: "bytes \<Rightarrow> bytes"

record dedup_queue_xxhash64 =
  xx_seed :: u64
  xx_queue :: "u64 circular_queue"

definition xx_new :: "dedup_env \<Rightarrow> u64 \<Rightarrow> nat \<Rightarrow> dedup_queue_xxhash64" where
  "xx_new env random capacity =
     \<lparr>xx_seed = random, xx_queue = cq_with_capacity (xx_queue_ops env) capacity\<rparr>"

definition xx_hash :: "dedup_env \<Rightarrow> dedup_queue_xxhash64 \<Rightarrow> bytes \<Rightarrow> u64" where
  "xx_hash env q input = xxhash64 env (xx_seed q) input"

definition xx_check_and_insert ::
    "dedup_env \<Rightarrow> bytes \<Rightarrow> dedup_queue_xxhash64 \<Rightarrow> bool \<times> dedup_queue_xxhash64" where
  "xx_check_and_insert env input q =
     (let num = xx_hash env q input in
      if num \<notin> set (cq_items (xx_queue q))
      then (False, q\<lparr>xx_queue := cq_push (xx_queue_ops env) num (xx_queue q)\<rparr>)
      else (True, q))"

definition xx_invalidate_if_exists ::
    "dedup_env \<Rightarrow> bytes \<Rightarrow> dedup_queue_xxhash64 \<Rightarrow> dedup_queue_xxhash64" where
  "xx_invalidate_if_exists env input q =
     (let num = xx_hash env q input in
      q\<lparr>xx_queue := (xx_queue q)\<lparr>cq_items := overwrite_first num (not num) (cq_items (xx_queue q))\<rparr>\<rparr>)"

record dedup_queue_sha256 =
  sha_queue :: "bytes circular_queue"

definition sha_new :: "dedup_env \<Rightarrow> nat \<Rightarrow> dedup_queue_sha256" where
  "sha_new env capacity = \<lparr>sha_queue = cq_with_capacity (sha_queue_ops env) capacity\<rparr>"

definition sha_hash :: "dedup_env \<Rightarrow> bytes \<Rightarrow> bytes" where
  "sha_hash env input = sha256 env input"

definition sha_check_and_insert ::
    "dedup_env \<Rightarrow> bytes \<Rightarrow> dedup_queue_sha256 \<Rightarrow> bool \<times> dedup_queue_sha256" where
  "sha_check_and_insert env input q =
     (let hash = sha_hash env input in
      if hash \<notin> set (cq_items (sha_queue q))
      then (False, q\<lparr>sha_queue := cq_push (sha_queue_ops env) hash (sha_queue q)\<rparr>)
      else (True, q))"

definition sha_invalidate_if_exists ::
    "dedup_env \<Rightarrow> bytes \<Rightarrow> dedup_queue_sha256 \<Rightarrow> dedup_queue_sha256" where
  "sha_invalidate_if_exists env input q =
     (let hash = sha_hash env input in
      q\<lparr>sha_queue := (sha_queue q)
          \<lparr>cq_items := overwrite_first hash (replicate 32 0) (cq_items (sha_queue q))\<rparr>\<rparr>)"

text \<open>\<open>Box<dyn DeduplicationQueue>\<close>\<close>

datatype dyn_dedup_queue = Dyn_xx dedup_queue_xxhash64 | Dyn_sha dedup_queue_sha256

primrec check_and_insert :: "dedup_env \<Rightarrow> bytes \<Rightarrow> dyn_dedup_queue \<Rightarrow> bool \<times> dyn_dedup_queue" where
  "check_and_insert env input (Dyn_xx q) = apsnd Dyn_xx (xx_check_and_insert env input q)"
| "check_and_insert env input (Dyn_sha q) = apsnd Dyn_sha (sha_check_and_insert env input q)"

primrec invalidate_if_exists :: "dedup_env \<Rightarrow> bytes \<Rightarrow> dyn_dedup_queue \<Rightarrow> dyn_dedup_queue" where
  "invalidate_if_exists env input (Dyn_xx q) = Dyn_xx (xx_invalidate_if_exists env input q)"
| "invalidate_if_exists env input (Dyn_sha q) = Dyn_sha (sha_invalidate_if_exists env input q)"

record dedup_queues =
  dq_finalizations :: dyn_dedup_queue
  dq_transactions :: dyn_dedup_queue
  dq_blocks :: dyn_dedup_queue
  dq_fin_records :: dyn_dedup_queue

definition dedup_queues_new ::
    "dedup_env \<Rightarrow> (nat \<Rightarrow> u64) \<Rightarrow> dedup_hash_algorithm \<Rightarrow> nat \<Rightarrow> nat \<Rightarrow> dedup_queues" where
  "dedup_queues_new env random algorithm long_size short_size = (case algorithm of
     XxHash64 \<Rightarrow>
       \<lparr>dq_finalizations = Dyn_xx (xx_new env (random 0) long_size),
        dq_transactions = Dyn_xx (xx_new env (random 1) long_size),
        dq_blocks = Dyn_xx (xx_new env (random 2) short_size),
        dq_fin_records = Dyn_xx (xx_new env (random 3) short_size)\<rparr>
   | Sha256 \<Rightarrow>
       \<lparr>dq_finalizations = Dyn_sha (sha_new env long_size),
        dq_transactions = Dyn_sha (sha_new env long_size),
        dq_blocks = Dyn_sha (sha_new env short_size),
        dq_fin_records = Dyn_sha (sha_new env short_size)\<rparr>)"

definition dedup_with :: "dedup_env \<Rightarrow> bytes \<Rightarrow> dyn_dedup_queue \<Rightarrow> bool \<times> dyn_dedup_queue" where
  "dedup_with env msg q = check_and_insert env msg q"

section \<open>The contract of a deduplication queue\<close>

text \<open>
  The window of a queue is the list of the digests it remembers, the newest first.  Checking a
  message reports whether its digest is in the window and otherwise adds it, dropping the
  oldest digests beyond the capacity; invalidating a message overwrites its digest once.
\<close>

locale dedup_queue =
  fixes wf :: "'q \<Rightarrow> bool"
    and window :: "'q \<Rightarrow> 'h list"
    and capacity :: "'q \<Rightarrow> nat"
    and digest :: "'q \<Rightarrow> bytes \<Rightarrow> 'h"
    and blank :: "'q \<Rightarrow> 'h \<Rightarrow> 'h"
    and check :: "bytes \<Rightarrow> 'q \<Rightarrow> bool \<times> 'q"
    and invalidate :: "bytes \<Rightarrow> 'q \<Rightarrow> 'q"
  assumes check_dup: "fst (check m q) \<longleftrightarrow> digest q m \<in> set (window q)"
    and check_window: "wf q \<Longrightarrow> window (snd (check m q)) =
      (if digest q m \<in> set (window q) then window q
       else take (capacity q) (digest q m # window q))"
    and check_frame: "wf q \<Longrightarrow> capacity (snd (check m q)) = capacity q"
      "wf q \<Longrightarrow> digest (snd (check m q)) = digest q" "wf q \<Longrightarrow> wf (snd (check m q))"
    and invalidate_window:
      "window (invalidate m q) = overwrite_first (digest q m) (blank q (digest q m)) (window q)"
    and invalidate_frame: "capacity (invalidate m q) = capacity q"
      "digest (invalidate m q) = digest q" "wf q \<Longrightarrow> wf (invalidate m q)"
    and capacity_pos: "wf q \<Longrightarrow> 0 < capacity q"
begin

lemma checks_frame:
  "wf q \<Longrightarrow> wf (fold (\<lambda>m q. snd (check m q)) ms q) \<and>
     capacity (fold (\<lambda>m q. snd (check m q)) ms q) = capacity q \<and>
     digest (fold (\<lambda>m q. snd (check m q)) ms q) = digest q"
  by (induction ms arbitrary: q) (simp_all add: check_frame)

text \<open>A digest moves back by at most one place with every check.\<close>

lemma checks_position:
  "wf q \<Longrightarrow> h \<in> set (take k (window q)) \<Longrightarrow> k + length ms \<le> capacity q \<Longrightarrow>
     h \<in> set (take (k + length ms) (window (fold (\<lambda>m q. snd (check m q)) ms q)))"
proof (induction ms arbitrary: q k)
  case (Cons m ms)
  let ?q = "snd (check m q)"
  have "h \<in> set (take (Suc k) (window ?q))"
  proof (cases "digest q m \<in> set (window q)")
    case True
    then show ?thesis
      using Cons.prems set_take_subset_set_take [of k "Suc k" "window q"]
      by (auto simp: check_window)
  next
    case False
    then show ?thesis using Cons.prems by (simp add: check_window min_def)
  qed
  then have "h \<in> set (take (Suc k + length ms) (window (fold (\<lambda>m q. snd (check m q)) ms ?q)))"
    using Cons.prems by (intro Cons.IH) (simp_all add: check_frame)
  then show ?case by simp
qed simp

lemma check_seen: "wf q \<Longrightarrow> digest q m \<in> set (window (snd (check m q)))"
  using capacity_pos [of q] by (cases "capacity q") (auto simp: check_window)

lemma duplicate_within_window:
  assumes "wf q" "digest q m \<notin> set (window q)" "length ms < capacity q"
  shows "fst (check m (fold (\<lambda>m q. snd (check m q)) ms (snd (check m q))))"
proof -
  have "digest q m \<in> set (take 1 (window (snd (check m q))))"
    using assms(1,2) capacity_pos [of q] by (cases "capacity q") (simp_all add: check_window)
  then have "digest q m \<in> set (take (1 + length ms)
      (window (fold (\<lambda>m q. snd (check m q)) ms (snd (check m q)))))"
    using assms by (intro checks_position) (simp_all add: check_frame)
  then have "digest q m \<in> set (window (fold (\<lambda>m q. snd (check m q)) ms (snd (check m q))))"
    using set_take_subset by fastforce
  moreover have "digest (fold (\<lambda>m q. snd (check m q)) ms (snd (check m q))) = digest q"
    using assms(1) checks_frame [of "snd (check m q)" ms] by (simp add: check_frame)
  ultimately show ?thesis by (simp add: check_dup)
qed

lemma count_overwrite_first:
  "y \<noteq> x \<Longrightarrow> count_list (overwrite_first x y zs) x = count_list zs x - 1"
  by (induction x y zs rule: overwrite_first.induct) (auto simp: count_list_0_iff)

lemma recheck_after_invalidate:
  assumes "blank q (digest q m) \<noteq> digest q m"
  shows "fst (check m (invalidate m q)) \<longleftrightarrow> 2 \<le> count_list (window q) (digest q m)"
proof -
  have "fst (check m (invalidate m q)) \<longleftrightarrow>
      count_list (overwrite_first (digest q m) (blank q (digest q m)) (window q)) (digest q m) \<noteq> 0"
    by (simp add: check_dup invalidate_frame invalidate_window count_list_0_iff)
  with assms show ?thesis by (simp add: count_overwrite_first) linarith
qed

lemma window_bound:
  "wf q \<Longrightarrow> length (window q) \<le> capacity q \<Longrightarrow> length (window (snd (check m q))) \<le> capacity q"
  by (simp add: check_window)

end

section \<open>Both queues implement the contract\<close>

text \<open>The state carries the parameters, so that the laws need no assumption beyond
  \<open>circular_queue_lawful\<close> in the well-formedness predicate.\<close>

definition xx_wf :: "dedup_env \<times> dedup_queue_xxhash64 \<Rightarrow> bool" where
  "xx_wf = (\<lambda>(env, q). circular_queue_lawful (xx_queue_ops env) \<and> 0 < cq_capacity (xx_queue q))"

definition sha_wf :: "dedup_env \<times> dedup_queue_sha256 \<Rightarrow> bool" where
  "sha_wf = (\<lambda>(env, q). circular_queue_lawful (sha_queue_ops env) \<and> 0 < cq_capacity (sha_queue q))"

lemma cq_push_lawful:
  "circular_queue_lawful ops \<Longrightarrow> 0 < cq_capacity q \<Longrightarrow>
     cq_push ops x q = q\<lparr>cq_items := take (cq_capacity q) (x # cq_items q)\<rparr>"
  by (simp add: circular_queue_lawful_def)

lemma bit_complement_neq: "not (w :: u64) \<noteq> w"
proof
  assume "not w = w"
  then have "bit (not w) 0 = bit w 0" by simp
  then show False by (simp add: bit_not_iff)
qed

interpretation xx_dedup: dedup_queue
  xx_wf "\<lambda>(env, q). cq_items (xx_queue q)" "\<lambda>(env, q). cq_capacity (xx_queue q)"
  "\<lambda>(env, q). xx_hash env q" "\<lambda>_ h. not h"
  "\<lambda>m (env, q). apsnd (Pair env) (xx_check_and_insert env m q)"
  "\<lambda>m (env, q). (env, xx_invalidate_if_exists env m q)"
  by unfold_locales
    (auto simp: xx_check_and_insert_def xx_invalidate_if_exists_def xx_wf_def xx_hash_def Let_def
      cq_push_lawful fun_eq_iff split: if_splits)

interpretation sha_dedup: dedup_queue
  sha_wf "\<lambda>(env, q). cq_items (sha_queue q)" "\<lambda>(env, q). cq_capacity (sha_queue q)"
  "\<lambda>(env, q). sha_hash env" "\<lambda>_ h. replicate 32 0"
  "\<lambda>m (env, q). apsnd (Pair env) (sha_check_and_insert env m q)"
  "\<lambda>m (env, q). (env, sha_invalidate_if_exists env m q)"
  by unfold_locales
    (auto simp: sha_check_and_insert_def sha_invalidate_if_exists_def sha_wf_def sha_hash_def Let_def
      cq_push_lawful split: if_splits)

text \<open>The trait object, with digests of either kind.\<close>

primrec dyn_capacity :: "dyn_dedup_queue \<Rightarrow> nat" where
  "dyn_capacity (Dyn_xx q) = cq_capacity (xx_queue q)"
| "dyn_capacity (Dyn_sha q) = cq_capacity (sha_queue q)"

primrec dyn_window :: "dyn_dedup_queue \<Rightarrow> (u64 + bytes) list" where
  "dyn_window (Dyn_xx q) = map Inl (cq_items (xx_queue q))"
| "dyn_window (Dyn_sha q) = map Inr (cq_items (sha_queue q))"

primrec dyn_digest :: "dedup_env \<Rightarrow> dyn_dedup_queue \<Rightarrow> bytes \<Rightarrow> u64 + bytes" where
  "dyn_digest env (Dyn_xx q) m = Inl (xx_hash env q m)"
| "dyn_digest env (Dyn_sha q) m = Inr (sha_hash env m)"

definition dedup_env_lawful :: "dedup_env \<Rightarrow> bool" where
  "dedup_env_lawful env \<longleftrightarrow>
     circular_queue_lawful (xx_queue_ops env) \<and> circular_queue_lawful (sha_queue_ops env)"

definition dyn_blank :: "u64 + bytes \<Rightarrow> u64 + bytes" where
  "dyn_blank h = (case h of Inl w \<Rightarrow> Inl (not w) | Inr _ \<Rightarrow> Inr (replicate 32 0))"

lemma overwrite_first_map:
  "inj f \<Longrightarrow> map f (overwrite_first x y zs) = overwrite_first (f x) (f y) (map f zs)"
  by (induction x y zs rule: overwrite_first.induct) (auto dest: injD)

lemma map_take_Cons: "map f (take n (x # xs)) = take n (f x # map f xs)"
  by (cases n) (simp_all add: take_map)

interpretation dyn_dedup: dedup_queue
  "\<lambda>(env, q). dedup_env_lawful env \<and> 0 < dyn_capacity q"
  "\<lambda>(env, q). dyn_window q" "\<lambda>(env, q). dyn_capacity q"
  "\<lambda>(env, q). dyn_digest env q" "\<lambda>_. dyn_blank"
  "\<lambda>m (env, q). apsnd (Pair env) (check_and_insert env m q)"
  "\<lambda>m (env, q). (env, invalidate_if_exists env m q)"
proof (unfold_locales, goal_cases)
  case (1 m q)
  then show ?case
    by (cases q; cases "snd q")
      (auto simp: xx_check_and_insert_def sha_check_and_insert_def xx_hash_def sha_hash_def Let_def)
next
  case (2 q m)
  then show ?case
    by (cases q; cases "snd q")
      (auto simp: xx_check_and_insert_def sha_check_and_insert_def xx_hash_def sha_hash_def Let_def
        dedup_env_lawful_def cq_push_lawful map_take_Cons split: if_splits)
next
  case (3 q m)
  then show ?case
    by (cases q; cases "snd q")
      (auto simp: xx_check_and_insert_def sha_check_and_insert_def Let_def
        dedup_env_lawful_def cq_push_lawful)
next
  case (4 q m)
  then show ?case
    by (cases q; cases "snd q")
      (auto simp: xx_check_and_insert_def sha_check_and_insert_def xx_hash_def sha_hash_def Let_def
        fun_eq_iff)
next
  case (5 q m)
  then show ?case
    by (cases q; cases "snd q")
      (auto simp: xx_check_and_insert_def sha_check_and_insert_def Let_def
        dedup_env_lawful_def cq_push_lawful)
next
  case (6 m q)
  then show ?case
    by (cases q; cases "snd q")
      (auto simp: xx_invalidate_if_exists_def sha_invalidate_if_exists_def xx_hash_def sha_hash_def
        Let_def dyn_blank_def overwrite_first_map)
next
  case (7 m q)
  then show ?case
    by (cases q; cases "snd q")
      (auto simp: xx_invalidate_if_exists_def sha_invalidate_if_exists_def Let_def)
next
  case (8 m q)
  then show ?case
    by (cases q; cases "snd q")
      (auto simp: xx_invalidate_if_exists_def sha_invalidate_if_exists_def Let_def xx_hash_def
        fun_eq_iff)
next
  case (9 q m)
  then show ?case
    by (cases q; cases "snd q")
      (auto simp: xx_invalidate_if_exists_def sha_invalidate_if_exists_def Let_def)
qed auto

text \<open>A queue that meets the documentation, and a hash function, for the examples below.\<close>

definition list_queue_ops :: "'a circular_queue_ops" where
  "list_queue_ops =
     \<lparr>cq_with_capacity = (\<lambda>n. \<lparr>cq_capacity = n, cq_items = []\<rparr>),
      cq_push = (\<lambda>x q. q\<lparr>cq_items := take (cq_capacity q) (x # cq_items q)\<rparr>)\<rparr>"

definition example_dedup_env :: dedup_env where
  "example_dedup_env =
     \<lparr>xx_queue_ops = list_queue_ops, sha_queue_ops = list_queue_ops,
      xxhash64 = (\<lambda>seed m. seed + word_of_nat (be_value m)), sha256 = (\<lambda>m. take 32 (m @ replicate 32 1))\<rparr>"

lemma example_dedup_env_lawful: "dedup_env_lawful example_dedup_env"
  by (simp add: dedup_env_lawful_def example_dedup_env_def circular_queue_lawful_def list_queue_ops_def)

lemmas example_dedup_simps =
  example_dedup_env_def list_queue_ops_def xx_check_and_insert_def sha_check_and_insert_def
  xx_hash_def sha_hash_def Let_def be_value_def

lemma dup_within_window:
  assumes "dedup_env_lawful env" "length ms < dyn_capacity q"
    and "check_and_insert env m q = (False, q1)"
    and "q2 = fold (\<lambda>m q. snd (check_and_insert env m q)) ms q1"
  shows "fst (check_and_insert env m q2)"
proof -
  let ?check = "\<lambda>m. \<lambda>(env, q). apsnd (Pair env) (check_and_insert env m q)"
  have fold: "fold (\<lambda>m q. snd (?check m q)) xs (env, p) =
      (env, fold (\<lambda>m q. snd (check_and_insert env m q)) xs p)" for xs p
    by (induction xs arbitrary: p) simp_all
  have "dyn_digest env q m \<notin> set (dyn_window q)"
    using dyn_dedup.check_dup [of m "(env, q)"] assms(3) by simp
  with dyn_dedup.duplicate_within_window [of "(env, q)" m ms] assms show ?thesis
    by (simp add: fold)
qed

section \<open>Properties\<close>





end
