(* ===== verification/Message_Queues.thy ===== *)
theory Message_Queues
  imports Prelude
begin

text \<open>
  The outgoing message queues and the statistics of a connection, \<open>connection/mod.rs\<close>.
  The initial capacity of a \<open>VecDeque\<close> is an allocation hint and has no counterpart.  The
  atomic counters are words; \<open>pending_pongs\<close> is an \<open>i64\<close>, read with \<open>sint\<close>.
\<close>

section \<open>Model\<close>

datatype message_sending_priority = Normal | High

record message_queues =
  mq_low :: "bytes list"
  mq_high :: "bytes list"

definition mq_index :: "message_queues \<Rightarrow> message_sending_priority \<Rightarrow> bytes list" where
  "mq_index q priority = (case priority of Normal \<Rightarrow> mq_low q | High \<Rightarrow> mq_high q)"

definition mq_new :: message_queues where
  "mq_new = \<lparr>mq_low = [], mq_high = []\<rparr>"

definition enqueue :: "message_sending_priority \<Rightarrow> bytes \<Rightarrow> message_queues \<Rightarrow> message_queues" where
  "enqueue priority m q = (case priority of
     Normal \<Rightarrow> q\<lparr>mq_low := mq_low q @ [m]\<rparr>
   | High \<Rightarrow> q\<lparr>mq_high := mq_high q @ [m]\<rparr>)"

definition dequeue :: "message_queues \<Rightarrow> bytes option \<times> message_queues" where
  "dequeue q = (case mq_high q of
     m # ms \<Rightarrow> (Some m, q\<lparr>mq_high := ms\<rparr>)
   | [] \<Rightarrow> (case mq_low q of
       m # ms \<Rightarrow> (Some m, q\<lparr>mq_low := ms\<rparr>)
     | [] \<Rightarrow> (None, q)))"

record connection_stats =
  cs_created :: u64
  cs_last_seen :: u64
  cs_last_ping :: u64
  cs_last_ping_interval :: u64
  cs_pending_pongs :: "64 word"
  cs_last_latency :: u64
  cs_messages_sent :: u64
  cs_messages_received :: u64
  cs_bytes_received :: u64
  cs_bytes_sent :: u64

definition connection_stats_new :: "u64 \<Rightarrow> connection_stats" where
  "connection_stats_new timestamp =
     \<lparr>cs_created = timestamp, cs_last_seen = timestamp, cs_last_ping = 0, cs_last_ping_interval = 0,
      cs_pending_pongs = 0, cs_last_latency = 0, cs_messages_sent = 0, cs_messages_received = 0,
      cs_bytes_received = 0, cs_bytes_sent = 0\<rparr>"

definition notify_ping :: "u64 \<Rightarrow> connection_stats \<Rightarrow> connection_stats" where
  "notify_ping now s =
     (let previous_ping = cs_last_ping s in
      s\<lparr>cs_last_ping := now,
        cs_last_ping_interval := now - previous_ping,
        cs_pending_pongs := cs_pending_pongs s + 1\<rparr>)"

definition notify_pong :: "u64 \<Rightarrow> connection_stats \<Rightarrow> unit result \<times> connection_stats" where
  "notify_pong now s =
     (let old_pending_pongs = cs_pending_pongs s;
          s' = s\<lparr>cs_pending_pongs := old_pending_pongs - 1\<rparr> in
      if sint old_pending_pongs \<le> 0 then (Inl (Bail ''unexpected pong''), s')
      else
        (let extra_delay =
               (if sint old_pending_pongs > 1
                then (old_pending_pongs - 1) * cs_last_ping_interval s' else 0);
             measured_latency = now - cs_last_ping s' + extra_delay in
         (Inr (), s'\<lparr>cs_last_latency := measured_latency\<rparr>)))"

definition get_latency :: "connection_stats \<Rightarrow> u64" where
  "get_latency s = cs_last_latency s"

section \<open>The contract of a queue with two priorities\<close>

text \<open>
  \<open>content q p\<close> is what waits with priority \<open>p\<close>, in order.  The client's lemma
  accounts for every message along any interleaving of the two operations: in
  \<open>pq_run\<close>, \<open>Some (p, m)\<close> puts a message in and \<open>None\<close> takes one out; the
  trace has the messages taken with the priority they had.
\<close>

fun pq_run ::
    "(message_sending_priority \<Rightarrow> 'm \<Rightarrow> 'q \<Rightarrow> 'q) \<Rightarrow> ('q \<Rightarrow> 'm option \<times> 'q) \<Rightarrow>
     ('q \<Rightarrow> message_sending_priority \<Rightarrow> 'm list) \<Rightarrow>
     (message_sending_priority \<times> 'm) option list \<Rightarrow> 'q \<Rightarrow> (message_sending_priority \<times> 'm) list \<times> 'q" where
  "pq_run enq deq content [] q = ([], q)"
| "pq_run enq deq content (Some (p, m) # xs) q = pq_run enq deq content xs (enq p m q)"
| "pq_run enq deq content (None # xs) q = (case deq q of
     (None, q') \<Rightarrow> pq_run enq deq content xs q'
   | (Some m, q') \<Rightarrow>
       apfst (Cons (if content q High \<noteq> [] then High else Normal, m)) (pq_run enq deq content xs q'))"

locale two_priority_queue =
  fixes empty :: 'q
    and enq :: "message_sending_priority \<Rightarrow> 'm \<Rightarrow> 'q \<Rightarrow> 'q"
    and deq :: "'q \<Rightarrow> 'm option \<times> 'q"
    and content :: "'q \<Rightarrow> message_sending_priority \<Rightarrow> 'm list"
  assumes content_empty: "content empty p = []"
    and content_enq: "content (enq p m q) p' = content q p' @ (if p' = p then [m] else [])"
    and deq_none: "fst (deq q) = None \<Longrightarrow> content q p = [] \<and> content (snd (deq q)) p = []"
    and deq_some: "fst (deq q) = Some m \<Longrightarrow>
      (let p = (if content q High \<noteq> [] then High else Normal) in
       content q p = m # content (snd (deq q)) p \<and>
       (\<forall>p'. p' \<noteq> p \<longrightarrow> content (snd (deq q)) p' = content q p'))"
begin

lemma run_accounts:
  "[m. (p', m) \<leftarrow> fst (pq_run enq deq content xs q), p' = p] @
     content (snd (pq_run enq deq content xs q)) p =
     content q p @ [m. Some (p', m) \<leftarrow> xs, p' = p]"
proof (induction xs arbitrary: q)
  case (Cons x xs)
  show ?case
  proof (cases x)
    case (Some pm)
    then show ?thesis using Cons.IH by (cases pm) (simp add: content_enq)
  next
    case None
    obtain r q' where deq: "deq q = (r, q')" by (cases "deq q")
    show ?thesis
    proof (cases r)
      case None
      with \<open>x = None\<close> deq Cons.IH [of q'] deq_none [of q p] show ?thesis by simp
    next
      case (Some m)
      let ?p = "if content q High \<noteq> [] then High else Normal"
      from Some deq \<open>x = None\<close> have run: "pq_run enq deq content (x # xs) q =
          apfst (Cons (?p, m)) (pq_run enq deq content xs q')"
        by simp
      have "content q ?p = m # content q' ?p" "p \<noteq> ?p \<Longrightarrow> content q' p = content q p"
        using deq_some [of q m] deq Some by (auto simp: Let_def)
      with Cons.IH [of q'] \<open>x = None\<close> show ?thesis
        unfolding run by (cases "p = ?p") simp_all
    qed
  qed
qed simp

end

lemma mq_index_simps [simp]:
  "mq_index q Normal = mq_low q" "mq_index q High = mq_high q"
  by (simp_all add: mq_index_def)

interpretation mq: two_priority_queue mq_new enqueue dequeue mq_index
proof
  show "mq_index mq_new p = []" for p by (simp add: mq_index_def mq_new_def split: message_sending_priority.split)
  show "mq_index (enqueue p m q) p' = mq_index q p' @ (if p' = p then [m] else [])" for p m q p'
    by (simp add: mq_index_def enqueue_def split: message_sending_priority.split)
  show "mq_index q p = [] \<and> mq_index (snd (dequeue q)) p = []" if "fst (dequeue q) = None" for q p
    using that by (auto simp: mq_index_def dequeue_def split: message_sending_priority.split list.splits)
  show "let p = (if mq_index q High \<noteq> [] then High else Normal) in
      mq_index q p = m # mq_index (snd (dequeue q)) p \<and>
      (\<forall>p'. p' \<noteq> p \<longrightarrow> mq_index (snd (dequeue q)) p' = mq_index q p')"
    if "fst (dequeue q) = Some m" for q m
  proof -
    have other: "p' = Normal" if "p' \<noteq> High" for p' using that by (cases p') simp_all
    have other': "p' = High" if "p' \<noteq> Normal" for p' using that by (cases p') simp_all
    show ?thesis
      using that by (auto simp: Let_def dequeue_def split: list.splits dest!: other other')
  qed
qed

text \<open>Draining, as \<open>send_pending_messages\<close> does when every write succeeds.\<close>

fun mq_drain :: "nat \<Rightarrow> message_queues \<Rightarrow> bytes list \<times> message_queues" where
  "mq_drain 0 q = ([], q)"
| "mq_drain (Suc n) q = (case dequeue q of
     (None, q') \<Rightarrow> ([], q')
   | (Some m, q') \<Rightarrow> apfst (Cons m) (mq_drain n q'))"

lemma mq_drain_all:
  "length (mq_high q) + length (mq_low q) \<le> n \<Longrightarrow> mq_drain n q = (mq_high q @ mq_low q, mq_new)"
  by (induction n q rule: mq_drain.induct)
    (auto simp: dequeue_def mq_new_def split: list.splits)

section \<open>Pings and pongs\<close>

datatype ping_event = Ping_at u64 | Pong_at u64

primrec ping_event_step :: "ping_event \<Rightarrow> connection_stats \<Rightarrow> bool \<times> connection_stats" where
  "ping_event_step (Ping_at now) s = (True, notify_ping now s)"
| "ping_event_step (Pong_at now) s = (let (r, s') = notify_pong now s in (r = Inr (), s'))"

fun ping_run :: "ping_event list \<Rightarrow> connection_stats \<Rightarrow> bool list \<times> connection_stats" where
  "ping_run [] s = ([], s)"
| "ping_run (e # es) s = (let (ok, s') = ping_event_step e s in apfst (Cons ok) (ping_run es s'))"

text \<open>Pings minus pongs.\<close>

primrec ping_balance :: "ping_event list \<Rightarrow> int" where
  "ping_balance [] = 0"
| "ping_balance (e # es) = (case e of Ping_at _ \<Rightarrow> 1 | Pong_at _ \<Rightarrow> - 1) + ping_balance es"

lemma ping_balance_append [simp]: "ping_balance (xs @ ys) = ping_balance xs + ping_balance ys"
  by (induction xs) simp_all

lemma ping_balance_bound: "\<bar>ping_balance es\<bar> \<le> int (length es)"
  by (induction es) (auto split: ping_event.splits)

lemma ping_run_pending:
  "cs_pending_pongs (snd (ping_run es s)) = cs_pending_pongs s + word_of_int (ping_balance es)"
  by (induction es s rule: ping_run.induct)
    (auto simp: notify_ping_def notify_pong_def Let_def algebra_simps split: prod.splits ping_event.splits if_splits)

lemma sint_word_of_int_small: "\<bar>k\<bar> < 2 ^ 63 \<Longrightarrow> sint (word_of_int k :: 64 word) = k"
  by (simp add: signed_of_int signed_take_bit_int_eq_self)

section \<open>Properties\<close>

text \<open>(C10) Sending is in priority order and loses nothing: along any interleaving of enqueueing and
  dequeueing, the messages taken with a priority followed by those still waiting with it are
  those that were put in with it, in order; and draining the queues yields all waiting messages,
  those of high priority first, and leaves the queues empty.\<close>

theorem message_queues_fifo_per_priority:
  "let (taken, q) = pq_run enqueue dequeue mq_index xs mq_new in
   [m. (p', m) \<leftarrow> taken, p' = p] @ mq_index q p = [m. Some (p', m) \<leftarrow> xs, p' = p] \<and>
   mq_drain (length (mq_high q) + length (mq_low q)) q = (mq_high q @ mq_low q, mq_new)"
  using mq.run_accounts [of p xs mq_new]
  by (auto simp: mq.content_empty mq_drain_all split: prod.split)

text \<open>(C17) A pong is accepted exactly when more pings were sent than pongs received before it, as
  long as fewer than \<open>2 ^ 63\<close> of them were exchanged; the number of pongs still expected
  is the difference.\<close>

theorem pong_accepted_iff_expected:
  assumes "length es < 2 ^ 63"
    and "ping_run es (connection_stats_new t) = (oks, s)"
  shows "(fst (notify_pong now s) = Inr () \<longleftrightarrow> 0 < ping_balance es) \<and>
    sint (cs_pending_pongs s) = ping_balance es"
proof -
  have "cs_pending_pongs s = word_of_int (ping_balance es)"
    using ping_run_pending [of es "connection_stats_new t"] assms(2)
    by (simp add: connection_stats_new_def)
  moreover have "\<bar>ping_balance es\<bar> < 2 ^ 63" using ping_balance_bound [of es] assms(1) by simp
  ultimately have "sint (cs_pending_pongs s) = ping_balance es" by (simp add: sint_word_of_int_small)
  then show ?thesis by (auto simp: notify_pong_def Let_def)
qed

theorem pong_accepted_iff_expected_witness:
  "let s = snd (ping_run [Ping_at 10, Ping_at 30, Pong_at 35] (connection_stats_new 5)) in
   fst (notify_pong 40 s) = Inr () \<and> sint (cs_pending_pongs s) = 1 \<and>
   get_latency (snd (notify_pong 40 s)) = 10"
proof -
  let ?es = "[Ping_at 10, Ping_at 30, Pong_at 35]"
  have len: "length ?es < 2 ^ 63" by simp
  have lat: "get_latency (snd (notify_pong 40 (snd (ping_run ?es (connection_stats_new 5))))) = 10"
    by (simp add: connection_stats_new_def notify_ping_def notify_pong_def get_latency_def Let_def)
  from pong_accepted_iff_expected [OF len, of 5 "fst (ping_run ?es (connection_stats_new 5))" _ 40] lat
  show ?thesis by (simp add: Let_def del: ping_run.simps)
qed

end
