(* ===== verification/Config.thy ===== *)
theory Config
  imports Peer_Types Dedup_Queues Complex_Main
begin

text \<open>
  Configuration: the parts of \<open>configuration.rs\<close> that the modelled code reads, the checks
  of \<open>parse_config\<close>, the compatibility checks of the handshake, and the construction of
  \<open>NodeConfig\<close> in \<open>P2PNode::new\<close> (\<open>p2p/maintenance.rs\<close>).

  The command line is parsed by a package outside the repository, so \<open>parse_config\<close> starts
  from the parsed record.  The records have every option of the structs except those of the
  \<open>profiling\<close> feature and of macOS; paths and URLs are strings, a duration in seconds is a
  \<open>u64\<close>.  An \<open>f64\<close> is the rational number it stands for
  (never NaN or infinite here: the checks compare with \<open>>=\<close> and \<open><=\<close>, which refuse
  NaN); its products and quotients are rounded to 53 significant bits by \<open>f64_round\<close>.
\<close>

section \<open>Floating point\<close>

fun bit_length :: "nat \<Rightarrow> nat" where
  "bit_length n = (if n = 0 then 0 else Suc (bit_length (n div 2)))"

declare bit_length.simps [simp del]

text \<open>The power of two by which a number below one is scaled to reach one.\<close>

primrec up_scale :: "nat \<Rightarrow> rat \<Rightarrow> nat" where
  "up_scale 0 x = 0"
| "up_scale (Suc n) x = (if x \<ge> 1 then 0 else Suc (up_scale n (2 * x)))"

definition round_half_even :: "rat \<Rightarrow> int" where
  "round_half_even r =
     (let n = \<lfloor>r\<rfloor>; d = r - of_int n in
      if d < 1 / 2 then n else if d > 1 / 2 then n + 1 else if even n then n else n + 1)"

text \<open>
  Rounding to 53 significant bits.  Fuel 1022 reaches the least normal number; the numbers that
  occur here lie between \<open>1 / 100\<close> and \<open>2 ^ 33\<close>.
\<close>

definition f64_round :: "rat \<Rightarrow> rat" where
  "f64_round x =
     (if x \<le> 0 then x
      else (let k = (if x \<ge> 1 then 53 - bit_length (nat \<lfloor>x\<rfloor>) else 52 + up_scale 1022 x) in
            of_int (round_half_even (x * 2 ^ k)) / 2 ^ k))"

text \<open>Casts to unsigned integers saturate.\<close>

definition f64_to_u16 :: "rat \<Rightarrow> u16" where
  "f64_to_u16 x = word_of_nat (min 65535 (nat \<lfloor>x\<rfloor>))"

definition f64_to_u32 :: "rat \<Rightarrow> u32" where
  "f64_to_u32 x = word_of_nat (min (2 ^ 32 - 1) (nat \<lfloor>x\<rfloor>))"

section \<open>Constants and compatibility\<close>

definition is_compatible_version :: "version \<Rightarrow> bool" where
  "is_compatible_version other \<longleftrightarrow>
     (2 \<le> v_major other \<and> v_major other \<le> 3) \<or>
     (v_major other = 4 \<and> 1 \<le> v_minor other) \<or>
     5 \<le> v_major other"

definition is_compatible_wire_version :: "u8 list \<Rightarrow> u8 option" where
  "is_compatible_wire_version other =
     find (\<lambda>ours. \<exists>theirs \<in> set other. theirs = ours) WIRE_PROTOCOL_VERSIONS"

definition PROTOCOL_MAX_MESSAGE_SIZE :: u32 where
  "PROTOCOL_MAX_MESSAGE_SIZE = 20971520"

definition PROTOCOL_MAX_TRANSACTION_SIZE :: nat where
  "PROTOCOL_MAX_TRANSACTION_SIZE = 600 * 1024"

definition MAX_CATCH_UP_TIME :: u64 where
  "MAX_CATCH_UP_TIME = 300000"

definition UNREACHABLE_EXPIRATION_SECS :: u64 where
  "UNREACHABLE_EXPIRATION_SECS = 86400"

definition MAX_BOOTSTRAPPER_KEEP_ALIVE :: u64 where
  "MAX_BOOTSTRAPPER_KEEP_ALIVE = 20000"

definition MAX_PREHANDSHAKE_KEEP_ALIVE :: u64 where
  "MAX_PREHANDSHAKE_KEEP_ALIVE = 10000"

definition SOFT_BAN_DURATION_SECS :: u64 where
  "SOFT_BAN_DURATION_SECS = 300"

definition MAX_PEER_NETWORKS :: nat where
  "MAX_PEER_NETWORKS = 20"

definition KEEP_ALIVE_FACTOR :: u64 where
  "KEEP_ALIVE_FACTOR = 3"

section \<open>The configuration\<close>

record prometheus_config =
  prometheus_listen_addr :: ip_addr
  prometheus_listen_port :: "u16 option"
  prometheus_push_gateway :: "string option"
  prometheus_job_name :: string
  prometheus_instance_name :: "string option"
  prometheus_push_username :: "string option"
  prometheus_push_password :: "string option"
  prometheus_push_interval :: u64
  prometheus_metric_grpc_response_time_buckets :: "rat list"

definition prometheus_is_enabled :: "prometheus_config \<Rightarrow> bool" where
  "prometheus_is_enabled c \<longleftrightarrow>
     prometheus_listen_port c \<noteq> None \<or> prometheus_push_gateway c \<noteq> None"

record baker_config =
  bk_gc_logging :: "string option"
  bk_rts_flags :: "string list"
  bk_maximum_block_size :: u32
  bk_block_construction_timeout :: u32
  bk_transaction_insertions_before_purge :: u32
  bk_transaction_keep_alive :: u32
  bk_transactions_purging_delay :: u32
  bk_import_blocks_from :: "string option"
  bk_download_blocks_from :: "string option"
  bk_download_blocks_timeout :: u32
  bk_genesis_data_file :: string
  bk_account_cache_size :: u32
  bk_baker_credentials_file :: "string option"
  bk_validator_credentials_file :: "string option"
  bk_decrypt_baker_credentials :: bool
  bk_decrypt_validator_credentials :: bool
  bk_modules_cache_size :: u32

record grpc2_config =
  g2_listen_addr :: "ip_addr option"
  g2_listen_port :: "u16 option"
  g2_x509_cert :: "string option"
  g2_cert_private_key :: "string option"
  g2_enable_grpc_web :: bool
  g2_endpoint_config :: "string option"
  g2_invoke_max_energy :: u64
  g2_dry_run_timeout :: u64
  g2_dry_run_concurrency :: "nat option"
  g2_health_max_finalized_delay :: u64
  g2_health_min_peers :: "nat option"
  g2_max_connections :: nat
  g2_tcp_keepalive :: "u64 option"
  g2_max_concurrent_requests_per_connection :: nat
  g2_max_concurrent_streams :: u32
  g2_max_concurrent_requests :: nat
  g2_max_threads :: "nat option"
  g2_request_timeout :: u64
  g2_keepalive_interval :: "u64 option"
  g2_keepalive_timeout :: u64

definition grpc2_is_enabled :: "grpc2_config \<Rightarrow> bool" where
  "grpc2_is_enabled c \<longleftrightarrow> g2_listen_addr c \<noteq> None \<and> g2_listen_port c \<noteq> None"

record connection_config =
  cc_desired_nodes :: u16
  cc_max_allowed_nodes :: "u16 option"
  cc_max_allowed_nodes_percentage :: u16
  cc_no_bootstrap_dns :: bool
  cc_clear_bans :: bool
  cc_relay_broadcast_percentage :: rat
  cc_connect_to :: "string list"
  cc_disallow_multiple_peers_on_ip :: bool
  cc_dns_resolver :: "string list"
  cc_bootstrap_nodes :: "string list"
  cc_housekeeping_interval :: u64
  cc_bootstrapping_interval :: u64
  cc_max_latency :: "u64 option"
  cc_hard_connection_limit :: u16
  cc_conn_requests_batch_limit :: u16
  cc_catch_up_batch_limit :: int
  cc_thread_pool_size :: nat
  cc_dedup_size_long :: nat
  cc_dedup_size_short :: nat
  cc_socket_write_size :: nat
  cc_socket_read_size :: nat
  cc_socket_so_linger :: "u16 option"
  cc_events_queue_size :: nat
  cc_deduplication_hashing_algorithm :: dedup_hash_algorithm
  cc_max_normal_keep_alive :: u64
  cc_clear_persisted_peers :: bool

record common_config =
  cm_external_port :: "u16 option"
  cm_id :: "p2p_node_id option"
  cm_listen_port :: u16
  cm_listen_address :: "string option"
  cm_debug :: bool
  cm_trace :: bool
  cm_info :: bool
  cm_no_consensus_logs :: bool
  cm_network_ids :: "u16 list"
  cm_config_dir :: string
  cm_data_dir :: string
  cm_no_log_timestamp :: bool
  cm_log_config :: "string option"
  cm_min_peers_bucket :: nat
  cm_print_config :: bool
  cm_bucket_cleanup_interval :: u64

record cli_config =
  cl_no_network :: bool
  cl_poll_interval :: u64
  cl_baker :: baker_config
  cl_grpc2 :: grpc2_config
  cl_timeout_bucket_entry_period :: u64
  cl_drop_rebroadcast_probability :: "rat option"

record bootstrapper_config =
  bs_max_nodes :: u16
  bs_wait_until_minimum_nodes :: u16
  bs_timeout_bucket_entry_period :: u64
  bs_peer_list_size :: nat
  bs_regenesis_block_hashes :: "string option"

record config =
  common :: common_config
  prometheus :: prometheus_config
  connection :: connection_config
  cli :: cli_config
  bootstrapper :: bootstrapper_config

definition add_options :: "string option \<Rightarrow> u16 \<Rightarrow> u16 list \<Rightarrow> nat \<Rightarrow> config \<Rightarrow> config" where
  "add_options listen_address listen_port network_ids min_peers_bucket c =
     c\<lparr>common := (common c)\<lparr>cm_listen_address := listen_address, cm_listen_port := listen_port,
         cm_network_ids := network_ids, cm_min_peers_bucket := min_peers_bucket\<rparr>\<rparr>"

definition decrypt_credentials :: "baker_config \<Rightarrow> bool" where
  "decrypt_credentials b \<longleftrightarrow> bk_decrypt_baker_credentials b \<or> bk_decrypt_validator_credentials b"

text \<open>
  Reading the file, parsing it as an encrypted object, asking for the password and decrypting
  are parameters.
\<close>

definition read_baker_credentials ::
    "(string \<Rightarrow> bytes result) \<Rightarrow> (bytes \<Rightarrow> 'et result) \<Rightarrow> string result \<Rightarrow> (string \<Rightarrow> 'et \<Rightarrow> bytes result) \<Rightarrow>
     baker_config \<Rightarrow> bytes option result" where
  "read_baker_credentials read_file from_slice read_password decrypt b =
     (let with_path = (\<lambda>path. case read_file path of
            Inl _ \<Rightarrow> Inl (Bail ''Cannot open the validator credentials file'')
          | Inr read_data \<Rightarrow>
              if decrypt_credentials b then
                (case from_slice read_data of Inl e \<Rightarrow> Inl e | Inr et \<Rightarrow>
                 (case read_password of Inl e \<Rightarrow> Inl e | Inr pass \<Rightarrow>
                  (case decrypt pass et of
                     Inr d \<Rightarrow> Inr (Some d)
                   | Inl _ \<Rightarrow> Inl (Bail ''Could not decrypt validator credentials''))))
              else Inr (Some read_data))
      in (case (bk_baker_credentials_file b, bk_validator_credentials_file b) of
            (None, None) \<Rightarrow> Inr None
          | (Some bcred, Some vcred) \<Rightarrow>
              if bcred = vcred then with_path bcred
              else Inl (Bail ''Different credentials files are supplied'')
          | (Some cred, None) \<Rightarrow> with_path cred
          | (None, Some cred) \<Rightarrow> with_path cred))"

text \<open>The checks of \<open>parse_config\<close>, in order; the message is that of the first check that
  fails.\<close>

definition parse_config :: "config \<Rightarrow> config result" where
  "parse_config conf =
     (let c = connection conf in
      if \<not> cc_max_allowed_nodes_percentage c \<ge> 100 then Inl (Bail ''max_allowed_nodes_percentage'')
      else if (case cc_max_allowed_nodes c of
                 Some m \<Rightarrow> \<not> m \<ge> cc_desired_nodes c | None \<Rightarrow> False)
        then Inl (Bail ''max_allowed_nodes'')
      else if \<not> cc_hard_connection_limit c \<ge> cc_desired_nodes c then Inl (Bail ''hard_connection_limit'')
      else if \<not> (cc_relay_broadcast_percentage c \<ge> 0 \<and> cc_relay_broadcast_percentage c \<le> 1)
        then Inl (Bail ''relay_broadcast_percentage'')
      else if \<not> (bk_maximum_block_size (cl_baker (cli conf)) \<le> 4000000000 \<and>
          f64_to_u32 (of_int \<lceil>f64_round (of_nat (unat (bk_maximum_block_size (cl_baker (cli conf))))
            * f64_round (9 / 10))\<rceil>) \<le> PROTOCOL_MAX_MESSAGE_SIZE)
        then Inl (Bail ''maximum_block_size'')
      else if \<not> cc_socket_read_size c \<ge> 65535 then Inl (Bail ''socket_read_size'')
      else if \<not> cc_socket_read_size c \<ge> cc_socket_write_size c then Inl (Bail ''socket_write_size'')
      else if \<not> unat (bs_wait_until_minimum_nodes (bootstrapper conf)) \<le> bs_peer_list_size (bootstrapper conf)
        then Inl (Bail ''wait_until_minimum_nodes'')
      else if \<not> cc_max_normal_keep_alive c \<ge> cc_housekeeping_interval c * KEEP_ALIVE_FACTOR
        then Inl (Bail ''max_normal_keep_alive'')
      else Inr conf)"

section \<open>The configuration of a node\<close>

record node_config =
  nc_no_net :: bool
  nc_desired_nodes_count :: u16
  nc_no_bootstrap_dns :: bool
  nc_clear_bans :: bool
  nc_disallow_multiple_peers_on_ip :: bool
  nc_bootstrap_nodes :: "string list"
  nc_max_allowed_nodes :: u16
  nc_relay_broadcast_percentage :: rat
  nc_poll_interval :: u64
  nc_housekeeping_interval :: u64
  nc_bootstrapping_interval :: u64
  nc_print_peers :: bool
  nc_bootstrapper_wait_minimum_peers :: u16
  nc_data_dir_path :: string
  nc_max_latency :: "u64 option"
  nc_hard_connection_limit :: u16
  nc_conn_requests_batch_limit :: u16
  nc_catch_up_batch_limit :: int
  nc_timeout_bucket_entry_period :: u64
  nc_bucket_cleanup_interval :: u64
  nc_thread_pool_size :: nat
  nc_dedup_size_long :: nat
  nc_dedup_size_short :: nat
  nc_socket_read_size :: nat
  nc_socket_write_size :: nat
  nc_drop_rebroadcast_probability :: "rat option"
  nc_bootstrapper_peer_list_size :: nat
  nc_default_network :: network_id
  nc_socket_so_linger :: "u16 option"
  nc_events_queue_size :: nat
  nc_deduplication_hashing_algorithm :: dedup_hash_algorithm
  nc_max_normal_keep_alive_ms :: u64
  nc_clear_persisted_peers :: bool

definition max_allowed_nodes_of :: "connection_config \<Rightarrow> u16" where
  "max_allowed_nodes_of c = (case cc_max_allowed_nodes c of
     Some m \<Rightarrow> m
   | None \<Rightarrow>
       f64_to_u16 (of_int \<lfloor>f64_round (of_nat (unat (cc_desired_nodes c)) *
         f64_round (of_nat (unat (cc_max_allowed_nodes_percentage c)) / 100))\<rfloor>))"

text \<open>\<open>network_ids[0]\<close> panics when no network is configured.\<close>

definition node_config_of :: "config \<Rightarrow> peer_type \<Rightarrow> node_config result" where
  "node_config_of conf pt =
     (let c = connection conf; cl = cli conf; bs = bootstrapper conf; cm = common conf in
      case cm_network_ids cm of
        [] \<Rightarrow> Inl (Panic ''index out of bounds'')
      | net # _ \<Rightarrow> Inr
         \<lparr>nc_no_net = cl_no_network cl,
          nc_desired_nodes_count = cc_desired_nodes c,
          nc_no_bootstrap_dns = cc_no_bootstrap_dns c,
          nc_clear_bans = cc_clear_bans c,
          nc_disallow_multiple_peers_on_ip = cc_disallow_multiple_peers_on_ip c,
          nc_bootstrap_nodes = cc_bootstrap_nodes c,
          nc_max_allowed_nodes = max_allowed_nodes_of c,
          nc_relay_broadcast_percentage = cc_relay_broadcast_percentage c,
          nc_poll_interval = cl_poll_interval cl,
          nc_housekeeping_interval = cc_housekeeping_interval c,
          nc_bootstrapping_interval = cc_bootstrapping_interval c,
          nc_print_peers = True,
          nc_bootstrapper_wait_minimum_peers =
            (case pt of Bootstrapper \<Rightarrow> bs_wait_until_minimum_nodes bs | Node \<Rightarrow> 0),
          nc_data_dir_path = cm_data_dir cm,
          nc_max_latency = cc_max_latency c,
          nc_hard_connection_limit = cc_hard_connection_limit c,
          nc_conn_requests_batch_limit = cc_conn_requests_batch_limit c,
          nc_catch_up_batch_limit = cc_catch_up_batch_limit c,
          nc_timeout_bucket_entry_period =
            (if pt = Bootstrapper then bs_timeout_bucket_entry_period bs
             else cl_timeout_bucket_entry_period cl),
          nc_bucket_cleanup_interval = cm_bucket_cleanup_interval cm,
          nc_thread_pool_size = cc_thread_pool_size c,
          nc_dedup_size_long = cc_dedup_size_long c,
          nc_dedup_size_short = cc_dedup_size_short c,
          nc_socket_read_size = cc_socket_read_size c,
          nc_socket_write_size = cc_socket_write_size c,
          nc_drop_rebroadcast_probability =
            (case pt of Node \<Rightarrow> cl_drop_rebroadcast_probability cl | _ \<Rightarrow> None),
          nc_bootstrapper_peer_list_size = bs_peer_list_size bs,
          nc_default_network = NetworkId net,
          nc_socket_so_linger = cc_socket_so_linger c,
          nc_events_queue_size = cc_events_queue_size c,
          nc_deduplication_hashing_algorithm = cc_deduplication_hashing_algorithm c,
          nc_max_normal_keep_alive_ms = cc_max_normal_keep_alive c * 1000,
          nc_clear_persisted_peers = cc_clear_persisted_peers c\<rparr>)"

text \<open>DNS resolution is the parameter \<open>resolve\<close>.\<close>

primrec parse_config_nodes ::
    "(string \<Rightarrow> socket_addr list result) \<Rightarrow> string list \<Rightarrow> socket_addr hset \<Rightarrow> socket_addr hset result" where
  "parse_config_nodes resolve [] out = Inr out"
| "parse_config_nodes resolve (x # xs) out = (case resolve x of
     Inl e \<Rightarrow> Inl e
   | Inr addrs \<Rightarrow> parse_config_nodes resolve xs (hs_extend out addrs))"

definition node_connection_limit :: "node_config \<Rightarrow> nat" where
  "node_connection_limit nc = unat (nc_hard_connection_limit nc)"

section \<open>Lemmas\<close>

lemma round_half_even_ge_floor: "\<lfloor>r\<rfloor> \<le> round_half_even r"
  by (simp add: round_half_even_def Let_def)

text \<open>Rounding does not go below an integer that the number is not below.\<close>

lemma f64_round_ge_int:
  assumes "of_int n \<le> x" "1 \<le> x"
  shows "of_int n \<le> f64_round x"
proof -
  define k where "k = 53 - bit_length (nat \<lfloor>x\<rfloor>)"
  have fl: "f64_round x = of_int (round_half_even (x * 2 ^ k)) / 2 ^ k"
    using assms(2) by (simp add: f64_round_def k_def Let_def)
  have "(of_int (n * 2 ^ k) :: rat) \<le> x * 2 ^ k" using assms(1) by simp
  then have "n * 2 ^ k \<le> \<lfloor>x * 2 ^ k\<rfloor>" by (simp only: le_floor_iff)
  also have "\<dots> \<le> round_half_even (x * 2 ^ k)" by (rule round_half_even_ge_floor)
  finally have "(of_int (n * 2 ^ k) :: rat) \<le> of_int (round_half_even (x * 2 ^ k))"
    by (simp only: of_int_le_iff)
  then show ?thesis by (simp add: fl field_simps)
qed

lemma unat_max_u16: "unat (w :: u16) \<le> 65535"
  using unsigned_less [of w, where ?'a = nat] by simp

lemma percentage_ge:
  assumes "100 \<le> p"
  shows "int d \<le> \<lfloor>f64_round (of_nat d * f64_round (of_nat p / 100))\<rfloor>"
proof -
  let ?p = "of_nat p / 100 :: rat"
  let ?x = "of_nat d * f64_round ?p"
  have "1 \<le> ?p" using assms by simp
  with f64_round_ge_int [of 1 ?p] have "1 \<le> f64_round ?p" by simp
  then have d: "of_int (int d) \<le> ?x" using mult_left_mono [of 1 "f64_round ?p" "of_nat d"] by simp
  have "of_int (int d) \<le> f64_round ?x"
  proof (cases "d = 0")
    case True
    then show ?thesis by (simp add: f64_round_def)
  next
    case False
    then have "(1 :: rat) \<le> of_int (int d)" by simp
    with d have "1 \<le> ?x" by linarith
    with d show ?thesis by (rule f64_round_ge_int)
  qed
  then show ?thesis by (simp only: le_floor_iff)
qed

lemma max_allowed_ge_desired:
  assumes "100 \<le> cc_max_allowed_nodes_percentage c"
    and "case cc_max_allowed_nodes c of Some m \<Rightarrow> cc_desired_nodes c \<le> m | None \<Rightarrow> True"
  shows "cc_desired_nodes c \<le> max_allowed_nodes_of c"
proof (cases "cc_max_allowed_nodes c")
  case (Some m)
  with assms(2) show ?thesis by (simp add: max_allowed_nodes_of_def)
next
  case None
  let ?d = "unat (cc_desired_nodes c)"
  let ?p = "unat (cc_max_allowed_nodes_percentage c)"
  have "100 \<le> ?p" using assms(1) by (simp add: word_le_nat_alt)
  then have "int ?d \<le> \<lfloor>f64_round (of_nat ?d * f64_round (of_nat ?p / 100))\<rfloor>"
    by (rule percentage_ge)
  then have "?d \<le> min 65535 (nat \<lfloor>(of_int \<lfloor>f64_round (of_nat ?d * f64_round (of_nat ?p / 100))\<rfloor> :: rat)\<rfloor>)"
    unfolding floor_of_int using unat_max_u16 [of "cc_desired_nodes c"]
    by (intro min.boundedI) (simp_all only: nat_le_eq_zle le_nat_iff zle_int nat_int int_nat_eq)
  moreover have "unat (word_of_nat (min 65535 k) :: u16) = min 65535 k" for k
    by (simp add: unat_of_nat take_bit_eq_mod)
  ultimately show ?thesis
    unfolding max_allowed_nodes_of_def None option.case f64_to_u16_def word_le_nat_alt by metis
qed

lemma parse_config_InrD:
  assumes "parse_config conf = Inr conf'"
  shows "conf' = conf" "100 \<le> cc_max_allowed_nodes_percentage (connection conf)"
    "case cc_max_allowed_nodes (connection conf) of
       Some m \<Rightarrow> cc_desired_nodes (connection conf) \<le> m | None \<Rightarrow> True"
    "cc_desired_nodes (connection conf) \<le> cc_hard_connection_limit (connection conf)"
    "0 \<le> cc_relay_broadcast_percentage (connection conf)"
    "cc_relay_broadcast_percentage (connection conf) \<le> 1"
    "65535 \<le> cc_socket_read_size (connection conf)"
    "cc_socket_write_size (connection conf) \<le> cc_socket_read_size (connection conf)"
    "unat (bs_wait_until_minimum_nodes (bootstrapper conf)) \<le> bs_peer_list_size (bootstrapper conf)"
    "cc_housekeeping_interval (connection conf) * KEEP_ALIVE_FACTOR
       \<le> cc_max_normal_keep_alive (connection conf)"
  using assms unfolding parse_config_def Let_def
  by (auto split: if_splits option.splits)

lemma node_config_of_Inr:
  assumes "node_config_of conf pt = Inr nc"
  shows "nc_desired_nodes_count nc = cc_desired_nodes (connection conf)"
    "nc_max_allowed_nodes nc = max_allowed_nodes_of (connection conf)"
    "nc_hard_connection_limit nc = cc_hard_connection_limit (connection conf)"
    "nc_socket_read_size nc = cc_socket_read_size (connection conf)"
    "nc_socket_write_size nc = cc_socket_write_size (connection conf)"
  using assms by (auto simp: node_config_of_def Let_def split: list.splits)

section \<open>Properties\<close>

text \<open>The configuration that the command line options default to, on network 1000.\<close>

definition default_baker :: baker_config where
  "default_baker =
     \<lparr>bk_gc_logging = None, bk_rts_flags = [], bk_maximum_block_size = 4194304,
      bk_block_construction_timeout = 3000, bk_transaction_insertions_before_purge = 1000,
      bk_transaction_keep_alive = 600, bk_transactions_purging_delay = 300,
      bk_import_blocks_from = None, bk_download_blocks_from = None, bk_download_blocks_timeout = 300,
      bk_genesis_data_file = ''genesis.dat'', bk_account_cache_size = 10000,
      bk_baker_credentials_file = None, bk_validator_credentials_file = None,
      bk_decrypt_baker_credentials = False, bk_decrypt_validator_credentials = False,
      bk_modules_cache_size = 1000\<rparr>"

definition default_grpc2 :: grpc2_config where
  "default_grpc2 =
     \<lparr>g2_listen_addr = None, g2_listen_port = None, g2_x509_cert = None, g2_cert_private_key = None,
      g2_enable_grpc_web = False, g2_endpoint_config = None, g2_invoke_max_energy = 1000000,
      g2_dry_run_timeout = 30, g2_dry_run_concurrency = None, g2_health_max_finalized_delay = 300,
      g2_health_min_peers = None, g2_max_connections = 500, g2_tcp_keepalive = None,
      g2_max_concurrent_requests_per_connection = 10, g2_max_concurrent_streams = 200,
      g2_max_concurrent_requests = 100, g2_max_threads = None, g2_request_timeout = 30,
      g2_keepalive_interval = None, g2_keepalive_timeout = 20\<rparr>"

definition default_config :: config where
  "default_config =
     \<lparr>common = \<lparr>cm_external_port = None, cm_id = None, cm_listen_port = 8888, cm_listen_address = None,
        cm_debug = False, cm_trace = False, cm_info = False, cm_no_consensus_logs = False,
        cm_network_ids = [1000], cm_config_dir = [], cm_data_dir = [], cm_no_log_timestamp = False,
        cm_log_config = None, cm_min_peers_bucket = 100, cm_print_config = False,
        cm_bucket_cleanup_interval = 600000\<rparr>,
      prometheus = \<lparr>prometheus_listen_addr = V4 2130706433, prometheus_listen_port = None,
        prometheus_push_gateway = None, prometheus_job_name = ''concordium_node_push'',
        prometheus_instance_name = None, prometheus_push_username = None,
        prometheus_push_password = None, prometheus_push_interval = 2,
        prometheus_metric_grpc_response_time_buckets =
          map f64_round [50 / 1000, 100 / 1000, 200 / 1000, 500 / 1000, 1]\<rparr>,
      connection = \<lparr>cc_desired_nodes = 7, cc_max_allowed_nodes = None,
        cc_max_allowed_nodes_percentage = 150, cc_no_bootstrap_dns = False, cc_clear_bans = False,
        cc_relay_broadcast_percentage = 1, cc_connect_to = [], cc_disallow_multiple_peers_on_ip = False,
        cc_dns_resolver = [],
        cc_bootstrap_nodes = [], cc_housekeeping_interval = 30, cc_bootstrapping_interval = 7200,
        cc_max_latency = None, cc_hard_connection_limit = 50, cc_conn_requests_batch_limit = 9,
        cc_catch_up_batch_limit = 50, cc_thread_pool_size = 4, cc_dedup_size_long = 65536,
        cc_dedup_size_short = 4096, cc_socket_write_size = 16384, cc_socket_read_size = 131072,
        cc_socket_so_linger = None, cc_events_queue_size = 10,
        cc_deduplication_hashing_algorithm = XxHash64, cc_max_normal_keep_alive = 120,
        cc_clear_persisted_peers = False\<rparr>,
      cli = \<lparr>cl_no_network = False, cl_poll_interval = 100, cl_baker = default_baker,
        cl_grpc2 = default_grpc2, cl_timeout_bucket_entry_period = 0,
        cl_drop_rebroadcast_probability = None\<rparr>,
      bootstrapper = \<lparr>bs_max_nodes = 10000, bs_wait_until_minimum_nodes = 0,
        bs_timeout_bucket_entry_period = 7200000, bs_peer_list_size = 10,
        bs_regenesis_block_hashes = None\<rparr>\<rparr>"

definition with_max_block_size :: "u32 \<Rightarrow> config \<Rightarrow> config" where
  "with_max_block_size n c =
     c\<lparr>cli := (cli c)\<lparr>cl_baker := (cl_baker (cli c))\<lparr>bk_maximum_block_size := n\<rparr>\<rparr>\<rparr>"

lemma up_scale_numeral [simp]:
  "up_scale (numeral n) x = (if x \<ge> 1 then 0 else Suc (up_scale (pred_numeral n) (2 * x)))"
  by (simp add: numeral_eq_Suc)

lemma floor_numeral_quotient [simp]:
  "\<lfloor>(numeral a / numeral b :: rat)\<rfloor> = numeral a div numeral b"
  by (metis floor_divide_of_int_eq of_int_numeral)

lemma f64_nine_tenths: "f64_round (9 / 10) = 8106479329266893 / 9007199254740992"
  by (simp add: f64_round_def round_half_even_def Let_def)

lemma bit_length_20971519: "bit_length 20971519 = 25"
  by (simp add: bit_length.simps)

lemma block_size_product: "f64_round (23301688 * f64_round (9 / 10)) = 5629499319464755 / 268435456"
  by (simp add: f64_nine_tenths f64_round_def round_half_even_def Let_def bit_length_20971519)

lemma block_size_value:
  "f64_to_u32 (of_int \<lceil>f64_round (23301688 * f64_round (9 / 10))\<rceil>) = PROTOCOL_MAX_MESSAGE_SIZE"
proof -
  have "\<lceil>(5629499319464755 / 268435456 :: rat)\<rceil> = 20971520" by (rule ceiling_unique) simp_all
  then show ?thesis
    by (simp add: block_size_product f64_to_u32_def PROTOCOL_MAX_MESSAGE_SIZE_def)
qed

text \<open>The default configuration passes the checks.\<close>

lemma default_config_accepted: "parse_config default_config = Inr default_config"
proof -
  have size: "f64_to_u32 (of_int \<lceil>f64_round (4194304 * f64_round (9 / 10))\<rceil>) = 3774874"
  proof -
    have bl: "bit_length 3774873 = 22" by (simp add: bit_length.simps)
    have eq: "f64_round (4194304 * f64_round (9 / 10)) = 8106479329266893 / 2147483648"
      by (simp add: f64_nine_tenths f64_round_def round_half_even_def Let_def bl)
    have "\<lceil>(8106479329266893 / 2147483648 :: rat)\<rceil> = 3774874" by (rule ceiling_unique) simp_all
    then show ?thesis by (simp only: eq) (simp add: f64_to_u32_def)
  qed
  show ?thesis
    by (simp add: parse_config_def default_config_def default_baker_def Let_def size PROTOCOL_MAX_MESSAGE_SIZE_def
        KEEP_ALIVE_FACTOR_def)
qed

text \<open>(C15) A configuration that passes the checks of \<open>parse_config\<close> makes a node whose
  limits are consistent: neither the limit on the number of peers (also when it is computed as a
  percentage in floating point) nor the hard limit on connections is below the desired number of
  peers, a write to a socket fits the buffer that the connection uses for it, that buffer holds a
  noise message, and a bootstrapper can reach the number of peers it waits for.\<close>

theorem accepted_config_is_consistent:
  assumes "parse_config conf = Inr conf'" "node_config_of conf' pt = Inr nc"
  shows "nc_desired_nodes_count nc \<le> nc_max_allowed_nodes nc \<and>
    nc_desired_nodes_count nc \<le> nc_hard_connection_limit nc \<and>
    nc_socket_write_size nc \<le> nc_socket_read_size nc \<and> 65535 \<le> nc_socket_read_size nc \<and>
    0 \<le> nc_relay_broadcast_percentage nc \<and> nc_relay_broadcast_percentage nc \<le> 1 \<and>
    unat (nc_bootstrapper_wait_minimum_peers nc) \<le> nc_bootstrapper_peer_list_size nc"
proof -
  note acc = parse_config_InrD [OF assms(1)] and nc = node_config_of_Inr [OF assms(2)]
  have "nc_relay_broadcast_percentage nc = cc_relay_broadcast_percentage (connection conf')"
    "nc_bootstrapper_wait_minimum_peers nc \<le> bs_wait_until_minimum_nodes (bootstrapper conf')"
    "nc_bootstrapper_peer_list_size nc = bs_peer_list_size (bootstrapper conf')"
    using assms(2) by (auto simp: node_config_of_def Let_def split: list.splits peer_type.splits)
  with acc nc max_allowed_ge_desired [OF acc(2,3)] show ?thesis
    by (auto simp: word_le_nat_alt)
qed

theorem accepted_config_is_consistent_witness:
  "\<exists>nc. parse_config default_config = Inr default_config \<and>
     node_config_of default_config Node = Inr nc \<and> nc_desired_nodes_count nc = 7 \<and>
     7 \<le> nc_max_allowed_nodes nc"
proof -
  obtain nc where nc: "node_config_of default_config Node = Inr nc"
    by (simp add: node_config_of_def default_config_def Let_def)
  have "nc_desired_nodes_count nc = 7"
    using node_config_of_Inr(1) [OF nc] by (simp add: default_config_def)
  with accepted_config_is_consistent [OF default_config_accepted nc] default_config_accepted nc show ?thesis by auto
qed


end
