(* ===== verification/Low_Level.thy ===== *)
theory Low_Level
  imports Config
begin

text \<open>
  The transport of a connection, \<open>connection/low_level.rs\<close>: framing, the socket buffer,
  encryption in chunks and the noise handshake messages.

  \<^item> The noise session is outside the repository: its operations are the parameter
    \<open>noise_ops\<close> on an abstract state; \<open>send_message\<close> and \<open>recv_message\<close> work in
    place on a byte string.  The scratch array \<open>noise_buffer\<close> has no counterpart, since every
    use first overwrites the part it then reads.
  \<^item> A socket is the list of what the next reads return, the list of what the next writes
    accept, and the bytes sent so far; a run of the code against the operating system is a run
    against one such pair of lists.  An exhausted list blocks.
  \<^item> Indexing a slice out of range panics, so it returns a result here.
\<close>

section \<open>Model\<close>

definition PAYLOAD_SIZE :: nat where
  "PAYLOAD_SIZE = 4"

definition NOISE_MAX_MESSAGE_LEN :: nat where
  "NOISE_MAX_MESSAGE_LEN = 64 * 1024 - 1"

definition NOISE_AUTH_TAG_LEN :: nat where
  "NOISE_AUTH_TAG_LEN = 16"

definition NOISE_MAX_PAYLOAD_LEN :: nat where
  "NOISE_MAX_PAYLOAD_LEN = NOISE_MAX_MESSAGE_LEN - NOISE_AUTH_TAG_LEN"

definition HANDSHAKE_SIZE_LIMIT :: nat where
  "HANDSHAKE_SIZE_LIMIT = 1024"

definition ascii_bytes :: "string \<Rightarrow> bytes" where
  "ascii_bytes s = map (\<lambda>c. word_of_nat (of_char c)) s"

definition PSK :: bytes where
  "PSK = ascii_bytes ''b6461bd246843f70ac1328401405b2b4e725994d7d144a75bff1a04a247d64b7''"

record incoming_message =
  size_bytes :: bytes
  pending_bytes :: nat
  in_message :: bytes

definition incoming_message_default :: incoming_message where
  "incoming_message_default = \<lparr>size_bytes = [], pending_bytes = 0, in_message = []\<rparr>"

record socket_buffer =
  sb_buf :: bytes
  sb_offset :: nat
  sb_remaining :: nat

definition socket_buffer_new :: "nat \<Rightarrow> socket_buffer" where
  "socket_buffer_new socket_read_size =
     \<lparr>sb_buf = replicate socket_read_size 0, sb_offset = 0, sb_remaining = 0\<rparr>"

definition is_exhausted :: "socket_buffer \<Rightarrow> bool" where
  "is_exhausted sb \<longleftrightarrow> sb_offset sb = length (sb_buf sb)"

definition sb_slice :: "nat \<Rightarrow> socket_buffer \<Rightarrow> bytes result" where
  "sb_slice len sb =
     (if sb_offset sb + len \<le> length (sb_buf sb) then Inr (take len (drop (sb_offset sb) (sb_buf sb)))
      else Inl (Panic ''slice out of range''))"

text \<open>Writing through \<open>slice_mut(len)\<close>.\<close>

definition sb_write :: "bytes \<Rightarrow> socket_buffer \<Rightarrow> socket_buffer" where
  "sb_write bs sb =
     sb\<lparr>sb_buf := take (sb_offset sb) (sb_buf sb) @ bs @ drop (sb_offset sb + length bs) (sb_buf sb)\<rparr>"

definition sb_shift :: "nat \<Rightarrow> socket_buffer \<Rightarrow> socket_buffer" where
  "sb_shift offset sb =
     (let sb' = sb\<lparr>sb_offset := sb_offset sb + offset, sb_remaining := sb_remaining sb - offset\<rparr> in
      if sb_remaining sb' = 0 then sb'\<lparr>sb_offset := 0\<rparr> else sb')"

definition sb_reset :: "socket_buffer \<Rightarrow> socket_buffer" where
  "sb_reset sb = sb\<lparr>sb_offset := 0, sb_remaining := 0\<rparr>"

datatype read_result = Complete bytes | Incomplete | WouldBlock | Closed

text \<open>The socket.\<close>

datatype read_event = Data bytes | Read_blocked | Read_failed string

datatype write_event = Accept nat | Write_blocked | Write_failed string

record socket =
  sock_in :: "read_event list"
  sock_script :: "write_event list"
  sock_sent :: bytes
  sock_option_error :: "string option"

text \<open>\<open>set_nodelay\<close> on the socket.\<close>

definition sock_set_nodelay :: "socket \<Rightarrow> unit result" where
  "sock_set_nodelay s = (case sock_option_error s of None \<Rightarrow> Inr () | Some e \<Rightarrow> Inl (Io_error e))"

datatype 'a io = Io_ok 'a | Io_would_block | Io_err string

definition sock_read :: "nat \<Rightarrow> socket \<Rightarrow> bytes io \<times> socket" where
  "sock_read len s = (case sock_in s of
     [] \<Rightarrow> (Io_would_block, s)
   | Read_blocked # es \<Rightarrow> (Io_would_block, s\<lparr>sock_in := es\<rparr>)
   | Read_failed e # es \<Rightarrow> (Io_err e, s\<lparr>sock_in := es\<rparr>)
   | Data bs # es \<Rightarrow>
       (Io_ok (take len bs), s\<lparr>sock_in := (if length bs \<le> len then es else Data (drop len bs) # es)\<rparr>))"

definition sock_write :: "bytes \<Rightarrow> socket \<Rightarrow> nat io \<times> socket" where
  "sock_write bs s = (case sock_script s of
     [] \<Rightarrow> (Io_would_block, s)
   | Write_blocked # es \<Rightarrow> (Io_would_block, s\<lparr>sock_script := es\<rparr>)
   | Write_failed e # es \<Rightarrow> (Io_err e, s\<lparr>sock_script := es\<rparr>)
   | Accept n # es \<Rightarrow>
       (Io_ok (min n (length bs)), s\<lparr>sock_script := es, sock_sent := sock_sent s @ take n bs\<rparr>))"

record 'ns noise_ops =
  ns_DHLEN :: nat
  ns_MAC_LENGTH :: nat
  ns_init_session :: "bool \<Rightarrow> 'ns"
  ns_is_initiator :: "'ns \<Rightarrow> bool"
  ns_get_message_count :: "'ns \<Rightarrow> nat"
  ns_send_message :: "bytes \<Rightarrow> 'ns \<Rightarrow> bytes result \<times> 'ns"
  ns_recv_message :: "bytes \<Rightarrow> 'ns \<Rightarrow> bytes result \<times> 'ns"

record 'ns low_level =
  ll_socket :: socket
  noise_session :: 'ns
  socket_buffer :: socket_buffer
  incoming_msg :: incoming_message
  output_queue :: bytes
  write_size :: nat
  is_writable :: bool
  is_initialized :: bool
  so_linger :: "u16 option"

definition low_level_new ::
    "'ns noise_ops \<Rightarrow> u16 option \<Rightarrow> socket \<Rightarrow> bool \<Rightarrow> nat \<Rightarrow> nat \<Rightarrow> 'ns low_level" where
  "low_level_new ops socket_so_linger sock is_initiator read_size wsize =
     \<lparr>ll_socket = sock,
      noise_session = ns_init_session ops is_initiator,
      socket_buffer = socket_buffer_new read_size,
      incoming_msg = incoming_message_default,
      output_queue = [],
      write_size = wsize,
      is_writable = False,
      is_initialized = False,
      so_linger = (if is_initiator then socket_so_linger else None)\<rparr>"

text \<open>Here an error of setting the socket options is logged and ignored.\<close>

definition ll_initialize :: "'ns low_level \<Rightarrow> 'ns low_level" where
  "ll_initialize ll = ll\<lparr>is_initialized := True\<rparr>"

definition notify_writable :: "'ns low_level \<Rightarrow> 'ns low_level" where
  "notify_writable ll =
     (let ll' = (if \<not> is_initialized ll then ll_initialize ll else ll) in ll'\<lparr>is_writable := True\<rparr>)"

definition ll_is_post_handshake :: "'ns noise_ops \<Rightarrow> 'ns low_level \<Rightarrow> bool" where
  "ll_is_post_handshake ops ll =
     (if ns_is_initiator ops (noise_session ll)
      then ns_get_message_count ops (noise_session ll) > 1
      else ns_get_message_count ops (noise_session ll) > 2)"

subsection \<open>Output\<close>

definition flush_socket_once :: "'ns noise_ops \<Rightarrow> 'ns low_level \<Rightarrow> nat result \<times> 'ns low_level" where
  "flush_socket_once ops ll =
     (let wsize = (if \<not> ll_is_post_handshake ops ll then min 4096 (length (output_queue ll))
                   else min (write_size ll) (length (output_queue ll)));
          sb = socket_buffer ll in
      if length (sb_buf sb) < wsize then (Inl (Panic ''range end out of range''), ll)
      else
        (let out = take wsize (output_queue ll);
             ll1 = ll\<lparr>socket_buffer := sb\<lparr>sb_buf := out @ drop wsize (sb_buf sb)\<rparr>\<rparr>;
             (r, sock) = sock_write out (ll_socket ll1);
             ll2 = ll1\<lparr>ll_socket := sock\<rparr> in
         case r of
           Io_ok written \<Rightarrow> (Inr written, ll2\<lparr>output_queue := drop written (output_queue ll2)\<rparr>)
         | Io_would_block \<Rightarrow> (Inr 0, ll2\<lparr>is_writable := False\<rparr>)
         | Io_err e \<Rightarrow> (Inl (Io_error e), ll2)))"

lemma flush_once_shrinks:
  assumes "flush_socket_once ops ll = (Inr n, ll')" "n \<noteq> 0"
  shows "length (output_queue ll') < length (output_queue ll)"
  using assms
  by (auto simp: flush_socket_once_def sock_write_def Let_def
      split: if_splits io.splits prod.splits list.splits write_event.splits)

function flush_loop :: "'ns noise_ops \<Rightarrow> 'ns low_level \<Rightarrow> unit result \<times> 'ns low_level" where
  "flush_loop ops ll =
     (if output_queue ll = [] then (Inr (), ll)
      else (case flush_socket_once ops ll of
              (Inl e, ll') \<Rightarrow> (Inl e, ll')
            | (Inr n, ll') \<Rightarrow> if n = 0 then (Inr (), ll') else flush_loop ops ll'))"
  by pat_completeness auto

termination
  by (relation "measure (\<lambda>(ops, ll). length (output_queue ll))") (auto dest!: sym [of "(Inr _, _)"] dest: flush_once_shrinks)

declare flush_loop.simps [simp del]

definition flush_socket :: "'ns noise_ops \<Rightarrow> 'ns low_level \<Rightarrow> unit result \<times> 'ns low_level" where
  "flush_socket ops ll = (if is_writable ll then flush_loop ops ll else (Inr (), ll))"

text \<open>One chunk: the payload and room for the authentication tag, encrypted in place.\<close>

definition encrypt_chunk :: "'ns noise_ops \<Rightarrow> bytes \<Rightarrow> 'ns low_level \<Rightarrow> unit result \<times> 'ns low_level" where
  "encrypt_chunk ops chunk ll =
     (case ns_send_message ops (chunk @ replicate (ns_MAC_LENGTH ops) 0) (noise_session ll) of
        (Inl e, ns) \<Rightarrow> (Inl e, ll\<lparr>noise_session := ns\<rparr>)
      | (Inr c, ns) \<Rightarrow> (Inr (), ll\<lparr>noise_session := ns, output_queue := output_queue ll @ c\<rparr>))"

function encrypt_loop :: "'ns noise_ops \<Rightarrow> bytes \<Rightarrow> 'ns low_level \<Rightarrow> unit result \<times> 'ns low_level" where
  "encrypt_loop ops input ll =
     (if input = [] then (Inr (), ll)
      else (case encrypt_chunk ops (take NOISE_MAX_PAYLOAD_LEN input) ll of
              (Inl e, ll1) \<Rightarrow> (Inl e, ll1)
            | (Inr _, ll1) \<Rightarrow>
                if length (output_queue ll1) \<ge> write_size ll1
                then (case flush_socket_once ops ll1 of
                        (Inl e, ll2) \<Rightarrow> (Inl e, ll2)
                      | (Inr _, ll2) \<Rightarrow> encrypt_loop ops (drop NOISE_MAX_PAYLOAD_LEN input) ll2)
                else encrypt_loop ops (drop NOISE_MAX_PAYLOAD_LEN input) ll1))"
  by pat_completeness auto

termination
  by (relation "measure (\<lambda>(ops, input, ll). length input)")
    (auto simp: NOISE_MAX_PAYLOAD_LEN_def NOISE_MAX_MESSAGE_LEN_def NOISE_AUTH_TAG_LEN_def)

declare encrypt_loop.simps [simp del]

definition encrypted_len :: "'ns noise_ops \<Rightarrow> nat \<Rightarrow> nat" where
  "encrypted_len ops len =
     (let num_full_chunks = len div NOISE_MAX_PAYLOAD_LEN;
          last_chunk_len = (let r = len mod NOISE_MAX_PAYLOAD_LEN in
                            if r \<noteq> 0 then r + ns_MAC_LENGTH ops else 0) in
      num_full_chunks * NOISE_MAX_MESSAGE_LEN + last_chunk_len)"

definition encrypt_and_enqueue :: "'ns noise_ops \<Rightarrow> bytes \<Rightarrow> 'ns low_level \<Rightarrow> unit result \<times> 'ns low_level" where
  "encrypt_and_enqueue ops input ll =
     encrypt_loop ops input
       (ll\<lparr>output_queue := output_queue ll @
            u32_to_be_bytes (word_of_nat (encrypted_len ops (length input)))\<rparr>)"

definition write_to_socket :: "'ns noise_ops \<Rightarrow> bytes \<Rightarrow> 'ns low_level \<Rightarrow> unit result \<times> 'ns low_level" where
  "write_to_socket ops input ll = encrypt_and_enqueue ops input ll"

subsection \<open>The noise handshake\<close>

text \<open>The macro \<open>send_xx_msg!\<close>: a length, room for the prefix, the payload, room for the
  suffix.\<close>

definition send_xx_msg ::
    "'ns noise_ops \<Rightarrow> nat \<Rightarrow> bytes \<Rightarrow> nat \<Rightarrow> 'ns low_level \<Rightarrow> unit result \<times> 'ns low_level" where
  "send_xx_msg ops prefix_len pl suffix_len ll =
     (let len = u32_to_be_bytes (word_of_nat (prefix_len + length pl + suffix_len)) in
      case ns_send_message ops (replicate prefix_len 0 @ pl @ replicate suffix_len 0) (noise_session ll) of
        (Inl e, ns) \<Rightarrow> (Inl e, ll\<lparr>noise_session := ns\<rparr>)
      | (Inr msg, ns) \<Rightarrow>
          flush_socket ops (ll\<lparr>noise_session := ns, output_queue := output_queue ll @ len @ msg\<rparr>))"

text \<open>The macro \<open>recv_xx_msg!\<close>: receive in place in the socket buffer.\<close>

definition recv_xx_msg :: "'ns noise_ops \<Rightarrow> nat \<Rightarrow> 'ns low_level \<Rightarrow> unit result \<times> 'ns low_level" where
  "recv_xx_msg ops len ll =
     (case sb_slice len (socket_buffer ll) of
        Inl e \<Rightarrow> (Inl e, ll)
      | Inr msg \<Rightarrow>
          (case ns_recv_message ops msg (noise_session ll) of
             (Inl e, ns) \<Rightarrow> (Inl e, ll\<lparr>noise_session := ns\<rparr>)
           | (Inr msg', ns) \<Rightarrow>
               (Inr (), ll\<lparr>noise_session := ns, socket_buffer := sb_write msg' (socket_buffer ll)\<rparr>)))"

text \<open>\<open>slice(len)[skip..][..len - drop_len]\<close>\<close>

definition sb_payload :: "nat \<Rightarrow> nat \<Rightarrow> nat \<Rightarrow> socket_buffer \<Rightarrow> bytes result" where
  "sb_payload len skip drop_len sb =
     (case sb_slice len sb of
        Inl e \<Rightarrow> Inl e
      | Inr bs \<Rightarrow>
          if len < skip \<or> len < drop_len \<or> len - skip < len - drop_len
          then Inl (Panic ''range end out of range'')
          else Inr (take (len - drop_len) (drop skip bs)))"

definition send_handshake_message_a :: "'ns noise_ops \<Rightarrow> 'ns low_level \<Rightarrow> unit result \<times> 'ns low_level" where
  "send_handshake_message_a ops ll = send_xx_msg ops (ns_DHLEN ops) PSK 16 ll"

text \<open>\<open>request\<close> is the result of \<open>produce_handshake_request\<close> on the node.\<close>

definition process_msg_a ::
    "'ns noise_ops \<Rightarrow> bytes result \<Rightarrow> nat \<Rightarrow> 'ns low_level \<Rightarrow> bytes result \<times> 'ns low_level" where
  "process_msg_a ops request len ll =
     (case recv_xx_msg ops len ll of
        (Inl e, ll1) \<Rightarrow> (Inl e, ll1)
      | (Inr _, ll1) \<Rightarrow>
          (case sb_payload len (ns_DHLEN ops) (ns_DHLEN ops + 16) (socket_buffer ll1) of
             Inl e \<Rightarrow> (Inl e, ll1)
           | Inr payload_in \<Rightarrow>
               (case request of
                  Inl e \<Rightarrow> (Inl e, ll1)
                | Inr payload_out \<Rightarrow>
                    (case send_xx_msg ops (ns_DHLEN ops * 2 + ns_MAC_LENGTH ops) payload_out
                            (ns_MAC_LENGTH ops) ll1 of
                       (Inl e, ll2) \<Rightarrow> (Inl e, ll2)
                     | (Inr _, ll2) \<Rightarrow> (Inr payload_in, ll2)))))"

definition process_msg_b ::
    "'ns noise_ops \<Rightarrow> bytes result \<Rightarrow> nat \<Rightarrow> 'ns low_level \<Rightarrow> bytes result \<times> 'ns low_level" where
  "process_msg_b ops request len ll =
     (case recv_xx_msg ops len ll of
        (Inl e, ll1) \<Rightarrow> (Inl e, ll1)
      | (Inr _, ll1) \<Rightarrow>
          (case sb_payload len (ns_DHLEN ops * 2 + ns_MAC_LENGTH ops)
                  (ns_DHLEN ops * 2 + ns_MAC_LENGTH ops * 2) (socket_buffer ll1) of
             Inl e \<Rightarrow> (Inl e, ll1)
           | Inr payload_in \<Rightarrow>
               (case request of
                  Inl e \<Rightarrow> (Inl e, ll1)
                | Inr payload_out \<Rightarrow>
                    (case send_xx_msg ops (ns_DHLEN ops + ns_MAC_LENGTH ops) payload_out
                            (ns_MAC_LENGTH ops) ll1 of
                       (Inl e, ll2) \<Rightarrow> (Inl e, ll2)
                     | (Inr _, ll2) \<Rightarrow>
                         (case sock_set_nodelay (ll_socket ll2) of
                            Inl e \<Rightarrow> (Inl e, ll2)
                          | Inr _ \<Rightarrow> (Inr payload_in, ll2))))))"

definition process_msg_c :: "'ns noise_ops \<Rightarrow> nat \<Rightarrow> 'ns low_level \<Rightarrow> bytes result \<times> 'ns low_level" where
  "process_msg_c ops len ll =
     (case recv_xx_msg ops len ll of
        (Inl e, ll1) \<Rightarrow> (Inl e, ll1)
      | (Inr _, ll1) \<Rightarrow>
          (case sb_payload len (ns_DHLEN ops + ns_MAC_LENGTH ops)
                  (ns_DHLEN ops + ns_MAC_LENGTH ops * 2) (socket_buffer ll1) of
             Inl e \<Rightarrow> (Inl e, ll1)
           | Inr pl \<Rightarrow>
               (case sock_set_nodelay (ll_socket ll1) of
                  Inl e \<Rightarrow> (Inl e, ll1)
                | Inr _ \<Rightarrow> (Inr pl, ll1))))"

subsection \<open>Input\<close>

text \<open>Writing to a \<open>Cursor<Vec<u8>>\<close> at a position inside the vector.\<close>

definition cursor_write :: "nat \<Rightarrow> bytes \<Rightarrow> bytes \<Rightarrow> bytes" where
  "cursor_write pos bs buf = take pos buf @ bs @ drop (pos + length bs) buf"

definition decrypt_chunk ::
    "'ns noise_ops \<Rightarrow> nat \<Rightarrow> bytes \<times> 'ns \<Rightarrow> unit result \<times> bytes \<times> 'ns" where
  "decrypt_chunk ops offset_mul = (\<lambda>(msg, ns).
     (let pos = offset_mul * NOISE_MAX_MESSAGE_LEN;
          read_size = min NOISE_MAX_MESSAGE_LEN (length msg - pos) in
      case ns_recv_message ops (take read_size (drop pos msg)) ns of
        (Inl e, ns') \<Rightarrow> (Inl e, msg, ns')
      | (Inr plain, ns') \<Rightarrow>
          if read_size < ns_MAC_LENGTH ops then (Inl (Panic ''range end out of range''), msg, ns')
          else (Inr (), cursor_write (offset_mul * NOISE_MAX_PAYLOAD_LEN)
                          (take (read_size - ns_MAC_LENGTH ops) plain) msg, ns')))"

fun decrypt_chunks ::
    "'ns noise_ops \<Rightarrow> nat list \<Rightarrow> bytes \<times> 'ns \<Rightarrow> unit result \<times> bytes \<times> 'ns" where
  "decrypt_chunks ops [] s = (Inr (), s)"
| "decrypt_chunks ops (i # is) s = (case decrypt_chunk ops i s of
     (Inl e, s') \<Rightarrow> (Inl e, s')
   | (Inr _, s') \<Rightarrow> decrypt_chunks ops is s')"

definition decrypt_bytes :: "'ns noise_ops \<Rightarrow> bytes \<Rightarrow> 'ns \<Rightarrow> bytes result \<times> 'ns" where
  "decrypt_bytes ops msg ns =
     (let len = length msg;
          num_full_chunks = len div NOISE_MAX_MESSAGE_LEN;
          last_chunk_size = len mod NOISE_MAX_MESSAGE_LEN;
          num_all_chunks = num_full_chunks + (if last_chunk_size > 0 then 1 else 0) in
      case decrypt_chunks ops [0..<num_all_chunks] (msg, ns) of
        (Inl e, msg', ns') \<Rightarrow> (Inl e, ns')
      | (Inr _, msg', ns') \<Rightarrow> (Inr (take (len - num_all_chunks * ns_MAC_LENGTH ops) msg'), ns'))"

definition decrypt :: "'ns noise_ops \<Rightarrow> 'ns low_level \<Rightarrow> bytes result \<times> 'ns low_level" where
  "decrypt ops ll =
     (let (r, ns) = decrypt_bytes ops (in_message (incoming_msg ll)) (noise_session ll) in
      (r, ll\<lparr>incoming_msg := (incoming_msg ll)\<lparr>in_message := []\<rparr>, noise_session := ns\<rparr>))"

definition attempt_to_read_length :: "'ns noise_ops \<Rightarrow> 'ns low_level \<Rightarrow> unit result \<times> 'ns low_level" where
  "attempt_to_read_length ops ll =
     (let read_size = min (sb_remaining (socket_buffer ll))
                        (PAYLOAD_SIZE - length (size_bytes (incoming_msg ll))) in
      case sb_slice read_size (socket_buffer ll) of
        Inl e \<Rightarrow> (Inl e, ll)
      | Inr bs \<Rightarrow>
          (let im = (incoming_msg ll)\<lparr>size_bytes := size_bytes (incoming_msg ll) @ bs\<rparr>;
               ll1 = ll\<lparr>incoming_msg := im, socket_buffer := sb_shift read_size (socket_buffer ll)\<rparr> in
           if length (size_bytes im) = PAYLOAD_SIZE then
             (case u32_from_be_bytes (size_bytes im) of
                None \<Rightarrow> (Inl (Bail ''could not convert slice to array''), ll1)
              | Some expected_size \<Rightarrow>
                  (let ll2 = ll1\<lparr>incoming_msg := im\<lparr>size_bytes := []\<rparr>\<rparr> in
                   if expected_size = 0 then (Inl (Bail ''I got a zero-sized message''), ll2)
                   else if \<not> ll_is_post_handshake ops ll2 \<and>
                      expected_size \<ge> word_of_nat HANDSHAKE_SIZE_LIMIT
                   then (Inl (Bail ''expected message size exceeds the handshake size limit''), ll2)
                   else if expected_size > PROTOCOL_MAX_MESSAGE_SIZE
                   then (Inl (Bail ''expected message size exceeds the maximum protocol size''), ll2)
                   else (Inr (), ll2\<lparr>incoming_msg :=
                          \<lparr>size_bytes = [], pending_bytes = unat expected_size, in_message = []\<rparr>\<rparr>)))
           else (Inr (), ll1)))"

definition process_incoming_msg ::
    "'ns noise_ops \<Rightarrow> bytes result \<Rightarrow> 'ns low_level \<Rightarrow> read_result result \<times> 'ns low_level" where
  "process_incoming_msg ops request ll =
     (let to_read = min (pending_bytes (incoming_msg ll)) (sb_remaining (socket_buffer ll)) in
      case sb_slice to_read (socket_buffer ll) of
        Inl e \<Rightarrow> (Inl e, ll)
      | Inr bs \<Rightarrow>
          (let im = (incoming_msg ll)\<lparr>in_message := in_message (incoming_msg ll) @ bs,
                      pending_bytes := pending_bytes (incoming_msg ll) - to_read\<rparr>;
               ll1 = ll\<lparr>incoming_msg := im\<rparr>;
               ll2 = (if ll_is_post_handshake ops ll1
                      then ll1\<lparr>socket_buffer := sb_shift to_read (socket_buffer ll1)\<rparr> else ll1) in
           if pending_bytes im \<noteq> 0 then (Inr Incomplete, ll2)
           else if \<not> ll_is_post_handshake ops ll2 then
             (let count = ns_get_message_count ops (noise_session ll2);
                  initiator = ns_is_initiator ops (noise_session ll2) in
              case (if count = 0 \<and> \<not> initiator then process_msg_a ops request to_read ll2
                    else if count = 1 \<and> initiator then process_msg_b ops request to_read ll2
                    else if count = 2 \<and> \<not> initiator then process_msg_c ops to_read ll2
                    else (Inl (Bail ''invalid XX handshake''), ll2)) of
                (Inl e, ll3) \<Rightarrow> (Inl e, ll3)
              | (Inr pl, ll3) \<Rightarrow>
                  (let count' = ns_get_message_count ops (noise_session ll3) in
                   if \<not> ns_is_initiator ops (noise_session ll3) \<and> count' = 1 \<and> pl \<noteq> PSK
                   then (Inl (Bail ''Invalid PSK''), ll3)
                   else if \<not> ns_is_initiator ops (noise_session ll3) \<and> count' = 2
                   then (Inr Incomplete, ll3\<lparr>socket_buffer := sb_reset (socket_buffer ll3)\<rparr>)
                   else (Inr (Complete pl),
                         ll3\<lparr>socket_buffer := sb_shift to_read (socket_buffer ll3)\<rparr>)))
           else
             (case decrypt ops ll2 of
                (Inl e, ll3) \<Rightarrow> (Inl e, ll3)
              | (Inr m, ll3) \<Rightarrow> (Inr (Complete m), ll3))))"

text \<open>The second half of \<open>read_from_socket\<close>, once there are bytes in the buffer.\<close>

definition read_buffered ::
    "'ns noise_ops \<Rightarrow> bytes result \<Rightarrow> 'ns low_level \<Rightarrow> read_result result \<times> 'ns low_level" where
  "read_buffered ops request ll =
     (case (if pending_bytes (incoming_msg ll) = 0 then attempt_to_read_length ops ll else (Inr (), ll)) of
        (Inl e, ll1) \<Rightarrow> (Inl e, ll1)
      | (Inr _, ll1) \<Rightarrow>
          if pending_bytes (incoming_msg ll1) \<noteq> 0 then process_incoming_msg ops request ll1
          else (Inr Incomplete, ll1))"

definition read_from_socket ::
    "'ns noise_ops \<Rightarrow> bytes result \<Rightarrow> 'ns low_level \<Rightarrow> read_result result \<times> 'ns low_level" where
  "read_from_socket ops request ll =
     (let ll0 = (if is_exhausted (socket_buffer ll)
                 then ll\<lparr>socket_buffer := sb_reset (socket_buffer ll)\<rparr> else ll) in
      if sb_remaining (socket_buffer ll0) = 0 then
        (let len = length (sb_buf (socket_buffer ll0)) - sb_offset (socket_buffer ll0);
             (r, sock) = sock_read len (ll_socket ll0);
             ll1 = ll0\<lparr>ll_socket := sock\<rparr> in
         case r of
           Io_ok [] \<Rightarrow> (Inr Closed, ll1)
         | Io_ok bs \<Rightarrow>
             read_buffered ops request
               (ll1\<lparr>socket_buffer := (sb_write bs (socket_buffer ll1))\<lparr>sb_remaining := length bs\<rparr>\<rparr>)
         | Io_would_block \<Rightarrow> (Inr WouldBlock, ll1)
         | Io_err e \<Rightarrow> (Inl (Io_error e), ll1))
      else read_buffered ops request ll0)"

end
