(* ===== verification/Transport.thy ===== *)
theory Transport
  imports Low_Level
begin

text \<open>
  What the transport of \<open>Low_Level\<close> guarantees.

  \<^item> Decryption in place, chunk by chunk, computes the concatenation of the decrypted chunks
    (\<open>decrypt_bytes_ref\<close>), and encryption puts exactly the length and the encrypted
    chunks into the outgoing byte stream, whatever parts of it are flushed meanwhile
    (\<open>encrypt_and_enqueue_stream\<close>).
  \<^item> Reading from the socket conserves the incoming byte stream under any segmentation
    (\<open>read_from_socket_stream\<close>); the stream of a connection is the part of the current
    frame that was already taken, the rest of the socket buffer, and what the socket will yield.
  \<^item> Together: what one end writes, the other end reads (\<open>transport_delivers\<close>).

  The contract of two noise sessions that completed their handshake is \<open>noise_paired\<close>.
\<close>

section \<open>Chunks\<close>

function chunks :: "nat \<Rightarrow> 'a list \<Rightarrow> 'a list list" where
  "chunks n xs = (if xs = [] \<or> n = 0 then [] else take n xs # chunks n (drop n xs))"
  by pat_completeness auto

termination
  by (relation "measure (\<lambda>(n, xs). length xs)") auto

declare chunks.simps [simp del]

lemma chunks_Nil [simp]: "chunks n [] = []"
  by (simp add: chunks.simps)

lemma chunks_step: "xs \<noteq> [] \<Longrightarrow> 0 < n \<Longrightarrow> chunks n xs = take n xs # chunks n (drop n xs)"
  by (subst chunks.simps) simp

lemma chunks_eq_Nil [simp]: "0 < n \<Longrightarrow> chunks n xs = [] \<longleftrightarrow> xs = []"
  by (subst chunks.simps) simp

lemma concat_chunks: "0 < n \<Longrightarrow> concat (chunks n xs) = xs"
  by (induction n xs rule: chunks.induct) (subst chunks.simps, simp)

lemma length_chunks: "0 < n \<Longrightarrow> length (chunks n xs) = length xs div n + (if length xs mod n > 0 then 1 else 0)"
proof (induction n xs rule: chunks.induct)
  case (1 n xs)
  show ?case
  proof (cases "xs = []")
    case False
    with 1 have IH: "length (chunks n (drop n xs)) =
        (length xs - n) div n + (if (length xs - n) mod n > 0 then 1 else 0)"
      by simp
    show ?thesis
    proof (cases "length xs < n")
      case True
      with False 1(2) IH show ?thesis by (simp add: chunks_step)
    next
      case ge: False
      then have "length xs div n = Suc ((length xs - n) div n)"
        and "length xs mod n = (length xs - n) mod n"
        using 1(2) by (simp_all add: le_div_geq le_mod_geq)
      with False 1(2) IH show ?thesis by (simp add: chunks_step)
    qed
  qed simp
qed

text \<open>Chunk lists in which every chunk but the last is full are what \<open>chunks\<close> makes.\<close>

fun full_chunks :: "nat \<Rightarrow> 'a list list \<Rightarrow> bool" where
  "full_chunks n [] \<longleftrightarrow> True"
| "full_chunks n [c] \<longleftrightarrow> c \<noteq> [] \<and> length c \<le> n"
| "full_chunks n (c # cs) \<longleftrightarrow> length c = n \<and> full_chunks n cs"

lemma full_chunks_chunks: "0 < n \<Longrightarrow> full_chunks n (chunks n xs)"
proof (induction n xs rule: chunks.induct)
  case (1 n xs)
  show ?case
  proof (cases "xs = []")
    case False
    with 1 have IH: "full_chunks n (chunks n (drop n xs))" by simp
    show ?thesis
    proof (cases "length xs \<le> n")
      case True
      with False 1(2) show ?thesis by (simp add: chunks_step)
    next
      case gt: False
      then have "chunks n (drop n xs) = take n (drop n xs) # chunks n (drop n (drop n xs))"
        using 1(2) by (intro chunks_step) simp_all
      with IH False gt 1(2) show ?thesis by (simp add: chunks_step)
    qed
  qed simp
qed

lemma chunks_concat: "0 < n \<Longrightarrow> full_chunks n cs \<Longrightarrow> chunks n (concat cs) = cs"
proof (induction n cs rule: full_chunks.induct)
  case (2 n c)
  then show ?case by (simp add: chunks_step)
next
  case (3 n c c' cs)
  then have "c \<noteq> []" by auto
  with 3 show ?case by (simp add: chunks_step)
qed simp

section \<open>Reference definitions of the two directions\<close>

fun recv_chunks :: "'ns noise_ops \<Rightarrow> bytes list \<Rightarrow> 'ns \<Rightarrow> bytes result \<times> 'ns" where
  "recv_chunks ops [] ns = (Inr [], ns)"
| "recv_chunks ops (c # cs) ns = (case ns_recv_message ops c ns of
     (Inl e, ns') \<Rightarrow> (Inl e, ns')
   | (Inr p, ns') \<Rightarrow>
       if length c < ns_MAC_LENGTH ops then (Inl (Panic ''range end out of range''), ns')
       else (case recv_chunks ops cs ns' of
               (Inl e, ns'') \<Rightarrow> (Inl e, ns'')
             | (Inr ps, ns'') \<Rightarrow> (Inr (take (length c - ns_MAC_LENGTH ops) p @ ps), ns'')))"

fun send_chunks :: "'ns noise_ops \<Rightarrow> bytes list \<Rightarrow> 'ns \<Rightarrow> bytes list result \<times> 'ns" where
  "send_chunks ops [] ns = (Inr [], ns)"
| "send_chunks ops (m # ms) ns =
     (case ns_send_message ops (m @ replicate (ns_MAC_LENGTH ops) 0) ns of
        (Inl e, ns') \<Rightarrow> (Inl e, ns')
      | (Inr c, ns') \<Rightarrow> (case send_chunks ops ms ns' of
            (Inl e, ns'') \<Rightarrow> (Inl e, ns'')
          | (Inr cs, ns'') \<Rightarrow> (Inr (c # cs), ns'')))"

text \<open>
  The documented behaviour of the noise package that the transport relies on: messages are
  transformed in place, so their length stays; the authentication tag has 16 bytes; the role of a
  session does not change and its message count does not decrease.
\<close>

definition noise_in_place :: "'ns noise_ops \<Rightarrow> bool" where
  "noise_in_place ops \<longleftrightarrow> ns_MAC_LENGTH ops = NOISE_AUTH_TAG_LEN \<and>
     (\<forall>m ns r ns'. ns_recv_message ops m ns = (r, ns') \<or> ns_send_message ops m ns = (r, ns') \<longrightarrow>
        (\<forall>p. r = Inr p \<longrightarrow> length p = length m) \<and>
        ns_is_initiator ops ns' = ns_is_initiator ops ns \<and>
        ns_get_message_count ops ns \<le> ns_get_message_count ops ns')"

text \<open>
  Two sessions after the handshake, related by \<open>R\<close>: what the first encrypts, the second
  decrypts, and the sessions stay related.
\<close>

definition noise_paired :: "'ns noise_ops \<Rightarrow> ('ns \<Rightarrow> 'ns \<Rightarrow> bool) \<Rightarrow> bool" where
  "noise_paired ops R \<longleftrightarrow>
     (\<forall>a b m c a'. R a b \<and> length m \<le> NOISE_MAX_PAYLOAD_LEN \<and>
        ns_send_message ops (m @ replicate (ns_MAC_LENGTH ops) 0) a = (Inr c, a') \<longrightarrow>
        (\<exists>p b'. ns_recv_message ops c b = (Inr p, b') \<and> take (length m) p = m \<and> R a' b'))"

lemma noise_recv_length:
  "noise_in_place ops \<Longrightarrow> ns_recv_message ops m ns = (Inr p, ns') \<Longrightarrow> length p = length m"
  by (auto simp: noise_in_place_def)

lemma noise_send_length:
  "noise_in_place ops \<Longrightarrow> ns_send_message ops m ns = (Inr p, ns') \<Longrightarrow> length p = length m"
  by (auto simp: noise_in_place_def)

lemma noise_mac: "noise_in_place ops \<Longrightarrow> ns_MAC_LENGTH ops = 16"
  by (simp add: noise_in_place_def NOISE_AUTH_TAG_LEN_def)

definition ns_post_handshake :: "'ns noise_ops \<Rightarrow> 'ns \<Rightarrow> bool" where
  "ns_post_handshake ops ns =
     (if ns_is_initiator ops ns then ns_get_message_count ops ns > 1 else ns_get_message_count ops ns > 2)"

lemma ll_is_post_handshake_eq: "ll_is_post_handshake ops ll = ns_post_handshake ops (noise_session ll)"
  by (simp add: ll_is_post_handshake_def ns_post_handshake_def)

lemma noise_recv_post:
  assumes "noise_in_place ops" "ns_recv_message ops m ns = (r, ns')" "ns_post_handshake ops ns"
  shows "ns_post_handshake ops ns'"
proof -
  have "ns_is_initiator ops ns' = ns_is_initiator ops ns"
    "ns_get_message_count ops ns \<le> ns_get_message_count ops ns'"
    using assms(1,2) unfolding noise_in_place_def by blast+
  with assms(3) show ?thesis by (auto simp: ns_post_handshake_def)
qed

lemmas noise_lens = NOISE_MAX_PAYLOAD_LEN_def NOISE_MAX_MESSAGE_LEN_def NOISE_AUTH_TAG_LEN_def

section \<open>Decryption in place\<close>

text \<open>After the first chunks, the buffer has their plain text, and behind the last chunk read it
  is still what was received.\<close>

lemma decrypt_chunks_ref:
  assumes lawful: "noise_in_place ops"
    and "drop (i * NOISE_MAX_MESSAGE_LEN) buf = rest"
    and "take (i * NOISE_MAX_PAYLOAD_LEN) buf = done"
    and "i * NOISE_MAX_PAYLOAD_LEN \<le> length buf"
    and "k = length (chunks NOISE_MAX_MESSAGE_LEN rest)"
    and "i * NOISE_MAX_MESSAGE_LEN \<le> length buf \<or> k = 0"
  shows "case recv_chunks ops (chunks NOISE_MAX_MESSAGE_LEN rest) ns of
      (Inl e, ns') \<Rightarrow> \<exists>buf'. decrypt_chunks ops [i..<i + k] (buf, ns) = (Inl e, buf', ns')
    | (Inr p, ns') \<Rightarrow> \<exists>buf'. decrypt_chunks ops [i..<i + k] (buf, ns) = (Inr (), buf', ns') \<and>
        take (length done + length p) buf' = done @ p \<and> length p + k * 16 = length rest"
  using assms(2-)
proof (induction k arbitrary: i buf rest "done" ns)
  case 0
  then have "rest = []" by (simp add: noise_lens)
  with 0 show ?case by auto
next
  case (Suc k)
  let ?M = NOISE_MAX_MESSAGE_LEN and ?P = NOISE_MAX_PAYLOAD_LEN
  have M: "?M = 65535" and P: "?P = 65519" by (simp_all add: noise_lens)
  have mac: "ns_MAC_LENGTH ops = 16" using lawful by (rule noise_mac)
  from Suc.prems(4) have ne: "rest \<noteq> []" by auto
  define c where "c = take ?M rest"
  have spl: "chunks ?M rest = c # chunks ?M (drop ?M rest)"
    using ne by (simp add: chunks_step M c_def)
  have pos: "i * ?M \<le> length buf" using Suc.prems(5) by simp
  have rs: "min ?M (length buf - i * ?M) = length c"
    using Suc.prems(1) by (auto simp: c_def)
  have c_read: "take (length c) (drop (i * ?M) buf) = c"
    using Suc.prems(1) by (simp add: c_def min_def)
  obtain r ns1 where recv: "ns_recv_message ops c ns = (r, ns1)" by (cases "ns_recv_message ops c ns")
  have chunk: "decrypt_chunk ops i (buf, ns) = (case r of
        Inl e \<Rightarrow> (Inl e, buf, ns1)
      | Inr p \<Rightarrow> if length c < 16 then (Inl (Panic ''range end out of range''), buf, ns1)
          else (Inr (), cursor_write (i * ?P) (take (length c - 16) p) buf, ns1))"
    by (simp add: decrypt_chunk_def Let_def rs c_read recv mac split: sum.split)
  have upt: "[i..<i + Suc k] = i # [Suc i..<Suc i + k]" by (simp add: upt_rec)
  show ?case
  proof (cases r)
    case (Inl e)
    with chunk recv show ?thesis unfolding upt spl by simp
  next
    case (Inr p)
    show ?thesis
    proof (cases "length c < 16")
      case True
      with Inr chunk recv mac show ?thesis unfolding upt spl by simp
    next
      case False
      define d where "d = take (length c - 16) p"
      have len_p: "length p = length c" using lawful recv Inr by (simp add: noise_recv_length)
      have len_d: "length d = length c - 16" by (simp add: d_def len_p)
      have len_c: "length c \<le> ?M" by (simp add: c_def)
      define buf1 where "buf1 = cursor_write (i * ?P) d buf"
      have iP: "i * ?P \<le> i * ?M" by (simp add: M P)
      have room: "i * ?M + length c \<le> length buf"
        using Suc.prems(1) rs pos by linarith
      have fits: "i * ?P + length d \<le> length buf" using room len_d iP by linarith
      have len1: "length buf1 = length buf"
        using fits by (simp add: buf1_def cursor_write_def)
      have step: "decrypt_chunk ops i (buf, ns) = (Inr (), buf1, ns1)"
        using chunk Inr False by (simp add: buf1_def d_def)
      have ldone: "length done = i * ?P" using Suc.prems(2,3) by auto
      have done1: "take (i * ?P + length d) buf1 = done @ d"
        using Suc.prems(2) ldone by (simp add: buf1_def cursor_write_def)
      have rest1: "drop (Suc i * ?M) buf1 = drop ?M rest"
      proof -
        have "i * ?P + length d \<le> Suc i * ?M" using len_d len_c by (simp add: M P)
        then have "drop (Suc i * ?M) buf1 = drop (Suc i * ?M) buf"
          using Suc.prems(3) by (simp add: buf1_def cursor_write_def drop_append)
        also have "\<dots> = drop ?M (drop (i * ?M) buf)" by simp
        also have "\<dots> = drop ?M rest" using Suc.prems(1) by simp
        finally show ?thesis .
      qed
      have rc: "recv_chunks ops (c # cs) ns = (case recv_chunks ops cs ns1 of
          (Inl e, ns') \<Rightarrow> (Inl e, ns') | (Inr ps, ns') \<Rightarrow> (Inr (d @ ps), ns'))" for cs
        using recv Inr False mac by (simp add: d_def split: prod.split sum.split)
      show ?thesis
      proof (cases "drop ?M rest = []")
        case True
        then have "k = 0" using Suc.prems(4) spl by simp
        moreover from True have "length rest = length c" by (simp add: c_def)
        ultimately show ?thesis
          using step done1 len_d ldone False unfolding upt spl rc True chunks_Nil by simp
      next
        case more: False
        then have full: "length c = ?M" by (simp add: c_def)
        have lendone: "length (done @ d) = Suc i * ?P"
          using ldone len_d full by (simp add: M P)
        have IH: "case recv_chunks ops (chunks ?M (drop ?M rest)) ns1 of
            (Inl e, ns') \<Rightarrow> \<exists>buf'. decrypt_chunks ops [Suc i..<Suc i + k] (buf1, ns1) = (Inl e, buf', ns')
          | (Inr p, ns') \<Rightarrow> \<exists>buf'. decrypt_chunks ops [Suc i..<Suc i + k] (buf1, ns1) = (Inr (), buf', ns') \<and>
              take (length (done @ d) + length p) buf' = (done @ d) @ p \<and>
              length p + k * 16 = length (drop ?M rest)"
        proof (rule Suc.IH [OF rest1])
          show "take (Suc i * ?P) buf1 = done @ d" using done1 lendone ldone by (simp add: add.commute)
          show "Suc i * ?P \<le> length buf1" using fits len_d full by (simp add: len1 M P)
          show "k = length (chunks ?M (drop ?M rest))" using Suc.prems(4) spl by simp
          show "Suc i * ?M \<le> length buf1 \<or> k = 0" using room full by (simp add: len1)
        qed
        have len: "length rest = length c + length (drop ?M rest)" by (simp add: c_def)
        obtain r2 ns2 where r2: "recv_chunks ops (chunks ?M (drop ?M rest)) ns1 = (r2, ns2)"
          by (cases "recv_chunks ops (chunks ?M (drop ?M rest)) ns1")
        show ?thesis
        proof (cases r2)
          case (Inl e)
          have "\<exists>buf'. decrypt_chunks ops [Suc i..<Suc i + k] (buf1, ns1) = (Inl e, buf', ns2)"
            using IH by (simp only: r2 Inl prod.case sum.case)
          then obtain buf' where
            "decrypt_chunks ops [Suc i..<Suc i + k] (buf1, ns1) = (Inl e, buf', ns2)" ..
          with Inl r2 step show ?thesis unfolding upt spl rc by (simp del: upt_Suc)
        next
          case (Inr p2)
          have "\<exists>buf'. decrypt_chunks ops [Suc i..<Suc i + k] (buf1, ns1) = (Inr (), buf', ns2) \<and>
              take (length (done @ d) + length p2) buf' = (done @ d) @ p2 \<and>
              length p2 + k * 16 = length (drop ?M rest)"
            using IH by (simp only: r2 Inr prod.case sum.case)
          then obtain buf' where
            rec: "decrypt_chunks ops [Suc i..<Suc i + k] (buf1, ns1) = (Inr (), buf', ns2)"
              "take (length (done @ d) + length p2) buf' = (done @ d) @ p2"
              "length p2 + k * 16 = length (drop ?M rest)"
            by (elim exE conjE) (rule that)
          have "length (d @ p2) + Suc k * 16 = length rest" 
            using rec(3) len len_d False unfolding length_append mult_Suc by linarith
          with Inr r2 step rec(1,2) show ?thesis
            unfolding upt spl rc by (simp del: upt_Suc add: add.assoc)
        qed
      qed
    qed
  qed
qed

lemma decrypt_bytes_ref:
  assumes "noise_in_place ops"
  shows "decrypt_bytes ops msg ns = recv_chunks ops (chunks NOISE_MAX_MESSAGE_LEN msg) ns"
proof -
  let ?k = "length (chunks NOISE_MAX_MESSAGE_LEN msg)"
  have k: "length msg div NOISE_MAX_MESSAGE_LEN +
      (if length msg mod NOISE_MAX_MESSAGE_LEN > 0 then 1 else 0) = ?k"
    by (subst length_chunks) (simp_all add: noise_lens)
  have mac: "ns_MAC_LENGTH ops = 16" using assms by (rule noise_mac)
  have "case recv_chunks ops (chunks NOISE_MAX_MESSAGE_LEN msg) ns of
      (Inl e, ns') \<Rightarrow> \<exists>buf'. decrypt_chunks ops [0..<0 + ?k] (msg, ns) = (Inl e, buf', ns')
    | (Inr p, ns') \<Rightarrow> \<exists>buf'. decrypt_chunks ops [0..<0 + ?k] (msg, ns) = (Inr (), buf', ns') \<and>
        take (length ([] :: bytes) + length p) buf' = [] @ p \<and> length p + ?k * 16 = length msg"
    by (rule decrypt_chunks_ref [OF assms]) simp_all
  then show ?thesis
    unfolding decrypt_bytes_def Let_def k
    by (auto simp: mac split: prod.splits sum.splits) (metis diff_add_inverse2)
qed

section \<open>Encryption\<close>

text \<open>The outgoing byte stream: what was sent and what waits in the output queue.\<close>

definition out_stream :: "'ns low_level \<Rightarrow> bytes" where
  "out_stream ll = sock_sent (ll_socket ll) @ output_queue ll"

lemma sock_write_stream:
  assumes "sock_write bs s = (r, s')"
  shows "sock_sent s' = sock_sent s @ (case r of Io_ok n \<Rightarrow> take n bs | _ \<Rightarrow> [])"
    and "r = Io_ok n \<Longrightarrow> n \<le> length bs"
  using assms by (auto simp: sock_write_def min_def split: list.splits write_event.splits)

lemma flush_once_stream:
  assumes "flush_socket_once ops ll = (r, ll')"
  shows "out_stream ll' = out_stream ll" "noise_session ll' = noise_session ll"
proof -
  define w where "w = (if \<not> ll_is_post_handshake ops ll then min 4096 (length (output_queue ll))
      else min (write_size ll) (length (output_queue ll)))"
  obtain wr sock where wr: "sock_write (take w (output_queue ll)) (ll_socket ll) = (wr, sock)"
    by (cases "sock_write (take w (output_queue ll)) (ll_socket ll)")
  note sent = sock_write_stream [OF wr]
  have whole: "take n (take w q) @ drop n q = q" if "n \<le> length (take w q)" for n and q :: bytes
    using that by (simp add: min_absorb1)
  show "out_stream ll' = out_stream ll" "noise_session ll' = noise_session ll"
    using assms sent whole [of _ "output_queue ll"]
    unfolding flush_socket_once_def Let_def w_def [symmetric]
    by (auto simp: wr out_stream_def split: if_splits io.splits)
qed

lemma flush_loop_stream:
  "flush_loop ops ll = (r, ll') \<Longrightarrow> out_stream ll' = out_stream ll \<and> noise_session ll' = noise_session ll"
proof (induction ops ll arbitrary: r ll' rule: flush_loop.induct)
  case (1 ops ll)
  obtain r1 ll1 where once: "flush_socket_once ops ll = (r1, ll1)" by (cases "flush_socket_once ops ll")
  show ?case
  proof (cases "output_queue ll = [] \<or> (\<exists>e. r1 = Inl e) \<or> r1 = Inr 0")
    case True
    with 1(2) once flush_once_stream [OF once] show ?thesis
      by (subst (asm) flush_loop.simps) (auto split: if_splits)
  next
    case False
    then obtain n where n: "r1 = Inr n" "n \<noteq> 0" by (cases r1) auto
    with False once 1(2) have "flush_loop ops ll1 = (r, ll')"
      by (subst (asm) flush_loop.simps) simp
    with 1(1) once n False flush_once_stream [OF once] show ?thesis by fastforce
  qed
qed

lemma flush_socket_stream:
  "flush_socket ops ll = (r, ll') \<Longrightarrow> out_stream ll' = out_stream ll"
  by (auto simp: flush_socket_def dest: flush_loop_stream split: if_splits)

lemma encrypt_chunk_stream:
  assumes "encrypt_chunk ops m ll = (Inr u, ll')"
  shows "\<exists>c. ns_send_message ops (m @ replicate (ns_MAC_LENGTH ops) 0) (noise_session ll) =
      (Inr c, noise_session ll') \<and> out_stream ll' = out_stream ll @ c"
  using assms by (auto simp: encrypt_chunk_def out_stream_def split: prod.splits sum.splits)

lemma encrypt_loop_stream:
  "encrypt_loop ops input ll = (Inr u, ll') \<Longrightarrow>
   \<exists>cs. send_chunks ops (chunks NOISE_MAX_PAYLOAD_LEN input) (noise_session ll) =
       (Inr cs, noise_session ll') \<and> out_stream ll' = out_stream ll @ concat cs"
proof (induction "length input" arbitrary: input ll rule: less_induct)
  case less
  show ?case
  proof (cases "input = []")
    case True
    with less.prems show ?thesis by (subst (asm) encrypt_loop.simps) simp
  next
    case False
    let ?m = "take NOISE_MAX_PAYLOAD_LEN input" and ?rest = "drop NOISE_MAX_PAYLOAD_LEN input"
    have pos: "0 < NOISE_MAX_PAYLOAD_LEN" by (simp add: noise_lens)
    obtain v ll1 where chunk: "encrypt_chunk ops ?m ll = (Inr v, ll1)"
      using less.prems False by (subst (asm) encrypt_loop.simps) (auto split: prod.splits sum.splits)
    obtain ll2 where loop: "encrypt_loop ops ?rest ll2 = (Inr u, ll')"
      and same: "out_stream ll2 = out_stream ll1" "noise_session ll2 = noise_session ll1"
    proof (cases "write_size ll1 \<le> length (output_queue ll1)")
      case True
      with less.prems False chunk obtain n ll2 where once: "flush_socket_once ops ll1 = (Inr n, ll2)"
        and loop: "encrypt_loop ops ?rest ll2 = (Inr u, ll')"
        by (subst (asm) encrypt_loop.simps) (auto split: prod.splits sum.splits)
      with that flush_once_stream [OF once] show ?thesis by blast
    next
      case small: False
      with less.prems False chunk have "encrypt_loop ops ?rest ll1 = (Inr u, ll')"
        by (subst (asm) encrypt_loop.simps) simp
      with that show ?thesis by blast
    qed
    have "length ?rest < length input" using False pos by simp
    from less.hyps [OF this loop] encrypt_chunk_stream [OF chunk] same False pos show ?thesis
      by (auto simp: chunks_step)
  qed
qed

lemma send_chunks_lengths:
  assumes "noise_in_place ops"
  shows "send_chunks ops ms ns = (Inr cs, ns') \<Longrightarrow> map length cs = map (\<lambda>m. length m + 16) ms"
  using assms
proof (induction ops ms ns arbitrary: cs ns' rule: send_chunks.induct)
  case (2 ops m ms ns)
  then show ?case
    by (auto simp: noise_mac dest!: noise_send_length split: prod.splits sum.splits)
qed simp

lemma sum_chunk_lengths:
  assumes "0 < n"
  shows "sum_list (map (\<lambda>m. length m + 16) (chunks n xs)) = length xs + 16 * length (chunks n xs)"
proof -
  have "sum_list (map (\<lambda>m. length m + 16) cs) = length (concat cs) + 16 * length cs" for cs :: "'a list list"
    by (induction cs) simp_all
  with concat_chunks [OF assms, of xs] show ?thesis by simp
qed

lemma encrypted_len_total:
  assumes "noise_in_place ops" "send_chunks ops (chunks NOISE_MAX_PAYLOAD_LEN input) ns = (Inr cs, ns')"
  shows "length (concat cs) = encrypted_len ops (length input)"
proof -
  let ?n = "length input"
  have "length (concat cs) = sum_list (map (\<lambda>m. length m + 16) (chunks NOISE_MAX_PAYLOAD_LEN input))"
    using send_chunks_lengths [OF assms] by (simp add: length_concat)
  also have "\<dots> = ?n + 16 * (?n div 65519 + (if ?n mod 65519 > 0 then 1 else 0))"
    by (subst sum_chunk_lengths) (simp_all add: length_chunks noise_lens)
  also have "\<dots> = encrypted_len ops ?n"
    using div_mult_mod_eq [of ?n 65519]
    by (auto simp: encrypted_len_def noise_mac [OF assms(1)] noise_lens Let_def)
  finally show ?thesis .
qed

text \<open>A frame: the length and the encrypted message.\<close>

definition frame :: "bytes \<Rightarrow> bytes" where
  "frame c = u32_to_be_bytes (word_of_nat (length c)) @ c"

lemma encrypt_and_enqueue_stream:
  assumes "noise_in_place ops" "encrypt_and_enqueue ops input ll = (Inr u, ll')"
  shows "\<exists>cs. send_chunks ops (chunks NOISE_MAX_PAYLOAD_LEN input) (noise_session ll) =
      (Inr cs, noise_session ll') \<and> out_stream ll' = out_stream ll @ frame (concat cs)"
proof -
  from encrypt_loop_stream [OF assms(2) [unfolded encrypt_and_enqueue_def]]
  obtain cs where cs: "send_chunks ops (chunks NOISE_MAX_PAYLOAD_LEN input) (noise_session ll) =
      (Inr cs, noise_session ll')"
    and out: "out_stream ll' = out_stream (ll\<lparr>output_queue := output_queue ll @
        u32_to_be_bytes (word_of_nat (encrypted_len ops (length input)))\<rparr>) @ concat cs"
    by auto
  from encrypted_len_total [OF assms(1) cs] out have "out_stream ll' = out_stream ll @ frame (concat cs)"
    by (simp add: out_stream_def frame_def)
  with cs show ?thesis by blast
qed

section \<open>Both ends\<close>

lemma paired_chunks:
  assumes "noise_in_place ops" "noise_paired ops R"
  shows "R a b \<Longrightarrow> list_all (\<lambda>m. length m \<le> NOISE_MAX_PAYLOAD_LEN) ms \<Longrightarrow>
    send_chunks ops ms a = (Inr cs, a') \<Longrightarrow>
    \<exists>b'. recv_chunks ops cs b = (Inr (concat ms), b') \<and> R a' b'"
proof (induction ms arbitrary: a b cs)
  case (Cons m ms)
  from Cons.prems(3) obtain c a1 cs' where
    send: "ns_send_message ops (m @ replicate (ns_MAC_LENGTH ops) 0) a = (Inr c, a1)"
      "send_chunks ops ms a1 = (Inr cs', a')" "cs = c # cs'"
    by (auto split: prod.splits sum.splits)
  with assms(2) Cons.prems(1,2) obtain p b1 where
    recv: "ns_recv_message ops c b = (Inr p, b1)" "take (length m) p = m" "R a1 b1"
    unfolding noise_paired_def by (metis list.pred_inject(2))
  have "length c = length m + 16"
    using noise_send_length [OF assms(1) send(1)] noise_mac [OF assms(1)] by simp
  with recv Cons.IH [OF recv(3) _ send(2)] Cons.prems(2) send(3) noise_mac [OF assms(1)]
  show ?case by auto
qed simp

lemma full_chunks_send:
  assumes "noise_in_place ops"
  shows "send_chunks ops ms ns = (Inr cs, ns') \<Longrightarrow> full_chunks NOISE_MAX_PAYLOAD_LEN ms \<Longrightarrow>
    full_chunks NOISE_MAX_MESSAGE_LEN cs"
proof (induction NOISE_MAX_PAYLOAD_LEN ms arbitrary: ns cs rule: full_chunks.induct)
  case (2 m)
  then show ?case
    using noise_mac [OF assms]
    by (auto dest!: noise_send_length [OF assms] simp: noise_lens split: prod.splits sum.splits)
next
  case (3 m m' ms)
  then obtain c ns1 cs1 where
    send: "ns_send_message ops (m @ replicate (ns_MAC_LENGTH ops) 0) ns = (Inr c, ns1)"
      "send_chunks ops (m' # ms) ns1 = (Inr cs1, ns')" "cs = c # cs1"
    by (auto simp del: send_chunks.simps(2) simp: send_chunks.simps(2) [of _ m] split: prod.splits sum.splits)
  have "length c = NOISE_MAX_MESSAGE_LEN"
    using noise_send_length [OF assms send(1)] noise_mac [OF assms] 3 by (simp add: noise_lens)
  moreover have "full_chunks NOISE_MAX_MESSAGE_LEN cs1" using 3 send(2) by simp
  moreover have "cs1 \<noteq> []" using send(2) by (auto split: prod.splits sum.splits)
  ultimately show ?case using send(3) by (cases cs1) simp_all
qed simp

text \<open>Decrypting what the other end encrypted gives the message.\<close>

lemma decrypt_encrypted:
  assumes "noise_in_place ops" "noise_paired ops R" "R a b"
    and "send_chunks ops (chunks NOISE_MAX_PAYLOAD_LEN m) a = (Inr cs, a')"
  shows "\<exists>b'. decrypt_bytes ops (concat cs) b = (Inr m, b') \<and> R a' b'"
proof -
  have P: "0 < NOISE_MAX_PAYLOAD_LEN" and M: "0 < NOISE_MAX_MESSAGE_LEN" by (simp_all add: noise_lens)
  have "list_all (\<lambda>m. length m \<le> n) (chunks n xs)" for n and xs :: bytes
    by (induction n xs rule: chunks.induct) (subst chunks.simps, simp)
  from paired_chunks [OF assms(1,2,3) this assms(4)] concat_chunks [OF P, of m]
  obtain b' where "recv_chunks ops cs b = (Inr m, b')" "R a' b'" by auto
  moreover have "chunks NOISE_MAX_MESSAGE_LEN (concat cs) = cs"
    by (intro chunks_concat M full_chunks_send [OF assms(1,4)] full_chunks_chunks P)
  ultimately show ?thesis by (simp add: decrypt_bytes_ref [OF assms(1)])
qed

section \<open>The incoming byte stream\<close>

primrec event_data :: "read_event \<Rightarrow> bytes" where
  "event_data (Data bs) = bs"
| "event_data Read_blocked = []"
| "event_data (Read_failed e) = []"

definition sb_unread :: "socket_buffer \<Rightarrow> bytes" where
  "sb_unread sb = take (sb_remaining sb) (drop (sb_offset sb) (sb_buf sb))"

definition unread :: "'ns low_level \<Rightarrow> bytes" where
  "unread ll = sb_unread (socket_buffer ll) @ concat (map event_data (sock_in (ll_socket ll)))"

definition partial_frame :: "incoming_message \<Rightarrow> bytes" where
  "partial_frame im = (if pending_bytes im = 0 then size_bytes im
     else u32_to_be_bytes (word_of_nat (length (in_message im) + pending_bytes im)) @ in_message im)"

definition in_stream :: "'ns low_level \<Rightarrow> bytes" where
  "in_stream ll = partial_frame (incoming_msg ll) @ unread ll"

definition sb_wf :: "socket_buffer \<Rightarrow> bool" where
  "sb_wf sb \<longleftrightarrow> 0 < length (sb_buf sb) \<and> sb_offset sb + sb_remaining sb \<le> length (sb_buf sb) \<and>
     (sb_remaining sb = 0 \<longrightarrow> sb_offset sb = 0)"

definition im_wf :: "incoming_message \<Rightarrow> bool" where
  "im_wf im \<longleftrightarrow> length (size_bytes im) < PAYLOAD_SIZE \<and>
     (pending_bytes im \<noteq> 0 \<longrightarrow> size_bytes im = [] \<and>
        length (in_message im) + pending_bytes im \<le> unat PROTOCOL_MAX_MESSAGE_SIZE)"

definition ll_wf :: "'ns low_level \<Rightarrow> bool" where
  "ll_wf ll \<longleftrightarrow> sb_wf (socket_buffer ll) \<and> im_wf (incoming_msg ll)"

lemma low_level_new_wf: "0 < read_size \<Longrightarrow> ll_wf (low_level_new ops l sock i read_size wsize)"
  by (simp add: low_level_new_def ll_wf_def sb_wf_def im_wf_def socket_buffer_new_def
      incoming_message_default_def PAYLOAD_SIZE_def)

lemma length_sb_unread: "sb_wf sb \<Longrightarrow> length (sb_unread sb) = sb_remaining sb"
  by (auto simp: sb_wf_def sb_unread_def)

lemma sb_unread_shift: "sb_unread (sb_shift n sb) = drop n (sb_unread sb)"
  by (simp add: sb_unread_def sb_shift_def Let_def drop_take add.commute)

lemma sb_slice_wf:
  assumes "sb_wf sb" "n \<le> sb_remaining sb"
  shows "sb_slice n sb = Inr (take n (sb_unread sb))"
    and "sb_unread sb = take n (sb_unread sb) @ sb_unread (sb_shift n sb)"
    and "sb_wf (sb_shift n sb)"
proof -
  show "sb_slice n sb = Inr (take n (sb_unread sb))"
    using assms by (simp add: sb_wf_def sb_slice_def sb_unread_def min_absorb1)
  show "sb_unread sb = take n (sb_unread sb) @ sb_unread (sb_shift n sb)"
    by (simp add: sb_unread_shift)
  show "sb_wf (sb_shift n sb)"
    using assms by (simp add: sb_wf_def sb_shift_def Let_def)
qed

lemma nat_to_be_be_value: "nat_to_be (length bs) (be_value bs) = bs"
proof (induction bs rule: rev_induct)
  case (snoc b bs)
  have "unat b < 256" using unsigned_less [of b, where ?'a = nat] by simp
  moreover have z: "(256 :: u8) = 0" by simp
  ultimately show ?case using snoc by (simp add: z)
qed simp

lemma u32_to_from_be_bytes:
  "u32_from_be_bytes bs = Some w \<Longrightarrow> u32_to_be_bytes w = bs"
proof -
  assume "u32_from_be_bytes bs = Some w"
  then have len: "length bs = 4" and w: "w = word_of_nat (be_value bs)"
    by (auto simp: u32_from_be_bytes_def split: if_splits)
  have "be_value bs < 2 ^ 32" using be_value_bound [of bs] by (simp add: len)
  then have "unat w = be_value bs" by (simp add: w unat_of_nat take_bit_eq_mod)
  with nat_to_be_be_value [of bs] show ?thesis by (simp add: u32_to_be_bytes_def len)
qed

lemma attempt_to_read_length_stream:
  assumes "ll_wf ll" "pending_bytes (incoming_msg ll) = 0"
    and "attempt_to_read_length ops ll = (Inr u, ll')"
  shows "ll_wf ll' \<and> in_stream ll' = in_stream ll \<and> noise_session ll' = noise_session ll"
proof -
  let ?sb = "socket_buffer ll" and ?im = "incoming_msg ll"
  define rs where "rs = min (sb_remaining ?sb) (PAYLOAD_SIZE - length (size_bytes ?im))"
  from assms(1) have wf: "sb_wf ?sb" "im_wf ?im" by (simp_all add: ll_wf_def)
  have rs: "rs \<le> sb_remaining ?sb" by (simp add: rs_def)
  note slice = sb_slice_wf [OF wf(1) rs]
  define sz where "sz = size_bytes ?im @ take rs (sb_unread ?sb)"
  have stream: "in_stream ll = sz @ sb_unread (sb_shift rs ?sb) @
      concat (map event_data (sock_in (ll_socket ll)))"
    using slice(2) assms(2) by (simp add: in_stream_def partial_frame_def unread_def sz_def)
  have len: "length sz \<le> PAYLOAD_SIZE"
    using wf length_sb_unread [OF wf(1)] by (auto simp: sz_def rs_def im_wf_def)
  show ?thesis
  proof (cases "length sz = PAYLOAD_SIZE")
    case False
    then have "ll' = ll\<lparr>incoming_msg := ?im\<lparr>size_bytes := sz\<rparr>, socket_buffer := sb_shift rs ?sb\<rparr>"
      using assms(3) slice(1)
      by (simp add: attempt_to_read_length_def rs_def [symmetric] Let_def sz_def)
    with False len slice(3) assms(2) stream show ?thesis
      by (simp add: ll_wf_def im_wf_def in_stream_def partial_frame_def unread_def)
  next
    case True
    then obtain e where e: "u32_from_be_bytes sz = Some e"
      by (simp add: u32_from_be_bytes_def PAYLOAD_SIZE_def)
    have ll': "e \<noteq> 0" "e \<le> PROTOCOL_MAX_MESSAGE_SIZE"
      "ll' = ll\<lparr>incoming_msg := \<lparr>size_bytes = [], pending_bytes = unat e, in_message = []\<rparr>,
        socket_buffer := sb_shift rs ?sb\<rparr>"
      using assms(3) slice(1) True e
      by (auto simp: attempt_to_read_length_def rs_def [symmetric] Let_def sz_def [symmetric]
          split: if_splits)
    have "unat e \<noteq> 0" using ll'(1) by (simp add: unat_eq_0)
    with ll' slice(3) stream u32_to_from_be_bytes [OF e] show ?thesis
      by (simp add: ll_wf_def im_wf_def in_stream_def partial_frame_def unread_def PAYLOAD_SIZE_def
          word_le_nat_alt)
  qed
qed

text \<open>What a step of reading returned, as a statement on the stream and the noise session.\<close>

definition read_step_ok :: "'ns noise_ops \<Rightarrow> 'ns low_level \<Rightarrow> read_result result \<Rightarrow> 'ns low_level \<Rightarrow> bool" where
  "read_step_ok ops ll r ll' \<longleftrightarrow> (case r of
     Inl _ \<Rightarrow> True
   | Inr (Complete m) \<Rightarrow> ll_wf ll' \<and>
       (\<exists>c. in_stream ll = frame c @ in_stream ll' \<and> 0 < length c \<and>
          length c \<le> unat PROTOCOL_MAX_MESSAGE_SIZE \<and>
          decrypt_bytes ops c (noise_session ll) = (Inr m, noise_session ll'))
   | Inr _ \<Rightarrow> ll_wf ll' \<and> in_stream ll' = in_stream ll \<and> noise_session ll' = noise_session ll)"

lemma read_step_ok_cong:
  "read_step_ok ops ll1 r ll' \<Longrightarrow> in_stream ll1 = in_stream ll \<Longrightarrow>
   noise_session ll1 = noise_session ll \<Longrightarrow> read_step_ok ops ll r ll'"
  by (simp add: read_step_ok_def split: sum.splits read_result.splits)

lemma process_incoming_msg_stream:
  assumes "ll_wf ll" "pending_bytes (incoming_msg ll) \<noteq> 0" "ll_is_post_handshake ops ll"
    and "process_incoming_msg ops request ll = (r, ll')"
  shows "read_step_ok ops ll r ll'"
proof -
  let ?sb = "socket_buffer ll" and ?im = "incoming_msg ll"
  define n where "n = min (pending_bytes ?im) (sb_remaining ?sb)"
  from assms(1) have wf: "sb_wf ?sb" "im_wf ?im" by (simp_all add: ll_wf_def)
  have n: "n \<le> sb_remaining ?sb" by (simp add: n_def)
  note slice = sb_slice_wf [OF wf(1) n]
  define c where "c = in_message ?im @ take n (sb_unread ?sb)"
  define ll2 where "ll2 = ll\<lparr>incoming_msg := ?im\<lparr>in_message := c, pending_bytes := pending_bytes ?im - n\<rparr>,
      socket_buffer := sb_shift n ?sb\<rparr>"
  have len_n: "length (take n (sb_unread ?sb)) = n"
    using length_sb_unread [OF wf(1)] by (simp add: n_def)
  have total: "length c + (pending_bytes ?im - n) = length (in_message ?im) + pending_bytes ?im"
    using len_n by (simp add: c_def n_def)
  have stream: "in_stream ll = u32_to_be_bytes (word_of_nat (length (in_message ?im) + pending_bytes ?im))
      @ c @ sb_unread (sb_shift n ?sb) @ concat (map event_data (sock_in (ll_socket ll)))"
    using slice(2) assms(2) by (simp add: in_stream_def partial_frame_def unread_def c_def)
  have post: "ll_is_post_handshake ops (ll\<lparr>incoming_msg := x, socket_buffer := y\<rparr>)"
    "ll_is_post_handshake ops (ll\<lparr>incoming_msg := x\<rparr>)" for x y
    using assms(3) by (simp_all add: ll_is_post_handshake_eq)
  show ?thesis
  proof (cases "pending_bytes ?im - n = 0")
    case False
    then have "r = Inr Incomplete" "ll' = ll2"
      using assms(4) slice(1) post
      by (simp_all add: process_incoming_msg_def n_def [symmetric] Let_def c_def [symmetric] ll2_def)
    with False wf slice(3) stream total show ?thesis
      by (simp add: read_step_ok_def ll_wf_def im_wf_def ll2_def in_stream_def partial_frame_def unread_def)
  next
    case True
    obtain d ns where d: "decrypt_bytes ops c (noise_session ll) = (d, ns)"
      by (cases "decrypt_bytes ops c (noise_session ll)")
    have "process_incoming_msg ops request ll =
        (case d of Inl e \<Rightarrow> Inl e | Inr m \<Rightarrow> Inr (Complete m),
         ll2\<lparr>incoming_msg := (incoming_msg ll2)\<lparr>in_message := []\<rparr>, noise_session := ns\<rparr>)"
      using slice(1) post True d
      by (simp add: process_incoming_msg_def n_def [symmetric] Let_def c_def [symmetric] ll2_def
          decrypt_def split: sum.split)
    with assms(4) have r: "r = (case d of Inl e \<Rightarrow> Inl e | Inr m \<Rightarrow> Inr (Complete m))"
      and ll': "ll' = ll2\<lparr>incoming_msg := (incoming_msg ll2)\<lparr>in_message := []\<rparr>, noise_session := ns\<rparr>"
      by simp_all
    have len_c: "length c = length (in_message ?im) + pending_bytes ?im" using total True by simp
    show ?thesis
    proof (cases d)
      case (Inl e)
      with r show ?thesis by (simp add: read_step_ok_def)
    next
      case (Inr m)
      have "in_stream ll' = sb_unread (sb_shift n ?sb) @ concat (map event_data (sock_in (ll_socket ll)))"
        using True wf assms(2) by (simp add: ll' ll2_def in_stream_def partial_frame_def unread_def im_wf_def)
      then have "in_stream ll = frame c @ in_stream ll'"
        using stream len_c by (simp add: frame_def)
      moreover have "0 < length c" "length c \<le> unat PROTOCOL_MAX_MESSAGE_SIZE"
        using len_c assms(2) wf(2) by (simp_all add: im_wf_def)
      moreover have "ll_wf ll'"
        using True wf assms(2) slice(3) by (simp add: ll' ll2_def ll_wf_def im_wf_def)
      moreover have "noise_session ll' = ns" by (simp add: ll')
      ultimately show ?thesis using r Inr d by (auto simp: read_step_ok_def)
    qed
  qed
qed

lemma read_buffered_stream:
  assumes "ll_wf ll" "ll_is_post_handshake ops ll" "read_buffered ops request ll = (r, ll')"
  shows "read_step_ok ops ll r ll'"
proof -
  obtain r1 ll1 where first: "(if pending_bytes (incoming_msg ll) = 0 then attempt_to_read_length ops ll
      else (Inr (), ll)) = (r1, ll1)"
    by fastforce
  show ?thesis
  proof (cases r1)
    case (Inl e)
    with assms(3) first have "r = Inl e" by (auto simp: read_buffered_def)
    then show ?thesis by (simp add: read_step_ok_def)
  next
    case (Inr u)
    have ll1: "ll_wf ll1" "in_stream ll1 = in_stream ll" "noise_session ll1 = noise_session ll"
      using assms(1) first Inr attempt_to_read_length_stream [of ll ops u ll1]
      by (auto split: if_splits)
    with assms(2) have post: "ll_is_post_handshake ops ll1" by (simp add: ll_is_post_handshake_eq)
    show ?thesis
    proof (cases "pending_bytes (incoming_msg ll1) = 0")
      case True
      with assms(3) first Inr have "r = Inr Incomplete" "ll' = ll1" by (auto simp: read_buffered_def)
      with ll1 show ?thesis by (simp add: read_step_ok_def)
    next
      case False
      with assms(3) first Inr have "process_incoming_msg ops request ll1 = (r, ll')"
        by (auto simp: read_buffered_def)
      from process_incoming_msg_stream [OF ll1(1) False post this] ll1(2,3) show ?thesis
        by (rule read_step_ok_cong)
    qed
  qed
qed

lemma sock_read_length: "sock_read len s = (Io_ok bs, s') \<Longrightarrow> length bs \<le> len"
  by (auto simp: sock_read_def split: list.splits read_event.splits)

lemma read_from_socket_stream:
  assumes "ll_wf ll" "ll_is_post_handshake ops ll" "read_from_socket ops request ll = (r, ll')"
  shows "read_step_ok ops ll r ll'"
proof -
  let ?sb = "socket_buffer ll"
  have sb: "sb_wf ?sb" using assms(1) by (simp add: ll_wf_def)
  then have ne: "\<not> is_exhausted ?sb" by (auto simp: sb_wf_def is_exhausted_def)
  show ?thesis
  proof (cases "sb_remaining ?sb = 0")
    case False
    with ne assms show ?thesis
      by (intro read_buffered_stream [where request = request]) (simp_all add: read_from_socket_def)
  next
    case True
    then have off: "sb_offset ?sb = 0" using sb by (simp add: sb_wf_def)
    obtain io sock where io: "sock_read (length (sb_buf ?sb)) (ll_socket ll) = (io, sock)"
      by (cases "sock_read (length (sb_buf ?sb)) (ll_socket ll)")
    let ?ll1 = "ll\<lparr>ll_socket := sock\<rparr>"
    have body: "read_from_socket ops request ll = (case io of
           Io_ok [] \<Rightarrow> (Inr Closed, ?ll1)
         | Io_ok bs \<Rightarrow> read_buffered ops request
               (?ll1\<lparr>socket_buffer := (sb_write bs ?sb)\<lparr>sb_remaining := length bs\<rparr>\<rparr>)
         | Io_would_block \<Rightarrow> (Inr WouldBlock, ?ll1)
         | Io_err e \<Rightarrow> (Inl (Io_error e), ?ll1))"
      using ne True off io by (simp add: read_from_socket_def Let_def split: io.split list.split)
    have data: "concat (map event_data (sock_in (ll_socket ll))) =
        (case io of Io_ok bs \<Rightarrow> bs | _ \<Rightarrow> []) @ concat (map event_data (sock_in sock))"
      using io by (auto simp: sock_read_def split: list.splits read_event.splits)
    have none: "sb_unread ?sb = []" using True by (simp add: sb_unread_def)
    show ?thesis
    proof (cases "\<exists>b bs. io = Io_ok (b # bs)")
      case False
      with body assms(3) have "r = Inr Closed \<or> r = Inr WouldBlock \<or> (\<exists>e. r = Inl e)" "ll' = ?ll1"
        by (auto split: io.splits list.splits)
      moreover have "unread ?ll1 = unread ll"
        using data False none by (auto simp: unread_def split: io.splits) (metis neq_Nil_conv)
      ultimately show ?thesis
        using assms(1) by (auto simp: read_step_ok_def ll_wf_def in_stream_def)
    next
      case True
      then obtain b bs where bs: "io = Io_ok (b # bs)" by blast
      have fits: "length (b # bs) \<le> length (sb_buf ?sb)"
        using io bs by (auto dest: sock_read_length)
      let ?sb2 = "(sb_write (b # bs) ?sb)\<lparr>sb_remaining := length (b # bs)\<rparr>"
      let ?ll2 = "?ll1\<lparr>socket_buffer := ?sb2\<rparr>"
      have sb2: "sb_wf ?sb2" "sb_unread ?sb2 = b # bs"
        using sb off fits by (auto simp: sb_wf_def sb_write_def sb_unread_def)
      have "in_stream ?ll2 = in_stream ll"
        using data none bs sb2 by (simp add: in_stream_def unread_def)
      moreover have "read_step_ok ops ?ll2 r ll'"
      proof (rule read_buffered_stream)
        show "ll_wf ?ll2" using assms(1) sb2 by (simp add: ll_wf_def)
        show "ll_is_post_handshake ops ?ll2" using assms(2) by (simp add: ll_is_post_handshake_eq)
        show "read_buffered ops request ?ll2 = (r, ll')" using assms(3) body bs by simp
      qed
      ultimately show ?thesis by (auto intro: read_step_ok_cong)
    qed
  qed
qed

section \<open>Runs\<close>

text \<open>The calls of \<open>read_from_socket\<close> over the life of a connection, with the messages they
  completed.\<close>

inductive read_run :: "'ns noise_ops \<Rightarrow> bytes result \<Rightarrow> 'ns low_level \<Rightarrow> bytes list \<Rightarrow> 'ns low_level \<Rightarrow> bool"
  for ops request where
  stop: "read_run ops request ll [] ll"
| more: "read_from_socket ops request ll = (Inr r, ll1) \<Longrightarrow> r = Incomplete \<or> r = WouldBlock \<Longrightarrow>
    read_run ops request ll1 ms ll' \<Longrightarrow> read_run ops request ll ms ll'"
| msg: "read_from_socket ops request ll = (Inr (Complete m), ll1) \<Longrightarrow>
    read_run ops request ll1 ms ll' \<Longrightarrow> read_run ops request ll (m # ms) ll'"

text \<open>Enqueueing messages for writing, one after the other.\<close>

fun write_all :: "'ns noise_ops \<Rightarrow> bytes list \<Rightarrow> 'ns low_level \<Rightarrow> unit result \<times> 'ns low_level" where
  "write_all ops [] ll = (Inr (), ll)"
| "write_all ops (m # ms) ll = (case write_to_socket ops m ll of
     (Inl e, ll') \<Rightarrow> (Inl e, ll')
   | (Inr _, ll') \<Rightarrow> write_all ops ms ll')"

fun decrypt_all :: "'ns noise_ops \<Rightarrow> bytes list \<Rightarrow> 'ns \<Rightarrow> (bytes list \<times> 'ns) option" where
  "decrypt_all ops [] ns = Some ([], ns)"
| "decrypt_all ops (c # cs) ns = (case decrypt_bytes ops c ns of
     (Inl e, ns') \<Rightarrow> None
   | (Inr m, ns') \<Rightarrow> map_option (apfst (Cons m)) (decrypt_all ops cs ns'))"

lemma decrypt_all_append:
  "decrypt_all ops (cs @ ds) ns = Some (ms, ns') \<Longrightarrow> decrypt_all ops cs ns = Some (got, ns1) \<Longrightarrow>
   \<exists>rest. ms = got @ rest \<and> length rest = length ds"
proof (induction ops cs ns arbitrary: ms got rule: decrypt_all.induct)
  case (1 ops ns)
  have "decrypt_all ops ds ns = Some (ms, ns') \<Longrightarrow> length ms = length ds" for ns ms
    by (induction ops ds ns arbitrary: ms rule: decrypt_all.induct) (auto split: prod.splits sum.splits)
  with 1 show ?case by simp
next
  case (2 ops c cs ns)
  then show ?case by (fastforce split: prod.splits sum.splits)
qed

lemma decrypt_bytes_post:
  assumes "noise_in_place ops" "decrypt_bytes ops c ns = (r, ns')" "ns_post_handshake ops ns"
  shows "ns_post_handshake ops ns'"
proof -
  have "recv_chunks ops cs ns = (r, ns') \<Longrightarrow> ns_post_handshake ops ns \<Longrightarrow> ns_post_handshake ops ns'" for cs ns r
    using assms(1)
    by (induction ops cs ns arbitrary: r rule: recv_chunks.induct)
      (auto split: prod.splits sum.splits if_splits dest: noise_recv_post)
  with assms decrypt_bytes_ref [OF assms(1)] show ?thesis by metis
qed

lemma read_run_stream:
  assumes "noise_in_place ops"
  shows "read_run ops request ll ms ll' \<Longrightarrow> ll_wf ll \<Longrightarrow> ll_is_post_handshake ops ll \<Longrightarrow>
    ll_wf ll' \<and> (\<exists>cs. in_stream ll = concat (map frame cs) @ in_stream ll' \<and>
      list_all (\<lambda>c. 0 < length c \<and> length c \<le> unat PROTOCOL_MAX_MESSAGE_SIZE) cs \<and>
      decrypt_all ops cs (noise_session ll) = Some (ms, noise_session ll'))"
proof (induction rule: read_run.induct)
  case (stop ll)
  then show ?case by (auto intro: exI [of _ "[]"])
next
  case (more ll r ll1 ms ll')
  from read_from_socket_stream [OF more(5,6,1)] more(2)
  have "ll_wf ll1" "in_stream ll1 = in_stream ll" "noise_session ll1 = noise_session ll"
    by (auto simp: read_step_ok_def)
  with more show ?case by (simp add: ll_is_post_handshake_eq)
next
  case (msg ll m ll1 ms ll')
  from read_from_socket_stream [OF msg(4,5,1)]
  obtain c where c: "ll_wf ll1" "in_stream ll = frame c @ in_stream ll1" "0 < length c"
    "length c \<le> unat PROTOCOL_MAX_MESSAGE_SIZE"
    "decrypt_bytes ops c (noise_session ll) = (Inr m, noise_session ll1)"
    by (auto simp: read_step_ok_def)
  have "ll_is_post_handshake ops ll1"
    using decrypt_bytes_post [OF assms c(5)] msg(5) by (simp add: ll_is_post_handshake_eq)
  from msg.IH [OF c(1) this] obtain cs where
    "ll_wf ll'" "in_stream ll1 = concat (map frame cs) @ in_stream ll'"
    "list_all (\<lambda>c. 0 < length c \<and> length c \<le> unat PROTOCOL_MAX_MESSAGE_SIZE) cs"
    "decrypt_all ops cs (noise_session ll1) = Some (ms, noise_session ll')"
    by blast
  with c show ?case by (intro conjI exI [of _ "c # cs"]) simp_all
qed

lemma frame_header_inj:
  assumes "u32_to_be_bytes (word_of_nat n) @ x = u32_to_be_bytes (word_of_nat m) @ y"
    and "n < 2 ^ 32" "m < 2 ^ 32"
  shows "n = m \<and> x = y"
proof -
  have "u32_to_be_bytes (word_of_nat n) = u32_to_be_bytes (word_of_nat m)" and xy: "x = y"
    using assms(1) by (simp_all add: append_eq_append_conv)
  then have "(word_of_nat n :: u32) = word_of_nat m" by (metis option.inject u32_from_to_be_bytes)
  then have "unat (word_of_nat n :: u32) = unat (word_of_nat m :: u32)" by simp
  with assms(2,3) xy show ?thesis by (simp add: unat_of_nat take_bit_eq_mod)
qed

lemma PROTOCOL_MAX_value: "unat PROTOCOL_MAX_MESSAGE_SIZE = 20971520"
  by (simp add: PROTOCOL_MAX_MESSAGE_SIZE_def)

definition frame_ok :: "bytes \<Rightarrow> bool" where
  "frame_ok c \<longleftrightarrow> 0 < length c \<and> length c \<le> unat PROTOCOL_MAX_MESSAGE_SIZE"

text \<open>Frames are uniquely decodable.\<close>

lemma frames_prefix:
  "concat (map frame as) = concat (map frame bs) @ rest \<Longrightarrow> list_all frame_ok as \<Longrightarrow>
   list_all frame_ok bs \<Longrightarrow> \<exists>cs. as = bs @ cs \<and> rest = concat (map frame cs)"
proof (induction bs arbitrary: as)
  case (Cons b bs)
  have ne: "frame c \<noteq> []" for c by (simp add: frame_def flip: length_greater_0_conv)
  from Cons.prems(1) ne obtain a as' where as: "as = a # as'" by (cases as) auto
  have eq: "u32_to_be_bytes (word_of_nat (length a)) @ a @ concat (map frame as') =
      u32_to_be_bytes (word_of_nat (length b)) @ b @ concat (map frame bs) @ rest"
    using Cons.prems(1) by (simp add: as frame_def [of a] frame_def [of b])
  have "length a < 2 ^ 32" "length b < 2 ^ 32"
    using Cons.prems(2,3) by (simp_all add: as frame_ok_def PROTOCOL_MAX_value)
  from frame_header_inj [OF eq this] have "a = b"
    "concat (map frame as') = concat (map frame bs) @ rest"
    by (auto simp: append_eq_append_conv)
  with Cons.IH [of as'] Cons.prems(2,3) as show ?case by auto
qed simp

text \<open>A partial frame alone is not a sequence of frames.\<close>

lemma partial_frame_no_frames:
  assumes "im_wf im" "partial_frame im = concat (map frame cs)" "list_all frame_ok cs"
  shows "cs = []"
proof (cases cs)
  case (Cons c cs')
  have len4: "4 \<le> length (frame c)" by (simp add: frame_def)
  show ?thesis
  proof (cases "pending_bytes im = 0")
    case True
    then have "length (size_bytes im) \<ge> 4"
      using assms(2) len4 by (simp add: partial_frame_def Cons)
    with assms(1) show ?thesis by (simp add: im_wf_def PAYLOAD_SIZE_def)
  next
    case False
    let ?n = "length (in_message im) + pending_bytes im"
    have eq: "u32_to_be_bytes (word_of_nat ?n) @ in_message im =
        u32_to_be_bytes (word_of_nat (length c)) @ c @ concat (map frame cs')"
      using assms(2) False unfolding partial_frame_def Cons
      by (simp only: if_False list.map concat.simps frame_def [of c] append_assoc)
    have "?n < 2 ^ 32" "length c < 2 ^ 32"
      using assms(1,3) False by (simp_all add: im_wf_def Cons frame_ok_def PROTOCOL_MAX_value)
    from frame_header_inj [OF eq this] False show ?thesis by (auto simp: length_append)
  qed
qed simp

lemma write_all_stream:
  assumes "noise_in_place ops" "noise_paired ops R"
  shows "write_all ops ms s = (Inr u, s') \<Longrightarrow> R (noise_session s) b \<Longrightarrow>
    \<exists>cs b'. out_stream s' = out_stream s @ concat (map frame cs) \<and>
      map length cs = map (\<lambda>m. encrypted_len ops (length m)) ms \<and> decrypt_all ops cs b = Some (ms, b')"
proof (induction ms arbitrary: s b)
  case (Cons m ms)
  then obtain v s1 where w: "encrypt_and_enqueue ops m s = (Inr v, s1)" "write_all ops ms s1 = (Inr u, s')"
    by (auto simp: write_to_socket_def split: prod.splits sum.splits)
  from encrypt_and_enqueue_stream [OF assms(1) w(1)] obtain ds where
    ds: "send_chunks ops (chunks NOISE_MAX_PAYLOAD_LEN m) (noise_session s) = (Inr ds, noise_session s1)"
      "out_stream s1 = out_stream s @ frame (concat ds)"
    by blast
  from decrypt_encrypted [OF assms Cons.prems(2) ds(1)] obtain b1 where
    b1: "decrypt_bytes ops (concat ds) b = (Inr m, b1)" "R (noise_session s1) b1"
    by blast
  from Cons.IH [OF w(2) b1(2)] obtain cs b' where
    "out_stream s' = out_stream s1 @ concat (map frame cs)"
    "map length cs = map (\<lambda>m. encrypted_len ops (length m)) ms" "decrypt_all ops cs b1 = Some (ms, b')"
    by blast
  with ds b1 encrypted_len_total [OF assms(1) ds(1)] show ?case
    by (intro exI [of _ "concat ds # cs"] exI [of _ b']) simp
qed simp

lemma decrypt_all_prefix_ok:
  "decrypt_all ops (cs @ ds) ns = Some r \<Longrightarrow> \<exists>got ns1. decrypt_all ops cs ns = Some (got, ns1)"
  by (induction ops cs ns arbitrary: r rule: decrypt_all.induct)
    (fastforce split: prod.splits sum.splits)+

section \<open>Properties\<close>

text \<open>(C8) What one end of a connection writes is what the other end reads, in order and complete,
  however the byte stream is cut into socket writes and reads.  If messages are enqueued at one
  end, and the bytes that this end has for the socket are the input of the other end, whose noise
  session is paired with it, then at any time the messages read are a prefix of the messages
  enqueued, and when no input is left unread, they are all of them.\<close>

theorem transport_delivers:
  assumes noise: "noise_in_place ops" "noise_paired ops R" "R (noise_session s) (noise_session r)"
    and sizes: "\<forall>m \<in> set ms. m \<noteq> [] \<and> encrypted_len ops (length m) \<le> unat PROTOCOL_MAX_MESSAGE_SIZE"
    and sent: "write_all ops ms s = (Inr (), s')"
    and recv: "ll_wf r" "ll_is_post_handshake ops r" "out_stream s @ in_stream r = out_stream s'"
    and run: "read_run ops request r got r'"
  shows "\<exists>rest. ms = got @ rest \<and> (unread r' = [] \<longrightarrow> rest = [])"
proof -
  obtain cs b' where cs: "out_stream s' = out_stream s @ concat (map frame cs)"
    "map length cs = map (\<lambda>m. encrypted_len ops (length m)) ms"
    "decrypt_all ops cs (noise_session r) = Some (ms, b')"
    using write_all_stream [OF noise(1,2) sent noise(3)] by blast
  obtain ds where ds: "in_stream r = concat (map frame ds) @ in_stream r'" "ll_wf r'"
    "list_all frame_ok ds" "decrypt_all ops ds (noise_session r) = Some (got, noise_session r')"
    using read_run_stream [OF noise(1) run recv(1,2)] unfolding frame_ok_def by blast
  have "0 < encrypted_len ops n" if "0 < n" for n
    using that by (cases "n mod NOISE_MAX_PAYLOAD_LEN = 0")
      (auto simp: encrypted_len_def Let_def noise_lens)
  with sizes have "\<forall>n \<in> set (map length cs). 0 < n \<and> n \<le> unat PROTOCOL_MAX_MESSAGE_SIZE"
    unfolding cs(2) by auto
  then have ok: "list_all frame_ok cs" by (auto simp: list_all_iff frame_ok_def)
  have "concat (map frame cs) = concat (map frame ds) @ in_stream r'"
    using cs(1) ds(1) recv(3) by simp
  from frames_prefix [OF this ok ds(3)] obtain es where
    es: "cs = ds @ es" "in_stream r' = concat (map frame es)" by blast
  with cs(3) ds(4) decrypt_all_append [of ops ds es] obtain rest where
    rest: "ms = got @ rest" "length rest = length es" by metis
  have "es = []" if "unread r' = []"
    using partial_frame_no_frames [of "incoming_msg r'" es] es ok ds(2) that
    by (simp add: in_stream_def ll_wf_def)
  with rest show ?thesis by auto
qed

text \<open>A package that meets the two laws, and two ends of a connection whose messages arrive in two
  parts.\<close>

definition plain_noise :: "(bool \<times> nat) noise_ops" where
  "plain_noise = \<lparr>ns_DHLEN = 32, ns_MAC_LENGTH = 16, ns_init_session = (\<lambda>i. (i, 0)),
     ns_is_initiator = fst, ns_get_message_count = snd,
     ns_send_message = (\<lambda>m ns. (Inr m, apsnd Suc ns)), ns_recv_message = (\<lambda>m ns. (Inr m, apsnd Suc ns))\<rparr>"

definition example_end :: "read_event list \<Rightarrow> (bool \<times> nat) low_level" where
  "example_end es =
     \<lparr>ll_socket = \<lparr>sock_in = es, sock_script = [], sock_sent = [], sock_option_error = None\<rparr>,
      noise_session = (True, 2), socket_buffer = socket_buffer_new 24,
      incoming_msg = incoming_message_default, output_queue = [], write_size = 64,
      is_writable = False, is_initialized = True, so_linger = None\<rparr>"

lemma plain_noise_lawful: "noise_in_place plain_noise" "noise_paired plain_noise (\<lambda>_ _. True)"
  by (auto simp: noise_in_place_def noise_paired_def plain_noise_def NOISE_AUTH_TAG_LEN_def)

definition example_frame :: bytes where
  "example_frame = [0, 0, 0, 19, 1, 2, 3] @ replicate 16 0"

lemma example_header: "u32_to_be_bytes 19 = [0, 0, 0, 19]" "u32_from_be_bytes [0, 0, 0, 19] = Some 19"
proof -
  have four: "(4 :: nat) = Suc (Suc (Suc (Suc 0)))" by simp
  show header: "u32_to_be_bytes 19 = [0, 0, 0, 19]"
    unfolding u32_to_be_bytes_def four by simp
  show "u32_from_be_bytes [0, 0, 0, 19] = Some 19"
    using u32_from_to_be_bytes [of 19] by (simp only: header)
qed

lemma example_write:
  "write_all plain_noise [[1, 2, 3]] (example_end []) =
     (Inr (), (example_end [])\<lparr>noise_session := (True, 3), output_queue := example_frame\<rparr>)"
proof -
  have len: "encrypted_len plain_noise (Suc (Suc (Suc 0))) = 19"
    by (simp add: encrypted_len_def plain_noise_def noise_lens)
  have "encrypt_loop plain_noise [1, 2, 3] ((example_end [])\<lparr>output_queue := [0, 0, 0, 19]\<rparr>) =
      (Inr (), (example_end [])\<lparr>noise_session := (True, 3), output_queue := example_frame\<rparr>)"
    by (subst encrypt_loop.simps)
      (simp add: encrypt_chunk_def plain_noise_def example_end_def example_frame_def noise_lens
        encrypt_loop.simps [of _ "[]"])
  then show ?thesis
    by (simp add: write_to_socket_def encrypt_and_enqueue_def len example_header example_end_def)
qed

definition example_input :: "read_event list" where
  "example_input = [Data [0, 0, 0, 19, 1], Read_blocked, Data ([2, 3] @ replicate 16 0)]"

lemma example_read:
  "\<exists>r'. read_run plain_noise (Inr []) (example_end example_input) [[1, 2, 3]] r' \<and> unread r' = []"
proof -
  let ?e = "example_end example_input"
  let ?s = "\<lambda>es. (ll_socket ?e)\<lparr>sock_in := es\<rparr>"
  let ?d = "Data ([2, 3] @ replicate 16 0)"
  let ?b1 = "\<lparr>sb_buf = [0, 0, 0, 19, 1] @ replicate 19 0, sb_offset = 0, sb_remaining = 0\<rparr>"
  let ?im = "\<lparr>size_bytes = [], pending_bytes = 18, in_message = [1]\<rparr>"
  let ?l1 = "?e\<lparr>ll_socket := ?s [Read_blocked, ?d], socket_buffer := ?b1, incoming_msg := ?im\<rparr>"
  let ?l2 = "?l1\<lparr>ll_socket := ?s [?d]\<rparr>"
  let ?b3 = "\<lparr>sb_buf = [2, 3] @ replicate 22 0, sb_offset = 0, sb_remaining = 0\<rparr>"
  let ?l3 = "?l2\<lparr>ll_socket := ?s [], socket_buffer := ?b3, noise_session := (True, 3),
      incoming_msg := \<lparr>size_bytes = [], pending_bytes = 0, in_message = []\<rparr>\<rparr>"
  note defs = example_end_def example_input_def read_from_socket_def read_buffered_def sock_read_def
    is_exhausted_def sb_write_def sb_slice_def sb_shift_def attempt_to_read_length_def
    process_incoming_msg_def socket_buffer_new_def incoming_message_default_def PAYLOAD_SIZE_def
    ll_is_post_handshake_def HANDSHAKE_SIZE_LIMIT_def PROTOCOL_MAX_MESSAGE_SIZE_def plain_noise_def
  have s1: "read_from_socket plain_noise (Inr []) ?e = (Inr Incomplete, ?l1)"
    by (simp add: defs Let_def example_header)
  have s2: "read_from_socket plain_noise (Inr []) ?l1 = (Inr WouldBlock, ?l2)"
    by (simp add: defs Let_def)
  have s3: "read_from_socket plain_noise (Inr []) ?l2 = (Inr (Complete [1, 2, 3]), ?l3)"
    by (simp add: defs Let_def decrypt_def decrypt_bytes_def decrypt_chunk_def cursor_write_def
        noise_lens replicate_add [symmetric])
  have "read_run plain_noise (Inr []) ?e [[1, 2, 3]] ?l3"
    by (rule read_run.more [OF s1 _ read_run.more [OF s2 _ read_run.msg [OF s3 read_run.stop]]]) simp_all
  moreover have "unread ?l3 = []" by (simp add: unread_def sb_unread_def)
  ultimately show ?thesis by blast
qed

theorem transport_delivers_witness:
  "\<exists>s' r' got. write_all plain_noise [[1, 2, 3]] (example_end []) = (Inr (), s') \<and>
     in_stream (example_end example_input) = out_stream s' \<and>
     read_run plain_noise (Inr []) (example_end example_input) got r' \<and> unread r' = [] \<and> got = [[1, 2, 3]]"
proof -
  obtain r' where r': "read_run plain_noise (Inr []) (example_end example_input) [[1, 2, 3]] r'" "unread r' = []"
    using example_read by blast
  let ?s' = "(example_end [])\<lparr>noise_session := (True, 3), output_queue := example_frame\<rparr>"
  have eq: "out_stream (example_end []) @ in_stream (example_end example_input) = out_stream ?s'"
    by (simp add: out_stream_def in_stream_def unread_def sb_unread_def partial_frame_def example_end_def
        example_input_def example_frame_def socket_buffer_new_def incoming_message_default_def)
  have "encrypted_len plain_noise (Suc (Suc (Suc 0))) \<le> unat PROTOCOL_MAX_MESSAGE_SIZE"
    by (simp add: encrypted_len_def plain_noise_def noise_lens PROTOCOL_MAX_value)
  then have sizes: "\<forall>m \<in> set [[1, 2, 3 :: u8]]. m \<noteq> [] \<and>
      encrypted_len plain_noise (length m) \<le> unat PROTOCOL_MAX_MESSAGE_SIZE"
    by simp
  have wf: "ll_wf (example_end example_input)" "ll_is_post_handshake plain_noise (example_end example_input)"
    by (simp_all add: ll_wf_def sb_wf_def im_wf_def example_end_def socket_buffer_new_def
        incoming_message_default_def PAYLOAD_SIZE_def ll_is_post_handshake_def plain_noise_def)
  from transport_delivers [OF plain_noise_lawful TrueI sizes example_write wf eq r'(1)] r' example_write eq
  show ?thesis by (auto simp: out_stream_def example_end_def)
qed

text \<open>(C9) Decryption in place, which moves every decrypted chunk to the front of the buffer that
  the next chunks are still read from, computes the concatenation of the decrypted chunks, with
  the same errors and the same effect on the noise session.\<close>

theorem decrypt_in_place_correct:
  assumes "noise_in_place ops"
  shows "decrypt_bytes ops msg ns = recv_chunks ops (chunks NOISE_MAX_MESSAGE_LEN msg) ns"
  by (rule decrypt_bytes_ref [OF assms])

theorem decrypt_in_place_correct_witness:
  "decrypt_bytes plain_noise [1, 2] (True, 2) =
     recv_chunks plain_noise (chunks NOISE_MAX_MESSAGE_LEN [1, 2]) (True, 2)"
  by (rule decrypt_in_place_correct [OF plain_noise_lawful(1)])



end
