(* ===== verification/Wire_Format.thy ===== *)
theory Wire_Format
  imports Peer_Types "HOL-Library.Countable"
begin

text \<open>
  Serialisation of network messages, \<open>network/serialization/fbs.rs\<close>.

  The flatbuffers package and the accessors generated from \<open>schema.fbs\<close> are outside the
  repository's sources.  The records below are the tables of the schema as its accessors show
  them: an open enumeration is its \<open>u8\<close>, a field that may be missing is an option, a union is a
  datatype.  Writing a finished buffer and reading its root are fields of the parameter
  \<open>fb_env\<close>; a mangled buffer may make the accessors panic, which is an error of
  \<open>fb_root\<close>.  A \<open>str\<close> is its UTF-8 bytes; parsing and printing a version is the
  \<open>semver\<close> package, reading a block hash is \<open>concordium_base\<close>.
\<close>

section \<open>Tables of the schema\<close>

record fb_destination =
  fd_variant :: u8
  fd_target :: u64

record fb_packet =
  fp_destination :: "fb_destination option"
  fp_network_id :: u16
  fp_payload :: "bytes option"

record fb_handshake =
  fh_version :: u8
  fh_node_id :: u64
  fh_port :: u16
  fh_network_ids :: "u16 list option"
  fh_node_version :: "bytes option option"
  fh_wire_versions :: "bytes option"
  fh_genesis_blocks :: "bytes option list option"
  fh_zk :: "bytes option"

datatype fb_request_payload =
    Req_network_ids "u16 list option"
  | Req_handshake fb_handshake
  | Req_network_id u16

record fb_request =
  fq_variant :: u8
  fq_payload :: "fb_request_payload option"

record fb_ip_addr =
  fi_variant :: u8
  fi_octets :: "bytes option"

record fb_peer =
  fe_id :: u64
  fe_addr :: "fb_ip_addr option"
  fe_port :: u16
  fe_variant :: u8

record fb_response =
  fr_variant :: u8
  fr_peer_list :: "fb_peer list option option"

datatype fb_payload =
    Fb_packet fb_packet
  | Fb_request fb_request
  | Fb_response fb_response

record fb_message =
  fm_timestamp :: u64
  fm_payload_type :: u8
  fm_payload :: "fb_payload option"

record fb_env =
  fb_finish :: "fb_message \<Rightarrow> bytes"
  fb_has_identifier :: "bytes \<Rightarrow> bool"
  fb_root :: "bytes \<Rightarrow> fb_message result"
  version_to_string :: "version \<Rightarrow> bytes"
  version_parse :: "bytes \<Rightarrow> version result"
  block_hash_try_from :: "bytes \<Rightarrow> block_hash result"

section \<open>UTF-8\<close>

text \<open>\<open>std::str::from_utf8\<close>: the well-formed byte sequences of the Unicode standard.\<close>

definition between :: "u8 \<Rightarrow> u8 \<Rightarrow> u8 \<Rightarrow> bool" where
  "between lo hi b \<longleftrightarrow> lo \<le> b \<and> b \<le> hi"

abbreviation continuation :: "u8 \<Rightarrow> bool" where
  "continuation \<equiv> between 0x80 0xBF"

text \<open>How many bytes the first character takes, if it is well-formed.\<close>

definition utf8_head :: "bytes \<Rightarrow> nat option" where
  "utf8_head bs = (case bs of
     [] \<Rightarrow> None
   | b # rest \<Rightarrow>
       if b \<le> 0x7F then Some 1
       else if between 0xC2 0xDF b then
         (case rest of c # _ \<Rightarrow> if continuation c then Some 2 else None | _ \<Rightarrow> None)
       else if between 0xE0 0xEF b then
         (case rest of
            c # d # _ \<Rightarrow>
              if (if b = 0xE0 then between 0xA0 0xBF c
                  else if b = 0xED then between 0x80 0x9F c else continuation c) \<and> continuation d
              then Some 3 else None
          | _ \<Rightarrow> None)
       else if between 0xF0 0xF4 b then
         (case rest of
            c # d # e # _ \<Rightarrow>
              if (if b = 0xF0 then between 0x90 0xBF c
                  else if b = 0xF4 then between 0x80 0x8F c else continuation c) \<and>
                continuation d \<and> continuation e
              then Some 4 else None
          | _ \<Rightarrow> None)
       else None)"

lemma utf8_head_pos: "utf8_head bs = Some n \<Longrightarrow> 0 < n \<and> bs \<noteq> []"
  by (auto simp: utf8_head_def split: list.splits if_splits)

function utf8_valid :: "bytes \<Rightarrow> bool" where
  "utf8_valid bs = (if bs = [] then True
     else (case utf8_head bs of None \<Rightarrow> False | Some n \<Rightarrow> utf8_valid (drop n bs)))"
  by pat_completeness auto

termination
  by (relation "measure length") (auto dest: utf8_head_pos)

declare utf8_valid.simps [simp del]

definition from_utf8 :: "bytes \<Rightarrow> bytes result" where
  "from_utf8 bs = (if utf8_valid bs then Inr bs else Inl (Bail ''invalid utf-8''))"

section \<open>Serialisation\<close>

definition HANDSHAKE_MESSAGE_VERSION :: u8 where
  "HANDSHAKE_MESSAGE_VERSION = 0"

definition serialize_packet :: "network_packet \<Rightarrow> fb_packet" where
  "serialize_packet p =
     \<lparr>fp_destination = Some (case destination p of
          Direct target_id \<Rightarrow> \<lparr>fd_variant = 0, fd_target = remote_peer_id_val target_id\<rparr>
        | Broadcast _ \<Rightarrow> \<lparr>fd_variant = 1, fd_target = 0\<rparr>),
      fp_network_id = network_id_val (packet_network_id p),
      fp_payload = Some (message p)\<rparr>"

text \<open>A vector is built back to front: the networks are pushed in iteration order, so they come out
  reversed; everything else is pushed in reverse.\<close>

definition push_all :: "'a list \<Rightarrow> 'a list" where
  "push_all xs = fold Cons xs []"

definition serialize_handshake :: "fb_env \<Rightarrow> handshake \<Rightarrow> fb_handshake" where
  "serialize_handshake env h =
     \<lparr>fh_version = 0,
      fh_node_id = as_raw (remote_id h),
      fh_port = remote_port h,
      fh_network_ids = Some (push_all (map network_id_val (hs_networks h))),
      fh_node_version = Some (Some (push_all (rev (version_to_string env (node_version h))))),
      fh_wire_versions = Some (push_all (rev (wire_versions h))),
      fh_genesis_blocks = Some (push_all (rev (map (\<lambda>x. Some (push_all (rev x))) (genesis_blocks h)))),
      fh_zk = None\<rparr>"

definition serialize_request :: "fb_env \<Rightarrow> network_request \<Rightarrow> fb_request" where
  "serialize_request env q = (case q of
     Ping \<Rightarrow> \<lparr>fq_variant = 0, fq_payload = None\<rparr>
   | GetPeers nets \<Rightarrow>
       \<lparr>fq_variant = 1, fq_payload = Some (Req_network_ids (Some (push_all (map network_id_val nets))))\<rparr>
   | Handshake h \<Rightarrow> \<lparr>fq_variant = 2, fq_payload = Some (Req_handshake (serialize_handshake env h))\<rparr>
   | JoinNetwork i \<Rightarrow> \<lparr>fq_variant = 5, fq_payload = Some (Req_network_id (network_id_val i))\<rparr>
   | LeaveNetwork i \<Rightarrow> \<lparr>fq_variant = 6, fq_payload = Some (Req_network_id (network_id_val i))\<rparr>)"

primrec ip_octets :: "ip_addr \<Rightarrow> bytes" where
  "ip_octets (V4 w) = nat_to_be 4 (unat w)"
| "ip_octets (V6 w) = nat_to_be 16 (unat w)"

definition serialize_peer :: "p2p_peer \<Rightarrow> fb_peer" where
  "serialize_peer p =
     \<lparr>fe_id = as_raw (pp_id p),
      fe_addr = Some \<lparr>fi_variant = (case sa_ip (pp_addr p) of V4 _ \<Rightarrow> 0 | V6 _ \<Rightarrow> 1),
                      fi_octets = Some (push_all (rev (ip_octets (sa_ip (pp_addr p)))))\<rparr>,
      fe_port = sa_port (pp_addr p),
      fe_variant = (case pp_peer_type p of Node \<Rightarrow> 0 | Bootstrapper \<Rightarrow> 1)\<rparr>"

definition serialize_response :: "network_response \<Rightarrow> fb_response" where
  "serialize_response r = (case r of
     Pong \<Rightarrow> \<lparr>fr_variant = 0, fr_peer_list = None\<rparr>
   | PeerList ps \<Rightarrow> \<lparr>fr_variant = 1, fr_peer_list = Some (Some (map serialize_peer ps))\<rparr>)"

text \<open>\<open>NetworkMessage::serialize\<close>; the time stamp is that of the serialisation.\<close>

definition serialize :: "fb_env \<Rightarrow> u64 \<Rightarrow> network_message \<Rightarrow> bytes result" where
  "serialize env now m =
     (let (ty, pl) = (case net_payload m of
          NetworkPacket p \<Rightarrow> (1, Fb_packet (serialize_packet p))
        | NetworkRequest q \<Rightarrow> (2, Fb_request (serialize_request env q))
        | NetworkResponse r \<Rightarrow> (3, Fb_response (serialize_response r))) in
      Inr (fb_finish env \<lparr>fm_timestamp = now, fm_payload_type = ty, fm_payload = Some pl\<rparr>))"

section \<open>Deserialisation\<close>

definition deserialize_packet :: "fb_message \<Rightarrow> network_payload result" where
  "deserialize_packet root = (case fm_payload root of
     Some (Fb_packet p) \<Rightarrow>
       (case (case fp_destination p of
          None \<Rightarrow> Inl (Bail ''missing direction on network packet'')
        | Some d \<Rightarrow>
            if fd_variant d = 0 then Inr (Direct (RemotePeerId (fd_target d)))
            else if fd_variant d = 1 then Inr (Broadcast [])
            else Inl (Bail ''Unsupported destination'')) of
          Inl e \<Rightarrow> Inl e
        | Inr dst \<Rightarrow>
            (case fp_payload p of
               None \<Rightarrow> Inl (Bail ''missing packet payload'')
             | Some bs \<Rightarrow> Inr (NetworkPacket \<lparr>destination = dst,
                 packet_network_id = NetworkId (fp_network_id p), message = bs\<rparr>)))
   | _ \<Rightarrow> Inl (Bail ''missing network message payload (expected a packet)''))"

text \<open>\<open>collect\<close> into a hash set, and into a vector of results.\<close>

definition collect_networks :: "u16 list \<Rightarrow> networks" where
  "collect_networks ids = hs_extend [] (map NetworkId ids)"

fun collect_results :: "'a result list \<Rightarrow> 'a list result" where
  "collect_results [] = Inr []"
| "collect_results (Inl e # rs) = Inl e"
| "collect_results (Inr x # rs) = (case collect_results rs of Inl e \<Rightarrow> Inl e | Inr xs \<Rightarrow> Inr (x # xs))"

definition deserialize_handshake :: "fb_env \<Rightarrow> fb_handshake \<Rightarrow> handshake result" where
  "deserialize_handshake env h =
     (case fh_network_ids h of
        None \<Rightarrow> Inl (Bail ''missing network ids in a Handshake'')
      | Some nets \<Rightarrow>
     (case (case fh_node_version h of
              Some (Some v) \<Rightarrow>
                (case from_utf8 v of Inl e \<Rightarrow> Inl e | Inr s \<Rightarrow> version_parse env s)
            | _ \<Rightarrow> Inl (Bail ''missing node version in a Handshake'')) of
        Inl e \<Rightarrow> Inl e
      | Inr ver \<Rightarrow>
     (case fh_wire_versions h of
        None \<Rightarrow> Inl (Bail ''missing wire version in a Handshake'')
      | Some wvs \<Rightarrow>
     (case (case fh_genesis_blocks h of
              None \<Rightarrow> Inl (Bail ''missing genesis blocks in a Handshake'')
            | Some gs \<Rightarrow> collect_results (map (\<lambda>g. case g of
                 None \<Rightarrow> Inl (Bail ''Missing block hash'')
               | Some bh \<Rightarrow> block_hash_try_from env bh) gs)) of
        Inl e \<Rightarrow> Inl e
      | Inr gens \<Rightarrow>
          Inr \<lparr>remote_id = P2PNodeId (fh_node_id h), remote_port = fh_port h,
               hs_networks = collect_networks nets, node_version = ver, wire_versions = wvs,
               genesis_blocks = gens, hs_proof = []\<rparr>))))"

definition deserialize_request :: "fb_env \<Rightarrow> fb_message \<Rightarrow> network_payload result" where
  "deserialize_request env root = (case fm_payload root of
     Some (Fb_request q) \<Rightarrow>
       if fq_variant q = 0 then Inr (NetworkRequest Ping)
       else if fq_variant q = 1 then
         (case fq_payload q of
            Some (Req_network_ids (Some ids)) \<Rightarrow> Inr (NetworkRequest (GetPeers (collect_networks ids)))
          | _ \<Rightarrow> Inl (Bail ''missing network ids in a GetPeers request''))
       else if fq_variant q = 2 then
         (case fq_payload q of
            Some (Req_handshake h) \<Rightarrow>
              (case deserialize_handshake env h of
                 Inl e \<Rightarrow> Inl e | Inr h' \<Rightarrow> Inr (NetworkRequest (Handshake h')))
          | _ \<Rightarrow> Inl (Bail ''missing handshake payload''))
       else if fq_variant q = 5 \<or> fq_variant q = 6 then
         (case fq_payload q of
            Some (Req_network_id i) \<Rightarrow>
              Inr (NetworkRequest (if fq_variant q = 5 then JoinNetwork (NetworkId i)
                                   else LeaveNetwork (NetworkId i)))
          | _ \<Rightarrow> Inl (Bail ''missing network id in a join/leave network request''))
       else Inl (Bail ''Unsupported request variant'')
   | _ \<Rightarrow> Inl (Bail ''missing network message payload (expected a request)''))"

text \<open>\<open>read_exact\<close> into a fixed array: an I/O error when the vector is shorter.\<close>

definition read_exact :: "nat \<Rightarrow> bytes \<Rightarrow> bytes result" where
  "read_exact n bs =
     (if length bs < n then Inl (Io_error ''failed to fill whole buffer'') else Inr (take n bs))"

definition deserialize_peer :: "fb_peer \<Rightarrow> p2p_peer result" where
  "deserialize_peer p =
     (case (case fe_addr p of
        None \<Rightarrow> Inl (Bail ''missing peer address in a PeerList response'')
      | Some a \<Rightarrow>
          (case fi_octets a of
             None \<Rightarrow> Inl (Bail ''missing peer ip in a PeerList response'')
           | Some ip \<Rightarrow>
               if fi_variant a = 0 then
                 (case read_exact 4 ip of Inl e \<Rightarrow> Inl e
                  | Inr o4 \<Rightarrow> Inr (socket_addr_new (V4 (word_of_nat (be_value o4))) (fe_port p)))
               else if fi_variant a = 1 then
                 (case read_exact 16 ip of Inl e \<Rightarrow> Inl e
                  | Inr o16 \<Rightarrow> Inr (socket_addr_new (V6 (word_of_nat (be_value o16))) (fe_port p)))
               else Inl (Bail ''Unsupported IP variant''))) of
        Inl e \<Rightarrow> Inl e
      | Inr a \<Rightarrow>
          if fe_variant p = 0
          then Inr \<lparr>pp_id = P2PNodeId (fe_id p), pp_addr = a, pp_peer_type = Node\<rparr>
          else if fe_variant p = 1
          then Inr \<lparr>pp_id = P2PNodeId (fe_id p), pp_addr = a, pp_peer_type = Bootstrapper\<rparr>
          else Inl (Bail ''Unsupported peer variant''))"

definition deserialize_response :: "fb_message \<Rightarrow> network_payload result" where
  "deserialize_response root = (case fm_payload root of
     Some (Fb_response r) \<Rightarrow>
       if fr_variant r = 0 then Inr (NetworkResponse Pong)
       else if fr_variant r = 1 then
         (case fr_peer_list r of
            Some (Some ps) \<Rightarrow>
              (case collect_results (map deserialize_peer ps) of
                 Inl e \<Rightarrow> Inl e | Inr l \<Rightarrow> Inr (NetworkResponse (PeerList l)))
          | _ \<Rightarrow> Inl (Bail ''missing peers in a PeerList response''))
       else Inl (Bail ''Unsupported response variant'')
   | _ \<Rightarrow> Inl (Bail ''missing network message payload (expected a response)''))"

text \<open>\<open>_deserialize\<close>, and \<open>NetworkMessage::deserialize\<close>, which turns a panic into an
  error.\<close>

definition deserialize_inner :: "fb_env \<Rightarrow> u64 \<Rightarrow> bytes \<Rightarrow> network_message result" where
  "deserialize_inner env now buffer =
     (if length buffer < 12 then Inl (Bail ''the buffer is too small'')
      else if \<not> fb_has_identifier env buffer then Inl (Bail ''unrecognized protocol name'')
      else (case fb_root env buffer of
        Inl e \<Rightarrow> Inl e
      | Inr root \<Rightarrow>
          (case (if fm_payload_type root = 1 then deserialize_packet root
                 else if fm_payload_type root = 2 then deserialize_request env root
                 else if fm_payload_type root = 3 then deserialize_response root
                 else Inl (Bail ''invalid network message payload type'')) of
             Inl e \<Rightarrow> Inl e
           | Inr pl \<Rightarrow> Inr \<lparr>created = fm_timestamp root, received = Some now, net_payload = pl\<rparr>)))"

definition deserialize :: "fb_env \<Rightarrow> u64 \<Rightarrow> bytes \<Rightarrow> network_message result" where
  "deserialize env now buffer = (case deserialize_inner env now buffer of
     Inl (Panic _) \<Rightarrow> Inl (Bail ''caught a panic: received a mangled buffer'')
   | r \<Rightarrow> r)"

section \<open>Laws of the packages\<close>

definition fb_lawful :: "fb_env \<Rightarrow> bool" where
  "fb_lawful env \<longleftrightarrow>
     (\<forall>t. fb_root env (fb_finish env t) = Inr t \<and> fb_has_identifier env (fb_finish env t) \<and>
          12 \<le> length (fb_finish env t)) \<and>
     (\<forall>v. version_parse env (version_to_string env v) = Inr v \<and> utf8_valid (version_to_string env v)) \<and>
     (\<forall>h. length h = 32 \<longrightarrow> block_hash_try_from env h = Inr h)"

text \<open>What a message loses on the wire: the peers excluded from a broadcast and the proof of a
  handshake; the networks come back in reverse order.\<close>

definition norm_packet :: "network_packet \<Rightarrow> network_packet" where
  "norm_packet p = p\<lparr>destination := (case destination p of
     Direct i \<Rightarrow> Direct i | Broadcast _ \<Rightarrow> Broadcast [])\<rparr>"

definition norm_handshake :: "handshake \<Rightarrow> handshake" where
  "norm_handshake h = h\<lparr>hs_networks := rev (hs_networks h), hs_proof := []\<rparr>"

definition norm_request :: "network_request \<Rightarrow> network_request" where
  "norm_request q = (case q of
     GetPeers nets \<Rightarrow> GetPeers (rev nets) | Handshake h \<Rightarrow> Handshake (norm_handshake h) | _ \<Rightarrow> q)"

definition norm_payload :: "network_payload \<Rightarrow> network_payload" where
  "norm_payload pl = (case pl of
     NetworkPacket p \<Rightarrow> NetworkPacket (norm_packet p)
   | NetworkRequest q \<Rightarrow> NetworkRequest (norm_request q)
   | NetworkResponse r \<Rightarrow> NetworkResponse r)"

text \<open>A set of networks has no duplicates, a block hash has 32 bytes.\<close>

definition handshake_wf :: "handshake \<Rightarrow> bool" where
  "handshake_wf h \<longleftrightarrow> distinct (hs_networks h) \<and> (\<forall>b \<in> set (genesis_blocks h). length b = 32)"

definition request_wf :: "network_request \<Rightarrow> bool" where
  "request_wf q = (case q of GetPeers nets \<Rightarrow> distinct nets | Handshake h \<Rightarrow> handshake_wf h | _ \<Rightarrow> True)"

definition payload_wf :: "network_payload \<Rightarrow> bool" where
  "payload_wf pl = (case pl of NetworkRequest q \<Rightarrow> request_wf q | _ \<Rightarrow> True)"

section \<open>Lemmas\<close>

lemma push_all_rev [simp]: "push_all xs = rev xs"
  by (simp add: push_all_def fold_Cons_rev)

lemma collect_results_Inr [simp]: "collect_results (map (\<lambda>x. Inr (f x)) xs) = Inr (map f xs)"
  by (induction xs) simp_all

lemma collect_results_cong:
  "(\<And>x. x \<in> set xs \<Longrightarrow> f x = Inr (g x)) \<Longrightarrow> collect_results (map f xs) = Inr (map g xs)"
  by (induction xs) simp_all

lemma hs_extend_distinct: "distinct (s @ xs) \<Longrightarrow> hs_extend s xs = s @ xs"
  by (induction xs arbitrary: s) (auto simp: hs_extend_def hs_insert_def)

lemma collect_networks_rev [codec_simps]:
  "distinct nets \<Longrightarrow> collect_networks (rev (map network_id_val nets)) = rev nets"
  by (simp add: collect_networks_def rev_map [symmetric] comp_def hs_extend_distinct)

lemma word_of_be_value_V4 [codec_simps]:
  "word_of_nat (be_value (nat_to_be 4 (unat w))) = (w :: u32)"
  using unsigned_less [of w, where ?'a = nat] by simp

lemma word_of_be_value_V6 [codec_simps]:
  "word_of_nat (be_value (nat_to_be 16 (unat w))) = (w :: 128 word)"
  using unsigned_less [of w, where ?'a = nat] by simp

lemma deserialize_serialize_peer [codec_simps]: "deserialize_peer (serialize_peer p) = Inr p"
  by (cases "sa_ip (pp_addr p)"; cases "pp_peer_type p"; cases "pp_addr p"; cases p)
    (auto simp: deserialize_peer_def serialize_peer_def read_exact_def word_of_be_value_V4
      word_of_be_value_V6 simp del: be_value_nat_to_be)

lemma deserialize_serialize_handshake [codec_simps]:
  assumes "fb_lawful env" "handshake_wf h"
  shows "deserialize_handshake env (serialize_handshake env h) = Inr (norm_handshake h)"
proof -
  have "collect_results (map (\<lambda>x. block_hash_try_from env x) (genesis_blocks h)) =
      Inr (map (\<lambda>x. x) (genesis_blocks h))"
    using assms by (intro collect_results_cong) (simp add: fb_lawful_def handshake_wf_def)
  with assms show ?thesis
    by (simp add: deserialize_handshake_def serialize_handshake_def norm_handshake_def from_utf8_def
        fb_lawful_def handshake_wf_def collect_networks_rev comp_def)
qed

text \<open>The three kinds of payload, each with its serialiser and parser.\<close>

interpretation packet_codec: payload_codec
  "\<lambda>p. \<lparr>fm_timestamp = t, fm_payload_type = 1, fm_payload = Some (Fb_packet (serialize_packet p))\<rparr>"
  deserialize_packet "\<lambda>p. NetworkPacket (norm_packet p)" "\<lambda>_. True" for t
  by unfold_locales
    (simp add: deserialize_packet_def serialize_packet_def norm_packet_def split: packet_destination.splits)

interpretation response_codec: payload_codec
  "\<lambda>r. \<lparr>fm_timestamp = t, fm_payload_type = 3, fm_payload = Some (Fb_response (serialize_response r))\<rparr>"
  deserialize_response NetworkResponse "\<lambda>_. True" for t
  by unfold_locales
    (simp add: deserialize_response_def serialize_response_def codec_simps comp_def split: network_response.splits)

interpretation request_codec: payload_codec
  "\<lambda>q. \<lparr>fm_timestamp = t, fm_payload_type = 2, fm_payload = Some (Fb_request (serialize_request env q))\<rparr>"
  "deserialize_request env" "\<lambda>q. NetworkRequest (norm_request q)"
  "\<lambda>q. fb_lawful env \<and> request_wf q" for t env
  by unfold_locales
    (auto simp: deserialize_request_def serialize_request_def norm_request_def request_wf_def codec_simps
      split: network_request.splits)

lemma deserialize_inner_serialize:
  assumes "fb_lawful env" "payload_wf (net_payload m)" "serialize env now m = Inr bs"
  shows "deserialize_inner env now' bs =
    Inr \<lparr>created = now, received = Some now', net_payload = norm_payload (net_payload m)\<rparr>"
proof (cases "net_payload m")
  case (NetworkRequest q)
  with assms request_codec.dec_enc [of env q now] show ?thesis
    by (auto simp: serialize_def deserialize_inner_def fb_lawful_def payload_wf_def norm_payload_def not_less)
next
  case (NetworkResponse r)
  with assms response_codec.dec_enc [of now r] show ?thesis
    by (auto simp: serialize_def deserialize_inner_def fb_lawful_def norm_payload_def not_less)
next
  case (NetworkPacket p)
  with assms packet_codec.dec_enc [of now p] show ?thesis
    by (auto simp: serialize_def deserialize_inner_def fb_lawful_def norm_payload_def not_less)
qed

lemma deserialize_serialize:
  assumes "fb_lawful env" "payload_wf (net_payload m)" "serialize env now m = Inr bs"
  shows "deserialize env now' bs =
    Inr \<lparr>created = now, received = Some now', net_payload = norm_payload (net_payload m)\<rparr>"
  by (simp add: deserialize_def deserialize_inner_serialize [OF assms])

lemma deserialize_no_panic: "deserialize env now bs \<noteq> Inl (Panic s)"
  by (auto simp: deserialize_def split: sum.splits rust_error.splits)


section \<open>An instance of the packages\<close>

text \<open>Numberings of the tables, from which buffers and version strings are made: the number \<open>n\<close> is
  a string of \<open>n\<close> bytes.\<close>

type_synonym 'a coder = "('a \<Rightarrow> nat) \<times> (nat \<Rightarrow> 'a)"

definition coder_ok :: "'a coder \<Rightarrow> bool" where
  "coder_ok c \<longleftrightarrow> (\<forall>x. snd c (fst c x) = x)"

definition word_coder :: "('w :: len) word coder" where
  "word_coder = (unat, word_of_nat)"

definition char_coder :: "char coder" where
  "char_coder = (of_char, char_of)"

definition option_coder :: "'a coder \<Rightarrow> 'a option coder" where
  "option_coder c = (case_option 0 (\<lambda>x. Suc (fst c x)), case_nat None (\<lambda>n. Some (snd c n)))"

definition list_coder :: "'a coder \<Rightarrow> 'a list coder" where
  "list_coder c = (\<lambda>xs. list_encode (map (fst c) xs), \<lambda>n. map (snd c) (list_decode n))"

definition pair_coder :: "'a coder \<Rightarrow> 'b coder \<Rightarrow> ('a \<times> 'b) coder" where
  "pair_coder c d = (\<lambda>(x, y). prod_encode (fst c x, fst d y),
     \<lambda>n. case prod_decode n of (i, j) \<Rightarrow> (snd c i, snd d j))"

definition sum_coder :: "'a coder \<Rightarrow> 'b coder \<Rightarrow> ('a + 'b) coder" where
  "sum_coder c d = (\<lambda>x. sum_encode (map_sum (fst c) (fst d) x), \<lambda>n. map_sum (snd c) (snd d) (sum_decode n))"

definition iso_coder :: "('a \<Rightarrow> 'b) \<Rightarrow> ('b \<Rightarrow> 'a) \<Rightarrow> 'b coder \<Rightarrow> 'a coder" where
  "iso_coder f g c = (\<lambda>x. fst c (f x), \<lambda>n. g (snd c n))"

lemma coder_ok_intros:
  "coder_ok word_coder"
  "coder_ok char_coder"
  "coder_ok c \<Longrightarrow> coder_ok (option_coder c)"
  "coder_ok c \<Longrightarrow> coder_ok (list_coder c)"
  "coder_ok c \<Longrightarrow> coder_ok d \<Longrightarrow> coder_ok (pair_coder c d)"
  "coder_ok c \<Longrightarrow> coder_ok d \<Longrightarrow> coder_ok (sum_coder c d)"
  by (auto simp: coder_ok_def word_coder_def char_coder_def option_coder_def list_coder_def
      pair_coder_def sum_coder_def comp_def map_idI sum.map_comp sum.map_ident split: option.splits sum.splits)

lemma coder_ok_iso: "coder_ok c \<Longrightarrow> (\<And>x. g (f x) = x) \<Longrightarrow> coder_ok (iso_coder f g c)"
  by (simp add: coder_ok_def iso_coder_def)

definition packet_coder :: "fb_packet coder" where
  "packet_coder =
     iso_coder (\<lambda>p. (map_option (\<lambda>d. (fd_variant d, fd_target d)) (fp_destination p), fp_network_id p, fp_payload p))
       (\<lambda>(d, n, b). \<lparr>fp_destination = map_option (\<lambda>(v, t). \<lparr>fd_variant = v, fd_target = t\<rparr>) d,
          fp_network_id = n, fp_payload = b\<rparr>)
       (pair_coder (option_coder (pair_coder word_coder word_coder))
         (pair_coder word_coder (option_coder (list_coder word_coder))))"

definition handshake_coder :: "fb_handshake coder" where
  "handshake_coder =
     iso_coder (\<lambda>h. (fh_version h, fh_node_id h, fh_port h, fh_network_ids h, fh_node_version h,
         fh_wire_versions h, fh_genesis_blocks h, fh_zk h))
       (\<lambda>(a, b, c, d, e, f, g, z). \<lparr>fh_version = a, fh_node_id = b, fh_port = c, fh_network_ids = d,
         fh_node_version = e, fh_wire_versions = f, fh_genesis_blocks = g, fh_zk = z\<rparr>)
       (pair_coder word_coder (pair_coder word_coder (pair_coder word_coder
         (pair_coder (option_coder (list_coder word_coder))
         (pair_coder (option_coder (option_coder (list_coder word_coder)))
         (pair_coder (option_coder (list_coder word_coder))
         (pair_coder (option_coder (list_coder (option_coder (list_coder word_coder))))
            (option_coder (list_coder word_coder)))))))))"

definition request_coder :: "fb_request coder" where
  "request_coder =
     iso_coder (\<lambda>q. (fq_variant q, map_option (\<lambda>p. case p of
           Req_network_ids i \<Rightarrow> Inl i | Req_handshake h \<Rightarrow> Inr (Inl h) | Req_network_id n \<Rightarrow> Inr (Inr n))
         (fq_payload q)))
       (\<lambda>(v, p). \<lparr>fq_variant = v, fq_payload = map_option (\<lambda>p. case p of
           Inl i \<Rightarrow> Req_network_ids i | Inr (Inl h) \<Rightarrow> Req_handshake h | Inr (Inr n) \<Rightarrow> Req_network_id n) p\<rparr>)
       (pair_coder word_coder (option_coder (sum_coder (option_coder (list_coder word_coder))
         (sum_coder handshake_coder word_coder))))"

definition peer_coder :: "fb_peer coder" where
  "peer_coder =
     iso_coder (\<lambda>p. (fe_id p, map_option (\<lambda>a. (fi_variant a, fi_octets a)) (fe_addr p), fe_port p, fe_variant p))
       (\<lambda>(i, a, p, v). \<lparr>fe_id = i, fe_addr = map_option (\<lambda>(v, os). \<lparr>fi_variant = v, fi_octets = os\<rparr>) a,
          fe_port = p, fe_variant = v\<rparr>)
       (pair_coder word_coder (pair_coder (option_coder (pair_coder word_coder
         (option_coder (list_coder word_coder)))) (pair_coder word_coder word_coder)))"

definition message_coder :: "fb_message coder" where
  "message_coder =
     iso_coder (\<lambda>m. (fm_timestamp m, fm_payload_type m, map_option (\<lambda>p. case p of
           Fb_packet x \<Rightarrow> Inl x | Fb_request q \<Rightarrow> Inr (Inl q)
         | Fb_response r \<Rightarrow> Inr (Inr (fr_variant r, fr_peer_list r))) (fm_payload m)))
       (\<lambda>(t, y, p). \<lparr>fm_timestamp = t, fm_payload_type = y, fm_payload = map_option (\<lambda>p. case p of
           Inl x \<Rightarrow> Fb_packet x | Inr (Inl q) \<Rightarrow> Fb_request q
         | Inr (Inr (v, l)) \<Rightarrow> Fb_response \<lparr>fr_variant = v, fr_peer_list = l\<rparr>) p\<rparr>)
       (pair_coder word_coder (pair_coder word_coder (option_coder (sum_coder packet_coder
         (sum_coder request_coder (pair_coder word_coder
           (option_coder (option_coder (list_coder peer_coder)))))))))"

definition version_coder :: "version coder" where
  "version_coder =
     iso_coder (\<lambda>v. (v_major v, v_minor v, v_rest v))
       (\<lambda>(a, b, r). \<lparr>v_major = a, v_minor = b, v_rest = r\<rparr>)
       (pair_coder word_coder (pair_coder word_coder (list_coder char_coder)))"

lemma table_coders_ok:
  "coder_ok packet_coder" "coder_ok handshake_coder" "coder_ok request_coder" "coder_ok peer_coder"
proof -
  show "coder_ok packet_coder" unfolding packet_coder_def
    by (intro coder_ok_iso coder_ok_intros) (auto simp: option.map_comp comp_def map_option_idI)
  show handshake: "coder_ok handshake_coder" unfolding handshake_coder_def
    by (intro coder_ok_iso coder_ok_intros) simp
  show "coder_ok request_coder" unfolding request_coder_def
    by (intro coder_ok_iso coder_ok_intros handshake)
      (auto simp: option.map_comp comp_def map_option_idI split: fb_request_payload.splits)
  show "coder_ok peer_coder" unfolding peer_coder_def
    by (intro coder_ok_iso coder_ok_intros) (auto simp: option.map_comp comp_def map_option_idI)
qed

lemma message_coder_ok: "coder_ok message_coder" "coder_ok version_coder"
proof -
  show "coder_ok message_coder" unfolding message_coder_def
    by (intro coder_ok_iso coder_ok_intros table_coders_ok)
      (auto simp: option.map_comp comp_def map_option_idI split: fb_payload.splits)
  show "coder_ok version_coder" unfolding version_coder_def
    by (intro coder_ok_iso coder_ok_intros) simp
qed

definition example_fb_env :: fb_env where
  "example_fb_env =
     \<lparr>fb_finish = (\<lambda>m. replicate (12 + fst message_coder m) 0),
      fb_has_identifier = (\<lambda>_. True),
      fb_root = (\<lambda>bs. Inr (snd message_coder (length bs - 12))),
      version_to_string = (\<lambda>v. replicate (fst version_coder v) 0x30),
      version_parse = (\<lambda>bs. Inr (snd version_coder (length bs))),
      block_hash_try_from = (\<lambda>bs. if length bs = 32 then Inr bs else Inl (Bail ''wrong length''))\<rparr>"

lemma utf8_valid_replicate: "utf8_valid (replicate n 0x30)"
proof (induction n)
  case 0
  show ?case by (simp add: utf8_valid.simps)
next
  case (Suc n)
  have "utf8_head (0x30 # replicate n 0x30) = Some 1" by (simp add: utf8_head_def)
  with Suc show ?case by (subst utf8_valid.simps) simp
qed

lemma example_fb_env_lawful: "fb_lawful example_fb_env"
  using message_coder_ok
  by (simp add: fb_lawful_def example_fb_env_def coder_ok_def utf8_valid_replicate)

section \<open>Properties\<close>

text \<open>(C18) Reading back a serialised network message gives the message: every request, response and
  packet survives, apart from the parts that are not transmitted (the excluded peers of a
  broadcast and the proof of a handshake); the time stamps are those of the serialisation and
  of the receipt.\<close>

theorem wire_round_trip:
  assumes "fb_lawful env" "payload_wf (net_payload m)" "serialize env now m = Inr bs"
  shows "\<exists>m'. deserialize env now' bs = Inr m' \<and> created m' = now \<and> received m' = Some now' \<and>
    (case net_payload m of
       NetworkPacket p \<Rightarrow> net_payload m' = NetworkPacket (p\<lparr>destination :=
         (case destination p of Direct i \<Rightarrow> Direct i | Broadcast _ \<Rightarrow> Broadcast [])\<rparr>)
     | NetworkRequest (GetPeers nets) \<Rightarrow>
         (\<exists>nets'. net_payload m' = NetworkRequest (GetPeers nets') \<and> set nets' = set nets)
     | NetworkRequest (Handshake h) \<Rightarrow>
         (\<exists>nets'. net_payload m' = NetworkRequest (Handshake (h\<lparr>hs_networks := nets', hs_proof := []\<rparr>)) \<and>
            set nets' = set (hs_networks h))
     | pl \<Rightarrow> net_payload m' = pl)"
  by (auto simp: deserialize_serialize [OF assms] norm_payload_def norm_packet_def norm_request_def
      norm_handshake_def split: network_payload.splits network_request.splits)

theorem wire_round_trip_witness:
  "let m = netmsg 5 (NetworkRequest (Handshake \<lparr>remote_id = P2PNodeId 7, remote_port = 8888,
         hs_networks = [NetworkId 100, NetworkId 1000], node_version = \<lparr>v_major = 6, v_minor = 1, v_rest = ''.0''\<rparr>,
         wire_versions = [1], genesis_blocks = [replicate 32 9], hs_proof = [1, 2]\<rparr>)) in
   \<exists>bs m'. serialize example_fb_env 6 m = Inr bs \<and> deserialize example_fb_env 8 bs = Inr m' \<and>
     created m' = 6 \<and> received m' = Some 8"
proof -
  let ?m = "netmsg 5 (NetworkRequest (Handshake \<lparr>remote_id = P2PNodeId 7, remote_port = 8888,
         hs_networks = [NetworkId 100, NetworkId 1000], node_version = \<lparr>v_major = 6, v_minor = 1, v_rest = ''.0''\<rparr>,
         wire_versions = [1], genesis_blocks = [replicate 32 9], hs_proof = [1, 2]\<rparr>))"
  obtain bs where bs: "serialize example_fb_env 6 ?m = Inr bs"
    by (simp add: serialize_def netmsg_def)
  have wf: "payload_wf (net_payload ?m)"
    by (simp add: payload_wf_def request_wf_def handshake_wf_def netmsg_def)
  from wire_round_trip [OF example_fb_env_lawful wf bs, of 8] bs show ?thesis
    unfolding Let_def by blast
qed

end
