(* ===== verification/Peer_List.thy ===== *)
theory Peer_List
  imports Packet_Types Peer_Types
begin

text \<open>
  The list of peers to catch up with: \<open>consensus_ffi/catch_up.rs\<close>, and the updates that
  \<open>plugins/consensus.rs\<close> makes to it while it holds the lock of the list.

  The poll thread calls \<open>update_peer_list\<close> and \<open>check_peer_states\<close>; the thread that
  processes inbound consensus messages calls \<open>update_peer_states\<close>.  \<open>check_peer_states\<close>
  reads the list, releases the lock and takes it again, so the other thread may run in
  between.  The relation \<open>peers_step\<close> has one step per critical section and lets them
  interleave.
\<close>

section \<open>Model\<close>

primrec peer_status_discriminant :: "peer_status \<Rightarrow> nat" where
  "peer_status_discriminant CatchingUp = 2"
| "peer_status_discriminant Pending = 1"
| "peer_status_discriminant UpToDate = 0"

instantiation peer_status :: linorder
begin

definition less_eq_peer_status :: "peer_status \<Rightarrow> peer_status \<Rightarrow> bool" where
  "s \<le> t \<longleftrightarrow> peer_status_discriminant s \<le> peer_status_discriminant t"

definition less_peer_status :: "peer_status \<Rightarrow> peer_status \<Rightarrow> bool" where
  "s < t \<longleftrightarrow> peer_status_discriminant s < peer_status_discriminant t"

instance
proof
  fix s t :: peer_status
  show "s \<le> t \<Longrightarrow> t \<le> s \<Longrightarrow> s = t"
    by (cases s; cases t) (simp_all add: less_eq_peer_status_def)
qed (auto simp: less_eq_peer_status_def less_peer_status_def)

end

text \<open>\<open>PeerState\<close>, ordered by status and then, reversed, by time.\<close>

datatype peer_state = PeerState (state_status: peer_status) (state_timestamp: nat)

definition is_catching_up :: "peer_state \<Rightarrow> bool" where
  "is_catching_up s \<longleftrightarrow> state_status s = CatchingUp"

text \<open>\<open>std::cmp::Ordering\<close> and the comparison \<open>Ord::cmp\<close> of a type with a linear order.\<close>

datatype rust_ordering = Ord_less | Ord_equal | Ord_greater

definition ord_cmp :: "'a::linorder \<Rightarrow> 'a \<Rightarrow> rust_ordering" where
  "ord_cmp x y = (if x < y then Ord_less else if x = y then Ord_equal else Ord_greater)"

lemma ord_cmp_simps [simp]:
  "ord_cmp x y = Ord_less \<longleftrightarrow> x < y" "ord_cmp x y = Ord_equal \<longleftrightarrow> x = y" "ord_cmp x y = Ord_greater \<longleftrightarrow> y < x"
  by (auto simp: ord_cmp_def)

definition peer_state_cmp :: "peer_state \<Rightarrow> peer_state \<Rightarrow> rust_ordering" where
  "peer_state_cmp s t =
     (if state_status s \<noteq> state_status t then ord_cmp (state_status s) (state_status t)
      else ord_cmp (state_timestamp t) (state_timestamp s))"

text \<open>The comparison is a linear order that agrees with equality, as \<open>Ord\<close> and \<open>Eq\<close> ask.\<close>

instantiation peer_state :: linorder
begin

definition less_eq_peer_state :: "peer_state \<Rightarrow> peer_state \<Rightarrow> bool" where
  "s \<le> t \<longleftrightarrow> peer_state_cmp s t \<noteq> Ord_greater"

definition less_peer_state :: "peer_state \<Rightarrow> peer_state \<Rightarrow> bool" where
  "s < t \<longleftrightarrow> peer_state_cmp s t = Ord_less"

instance
  by standard
    (auto simp: less_eq_peer_state_def less_peer_state_def peer_state_cmp_def not_le not_less
      intro: peer_state.expand split: if_splits)

end

record peer_list =
  peer_states :: "(remote_peer_id, peer_status) hmap"
  catch_up_stamp :: u64
  catch_up_peer :: "remote_peer_id option"
  pending_queue :: "remote_peer_id list"

definition peer_list_default :: peer_list where
  "peer_list_default = \<lparr>peer_states = [], catch_up_stamp = 0, catch_up_peer = None, pending_queue = []\<rparr>"

fun next_pending_loop ::
    "remote_peer_id list \<Rightarrow> (remote_peer_id, peer_status) hmap \<Rightarrow>
     remote_peer_id option \<times> remote_peer_id list \<times> (remote_peer_id, peer_status) hmap" where
  "next_pending_loop [] st = (None, [], st)"
| "next_pending_loop (p # q) st =
     (if hm_get st p = Some Pending then (Some p, q, hm_insert p CatchingUp st)
      else next_pending_loop q st)"

definition next_pending :: "peer_list \<Rightarrow> remote_peer_id option \<times> peer_list" where
  "next_pending pl =
     (let (next, q, st) = next_pending_loop (pending_queue pl) (peer_states pl) in
      (next, pl\<lparr>pending_queue := q, peer_states := st, catch_up_peer := next\<rparr>))"

definition mark_all_pending :: "peer_list \<Rightarrow> peer_list" where
  "mark_all_pending pl =
     pl\<lparr>peer_states := map (\<lambda>(p, s). (p, if s = UpToDate then Pending else s)) (peer_states pl),
        pending_queue := pending_queue pl @ map fst (filter (\<lambda>(p, s). s = UpToDate) (peer_states pl))\<rparr>"

definition peers_clear :: "peer_list \<Rightarrow> peer_list" where
  "peers_clear pl = pl\<lparr>peer_states := [], catch_up_peer := None, pending_queue := []\<rparr>"

subsection \<open>Critical sections of \<open>plugins/consensus.rs\<close>\<close>

text \<open>\<open>update_peer_list\<close>, after the ids of the connected peers have been read.  The subtraction of
  the lengths would wrap to a capacity that no vector can reserve.\<close>

fun peers_add :: "remote_peer_id list \<Rightarrow> peer_list \<Rightarrow> peer_list" where
  "peers_add [] pl = pl"
| "peers_add (p # ids) pl =
     (if hm_get (peer_states pl) p = None
      then peers_add ids (pl\<lparr>peer_states := hm_insert p Pending (peer_states pl),
             pending_queue := pending_queue pl @ [p]\<rparr>)
      else peers_add ids pl)"

definition peers_refresh :: "remote_peer_id list \<Rightarrow> peer_list \<Rightarrow> unit result \<times> peer_list" where
  "peers_refresh ids pl =
     (let st = hm_retain (\<lambda>p _. p \<in> set ids) (peer_states pl);
          pl1 = pl\<lparr>peer_states := st, pending_queue := filter (\<lambda>p. p \<in> set ids) (pending_queue pl),
                   catch_up_peer := (case catch_up_peer pl of
                       Some p \<Rightarrow> if hm_get st p = None then None else Some p
                     | None \<Rightarrow> None)\<rparr> in
      if length ids < length st then (Inl (Panic ''capacity overflow''), pl1)
      else (Inr (), peers_add ids pl1))"

text \<open>\<open>try_catch_up\<close>; \<open>sent\<close> tells whether a message to a peer reaches a connection.\<close>

definition peers_try_catch_up :: "u64 \<Rightarrow> (remote_peer_id \<Rightarrow> bool) \<Rightarrow> peer_list \<Rightarrow> peer_list" where
  "peers_try_catch_up now sent pl = (case next_pending pl of
     (None, pl1) \<Rightarrow> pl1
   | (Some p, pl1) \<Rightarrow>
       (let pl2 = pl1\<lparr>catch_up_stamp := now\<rparr> in
        if sent p then pl2
        else pl2\<lparr>catch_up_peer := None, peer_states := hm_remove p (peer_states pl2)\<rparr>))"

text \<open>\<open>check_peer_states\<close>, when the connection to the peer it read has gone.\<close>

definition peers_drop_catch_up ::
    "remote_peer_id \<Rightarrow> u64 \<Rightarrow> (remote_peer_id \<Rightarrow> bool) \<Rightarrow> peer_list \<Rightarrow> peer_list" where
  "peers_drop_catch_up p now sent pl =
     peers_try_catch_up now sent
       (pl\<lparr>catch_up_peer := None, peer_states := hm_remove p (peer_states pl)\<rparr>)"

text \<open>\<open>UpToDate\<close> becomes \<open>Pending\<close>; other states are left alone.\<close>

definition peers_fall_behind :: "remote_peer_id \<Rightarrow> peer_list \<Rightarrow> peer_list" where
  "peers_fall_behind p pl =
     (if hm_get (peer_states pl) p = Some UpToDate
      then pl\<lparr>peer_states := hm_insert p Pending (peer_states pl), pending_queue := pending_queue pl @ [p]\<rparr>
      else pl)"

text \<open>The changes that \<open>update_peer_states\<close> makes to the list.\<close>

definition peers_feedback ::
    "packet_type \<Rightarrow> distribution_mode \<Rightarrow> ffi_response \<Rightarrow> remote_peer_id \<Rightarrow> peer_list \<Rightarrow> peer_list" where
  "peers_feedback ty mode res src pl =
     (let uncaught = (if catch_up_peer pl = Some src then None else catch_up_peer pl) in
      if ty = CatchUpStatus then
        (if res = Success then
           pl\<lparr>peer_states := hm_insert src UpToDate (peer_states pl), catch_up_peer := uncaught\<rparr>
         else if res = PendingBlock \<or> res = PendingFinalization then
           pl\<lparr>peer_states := hm_insert src Pending (peer_states pl),
              pending_queue := (if hm_get (peer_states pl) src = Some Pending then pending_queue pl
                                else pending_queue pl @ [src]),
              catch_up_peer := uncaught\<rparr>
         else if res = ContinueCatchUp then peers_fall_behind src pl
         else pl)
      else if ty \<in> {Block, FinalizationRecord, FinalizationMessage} then
        (if mode = Broadcast_mode \<and> is_pending res then peers_fall_behind src pl else pl)
      else pl)"

section \<open>Interleaving\<close>

text \<open>What the poll thread remembers between the two halves of \<open>check_peer_states\<close>.\<close>

datatype checker = Idle | Checked "remote_peer_id option"

inductive peers_step :: "peer_list \<times> checker \<Rightarrow> peer_list \<times> checker \<Rightarrow> bool" where
  refresh: "distinct ids \<Longrightarrow> peers_refresh ids pl = (r, pl') \<Longrightarrow> peers_step (pl, Idle) (pl', Idle)"
| feedback: "peers_step (pl, c) (peers_feedback ty mode res src pl, c)"
| regenesis: "peers_step (pl, Idle) (mark_all_pending pl, Idle)"
| snapshot: "peers_step (pl, Idle) (pl, Checked (catch_up_peer pl))"
| keep: "peers_step (pl, Checked (Some p)) (pl, Idle)"
| gone: "peers_step (pl, Checked (Some p)) (peers_drop_catch_up p now sent pl, Idle)"
| attempt: "peers_step (pl, Checked None) (peers_try_catch_up now sent pl, Idle)"
| shutdown: "peers_step (pl, Idle) (peers_clear pl, Idle)"

section \<open>Invariant\<close>

declare map_of_eq_Some_iff [simp del]

definition peer_list_inv :: "peer_list \<Rightarrow> bool" where
  "peer_list_inv pl \<longleftrightarrow> hm_wf (peer_states pl) \<and>
     (\<forall>p. hm_get (peer_states pl) p = Some CatchingUp \<longleftrightarrow> catch_up_peer pl = Some p) \<and>
     (\<forall>p. hm_get (peer_states pl) p = Some Pending \<longrightarrow> p \<in> set (pending_queue pl))"

definition checker_inv :: "peer_list \<times> checker \<Rightarrow> bool" where
  "checker_inv = (\<lambda>(pl, c). peer_list_inv pl \<and>
     (case c of Idle \<Rightarrow> True | Checked s \<Rightarrow> catch_up_peer pl \<in> {s, None}))"

lemma peer_list_inv_default [peer_list_intros]: "peer_list_inv peer_list_default"
  by (simp add: peer_list_inv_def peer_list_default_def)

lemma next_pending_loop_Some:
  assumes "next_pending_loop q st = (Some p, q', st')"
  shows "\<exists>us. q = us @ p # q' \<and> (\<forall>u \<in> set us. hm_get st u \<noteq> Some Pending) \<and>
    hm_get st p = Some Pending \<and> st' = hm_insert p CatchingUp st"
  using assms
proof (induction q)
  case (Cons a q)
  show ?case
  proof (cases "hm_get st a = Some Pending")
    case True
    with Cons.prems show ?thesis by (intro exI [of _ "[]"]) auto
  next
    case False
    with Cons obtain us where "q = us @ p # q'" "\<forall>u \<in> set us. hm_get st u \<noteq> Some Pending"
      "hm_get st p = Some Pending" "st' = hm_insert p CatchingUp st" by auto
    with False show ?thesis by (intro exI [of _ "a # us"]) auto
  qed
qed simp

lemma next_pending_loop_None:
  "next_pending_loop q st = (None, q', st') \<longleftrightarrow>
     q' = [] \<and> st' = st \<and> (\<forall>u \<in> set q. hm_get st u \<noteq> Some Pending)"
  by (induction q) auto

lemma next_pending_loop_fst:
  "fst (next_pending_loop q st) = None \<longleftrightarrow> (\<forall>u \<in> set q. hm_get st u \<noteq> Some Pending)"
  by (induction q) auto

lemma next_pending_inv [peer_list_intros]:
  assumes "peer_list_inv pl" "catch_up_peer pl = None" "next_pending pl = (r, pl')"
  shows "peer_list_inv pl'"
proof (cases r)
  case None
  with assms show ?thesis
    by (auto simp: next_pending_def peer_list_inv_def next_pending_loop_None split: prod.splits)
next
  case (Some p)
  with assms(3) obtain q st where loop: "next_pending_loop (pending_queue pl) (peer_states pl) = (Some p, q, st)"
    and pl': "pl' = pl\<lparr>pending_queue := q, peer_states := st, catch_up_peer := Some p\<rparr>"
    by (auto simp: next_pending_def split: prod.splits)
  from next_pending_loop_Some [OF loop] obtain us where us: "pending_queue pl = us @ p # q"
    "\<forall>u \<in> set us. hm_get (peer_states pl) u \<noteq> Some Pending" "st = hm_insert p CatchingUp (peer_states pl)"
    by blast
  then show ?thesis
    using assms(1,2) by (fastforce simp: peer_list_inv_def pl' update_conv')
qed

lemma peer_list_inv_forget:
  assumes "peer_list_inv pl" "catch_up_peer pl \<in> {Some p, None}"
  shows "peer_list_inv (pl\<lparr>catch_up_peer := None, peer_states := hm_remove p (peer_states pl)\<rparr>)"
proof -
  have "hm_get (hm_remove p (peer_states pl)) q = (if q = p then None else hm_get (peer_states pl) q)" for q
    by (simp add: delete_conv')
  moreover have "hm_get (peer_states pl) q \<noteq> Some CatchingUp" if "q \<noteq> p" for q
    using assms that unfolding peer_list_inv_def
    by (metis empty_iff insert_iff option.distinct(1) option.inject)
  ultimately show ?thesis using assms(1) unfolding peer_list_inv_def by simp
qed

lemma peer_list_inv_stamp [simp]: "peer_list_inv (pl\<lparr>catch_up_stamp := t\<rparr>) = peer_list_inv pl"
  by (simp add: peer_list_inv_def)

lemma peers_try_catch_up_inv [peer_list_intros]:
  assumes "peer_list_inv pl" "catch_up_peer pl = None"
  shows "peer_list_inv (peers_try_catch_up now sent pl)"
proof (cases "next_pending pl")
  case (Pair r pl1)
  have inv: "peer_list_inv pl1" by (rule next_pending_inv [OF assms Pair])
  have "catch_up_peer pl1 = r" using Pair by (auto simp: next_pending_def split: prod.splits)
  then have "r = Some p \<Longrightarrow> peer_list_inv (pl1\<lparr>catch_up_stamp := now, catch_up_peer := None,
      peer_states := hm_remove p (peer_states pl1)\<rparr>)" for p
    using peer_list_inv_forget [of "pl1\<lparr>catch_up_stamp := now\<rparr>" p] inv by simp
  with inv show ?thesis by (simp add: peers_try_catch_up_def Pair Let_def split: option.split)
qed

lemma peers_drop_catch_up_inv [peer_list_intros]:
  assumes "peer_list_inv pl" "catch_up_peer pl \<in> {Some p, None}"
  shows "peer_list_inv (peers_drop_catch_up p now sent pl)"
  unfolding peers_drop_catch_up_def
  by (intro peers_try_catch_up_inv peer_list_inv_forget assms) simp

lemma catch_up_peer_iff:
  "peer_list_inv pl \<Longrightarrow> catch_up_peer pl = Some p \<longleftrightarrow> hm_get (peer_states pl) p = Some CatchingUp"
  by (auto simp: peer_list_inv_def)

text \<open>Setting the state of one peer to something else than \<open>CatchingUp\<close>.\<close>

lemma peer_list_inv_set:
  assumes "peer_list_inv pl" "s \<noteq> CatchingUp" "c = (if catch_up_peer pl = Some p then None else catch_up_peer pl)"
    "set (pending_queue pl) \<subseteq> set q" "s = Pending \<Longrightarrow> p \<in> set q"
  shows "peer_list_inv (pl\<lparr>peer_states := hm_insert p s (peer_states pl), pending_queue := q, catch_up_peer := c\<rparr>)"
  using assms by (auto simp: peer_list_inv_def update_conv')

lemma peer_list_inv_pend:
  assumes "peer_list_inv pl" "hm_get (peer_states pl) p \<noteq> Some CatchingUp"
  shows "peer_list_inv (pl\<lparr>peer_states := hm_insert p Pending (peer_states pl),
      pending_queue := pending_queue pl @ [p]\<rparr>)"
proof -
  have "catch_up_peer pl \<noteq> Some p" using assms by (simp add: catch_up_peer_iff)
  with peer_list_inv_set [OF assms(1), of Pending _ p "pending_queue pl @ [p]"] show ?thesis
    by (simp add: subset_insertI)
qed

lemma peers_fall_behind_inv [peer_list_intros]:
  "peer_list_inv pl \<Longrightarrow> peer_list_inv (peers_fall_behind p pl)"
  by (simp add: peers_fall_behind_def peer_list_inv_pend)

lemma peers_feedback_inv [peer_list_intros]:
  assumes "peer_list_inv pl"
  shows "peer_list_inv (peers_feedback ty mode res src pl)"
proof -
  let ?c = "if catch_up_peer pl = Some src then None else catch_up_peer pl"
  let ?q = "if hm_get (peer_states pl) src = Some Pending then pending_queue pl else pending_queue pl @ [src]"
  have "src \<in> set ?q" using assms by (simp add: peer_list_inv_def)
  then have "peer_list_inv (pl\<lparr>peer_states := hm_insert src Pending (peer_states pl),
      pending_queue := ?q, catch_up_peer := ?c\<rparr>)"
    by (intro peer_list_inv_set [OF assms]) auto
  moreover have "peer_list_inv (pl\<lparr>peer_states := hm_insert src UpToDate (peer_states pl), catch_up_peer := ?c\<rparr>)"
    using peer_list_inv_set [OF assms, of UpToDate ?c src "pending_queue pl"] by simp
  ultimately show ?thesis
    using peers_fall_behind_inv [OF assms, of src] assms unfolding peers_feedback_def Let_def by presburger
qed

lemma map_of_mark:
  "map_of (map (\<lambda>(p, s). (p, f s)) m) k = map_option f (map_of m k)"
  by (induction m) auto

lemma fst_comp_mark [simp]: "fst \<circ> (\<lambda>(p, s). (p, f s)) = fst"
  by auto

lemma mark_all_pending_inv [peer_list_intros]:
  assumes "peer_list_inv pl"
  shows "peer_list_inv (mark_all_pending pl)"
proof -
  have "p \<in> fst ` {x \<in> set (peer_states pl). case x of (p, s) \<Rightarrow> s = UpToDate}"
    if "hm_get (peer_states pl) p = Some UpToDate" for p
    using map_of_SomeD [OF that] by force
  with assms show ?thesis
    by (auto simp: mark_all_pending_def peer_list_inv_def map_of_mark split: if_splits)
qed

lemma peers_clear_inv [peer_list_intros]: "peer_list_inv (peers_clear pl)"
  by (simp add: peers_clear_def peer_list_inv_def)

lemma peers_add_inv: "peer_list_inv pl \<Longrightarrow> peer_list_inv (peers_add ids pl)"
proof (induction ids pl rule: peers_add.induct)
  case (2 p ids pl)
  show ?case
  proof (cases "hm_get (peer_states pl) p = None")
    case True
    with 2 peer_list_inv_pend [of pl p] show ?thesis by simp
  next
    case False
    with 2 show ?thesis by auto
  qed
qed simp

lemma peers_retain_inv:
  assumes "peer_list_inv pl"
  shows "peer_list_inv (pl\<lparr>peer_states := hm_retain (\<lambda>p _. p \<in> set ids) (peer_states pl),
      pending_queue := filter (\<lambda>p. p \<in> set ids) (pending_queue pl),
      catch_up_peer := (case catch_up_peer pl of
          Some p \<Rightarrow> if hm_get (hm_retain (\<lambda>p _. p \<in> set ids) (peer_states pl)) p = None then None else Some p
        | None \<Rightarrow> None)\<rparr>)"
proof -
  have get: "hm_get (hm_retain (\<lambda>p _. p \<in> set ids) (peer_states pl)) p =
      (if p \<in> set ids then hm_get (peer_states pl) p else None)" for p
    using assms by (auto simp: peer_list_inv_def map_of_retain split: option.splits)
  have wf: "distinct (map fst (hm_retain (\<lambda>p _. p \<in> set ids) (peer_states pl)))"
    using assms by (simp add: peer_list_inv_def)
  show ?thesis
  proof (cases "catch_up_peer pl")
    case None
    with assms get wf show ?thesis by (auto simp: peer_list_inv_def)
  next
    case (Some q)
    then have "hm_get (peer_states pl) q \<noteq> None"
      using catch_up_peer_iff [OF assms, of q] by simp
    moreover have "hm_get (peer_states pl) p = Some CatchingUp \<longleftrightarrow> p = q" for p
      using Some by (auto simp: catch_up_peer_iff [OF assms, symmetric])
    moreover have "hm_get (peer_states pl) p = Some Pending \<longrightarrow> p \<in> set (pending_queue pl)" for p
      using assms by (simp add: peer_list_inv_def)
    ultimately show ?thesis using get wf Some by (auto simp: peer_list_inv_def)
  qed
qed

lemma peers_refresh_inv [peer_list_intros]:
  assumes "peer_list_inv pl" "peers_refresh ids pl = (r, pl')"
  shows "peer_list_inv pl'"
  using assms(2) peers_retain_inv [OF assms(1), of ids] peers_add_inv
  by (auto simp: peers_refresh_def Let_def split: if_splits)

lemma catch_up_peer_feedback: "catch_up_peer (peers_feedback ty mode res src pl) \<in> {catch_up_peer pl, None}"
  by (auto simp: peers_feedback_def peers_fall_behind_def Let_def)

lemma checker_inv_Idle [simp]: "checker_inv (pl, Idle) = peer_list_inv pl"
  by (simp add: checker_inv_def)

lemma checker_inv_Checked [simp]:
  "checker_inv (pl, Checked s) \<longleftrightarrow> peer_list_inv pl \<and> catch_up_peer pl \<in> {s, None}"
  by (simp add: checker_inv_def)

lemma peers_step_inv: "peers_step s t \<Longrightarrow> checker_inv s \<Longrightarrow> checker_inv t"
proof (induction rule: peers_step.induct)
  case (refresh ids pl r pl')
  then show ?case by (simp add: peers_refresh_inv)
next
  case (feedback pl c ty mode res src)
  then show ?case
    using catch_up_peer_feedback [of ty mode res src pl] peers_feedback_inv [of pl ty mode res src]
    by (cases c) auto
next
  case (gone pl p now sent)
  then show ?case using peers_drop_catch_up_inv [of pl p now sent] by simp
next
  case (attempt pl now sent)
  then show ?case using peers_try_catch_up_inv [of pl now sent] by simp
qed (simp_all add: mark_all_pending_inv peers_clear_inv)

interpretation peers_sys: transition_system "\<lambda>s. s = (peer_list_default, Idle)" peers_step checker_inv
proof unfold_locales
  show "s = (peer_list_default, Idle) \<Longrightarrow> checker_inv s" for s
    by (simp add: peer_list_inv_default)
  show "peers_step s t \<Longrightarrow> checker_inv s \<Longrightarrow> checker_inv t" for s t
    by (rule peers_step_inv)
qed

lemma retained_fits:
  assumes "distinct (map fst m)"
  shows "length (hm_retain (\<lambda>p _. p \<in> set ids) m) \<le> length ids"
proof -
  let ?r = "hm_retain (\<lambda>p _. p \<in> set ids) m"
  have "length ?r = card (set (map fst ?r))"
    using distinct_retain [OF assms] by (metis distinct_card length_map)
  also have "\<dots> \<le> card (set ids)" by (intro card_mono) auto
  also have "\<dots> \<le> length ids" by (rule card_length)
  finally show ?thesis .
qed

lemma peers_refresh_no_panic: "peer_list_inv pl \<Longrightarrow> fst (peers_refresh ids pl) = Inr ()"
  using retained_fits [of "peer_states pl" ids] by (simp add: peers_refresh_def Let_def peer_list_inv_def)

section \<open>Waiting\<close>

text \<open>How many entries are before a peer in the queue.\<close>

definition queue_pos :: "remote_peer_id \<Rightarrow> peer_list \<Rightarrow> nat" where
  "queue_pos p pl = length (takeWhile (\<lambda>x. x \<noteq> p) (pending_queue pl))"

abbreviation pending :: "remote_peer_id \<Rightarrow> peer_list \<Rightarrow> bool" where
  "pending p pl \<equiv> hm_get (peer_states pl) p = Some Pending"

lemma takeWhile_append_in: "p \<in> set xs \<Longrightarrow> takeWhile (\<lambda>x. x \<noteq> p) (xs @ ys) = takeWhile (\<lambda>x. x \<noteq> p) xs"
  by (induction xs) auto

lemma takeWhile_filter_le:
  "length (takeWhile (\<lambda>x. x \<noteq> p) (filter P xs)) \<le> length (takeWhile (\<lambda>x. x \<noteq> p) xs)" if "P p"
  using that by (induction xs) auto

lemma queue_pos_append:
  "p \<in> set (pending_queue pl) \<Longrightarrow> pending_queue pl' = pending_queue pl @ q \<Longrightarrow> queue_pos p pl' = queue_pos p pl"
  by (simp add: queue_pos_def takeWhile_append_in)

lemma pending_in_queue: "peer_list_inv pl \<Longrightarrow> pending p pl \<Longrightarrow> p \<in> set (pending_queue pl)"
  by (simp add: peer_list_inv_def)

lemma pending_queue_feedback:
  "\<exists>q. pending_queue (peers_feedback ty mode res src pl) = pending_queue pl @ q"
  by (auto simp: peers_feedback_def peers_fall_behind_def Let_def)

lemma pending_queue_add: "\<exists>q. pending_queue (peers_add ids pl) = pending_queue pl @ q"
  by (induction ids pl rule: peers_add.induct) auto

lemma peers_add_new: "hm_get (peer_states (peers_add ids pl)) p \<noteq> None \<Longrightarrow>
    hm_get (peer_states pl) p = None \<Longrightarrow> p \<in> set ids"
proof (induction ids pl rule: peers_add.induct)
  case (2 a ids pl)
  then show ?case
    by (cases "p = a"; cases "hm_get (peer_states pl) a = None") (auto simp: update_conv')
qed simp

lemma queue_pos_try:
  assumes inv: "peer_list_inv pl" and before: "pending p pl" and after: "pending p (peers_try_catch_up now sent pl)"
  shows "queue_pos p (peers_try_catch_up now sent pl) < queue_pos p pl"
proof -
  obtain r q st where loop: "next_pending_loop (pending_queue pl) (peer_states pl) = (r, q, st)"
    by (cases "next_pending_loop (pending_queue pl) (peer_states pl)") auto
  have "r \<noteq> None"
    using loop before pending_in_queue [OF inv before]
      next_pending_loop_None [of "pending_queue pl" "peer_states pl" q st] by (cases r) auto
  then obtain x where x: "r = Some x" by blast
  from next_pending_loop_Some [OF loop [unfolded x]] obtain us where us: "pending_queue pl = us @ x # q"
    "\<forall>u \<in> set us. \<not> pending u pl" "st = hm_insert x CatchingUp (peer_states pl)" by blast
  have queue: "pending_queue (peers_try_catch_up now sent pl) = q"
    and states: "peer_states (peers_try_catch_up now sent pl) \<in> {st, hm_remove x st}"
    by (simp_all add: peers_try_catch_up_def next_pending_def loop x Let_def)
  have "x \<noteq> p" using states after us(3) by (auto simp: update_conv' delete_conv')
  moreover have "p \<notin> set us" using us(2) before by blast
  ultimately have "takeWhile (\<lambda>y. y \<noteq> p) (pending_queue pl) = us @ x # takeWhile (\<lambda>y. y \<noteq> p) q"
    unfolding us(1) by (induction us) auto
  then show ?thesis by (simp add: queue_pos_def queue)
qed

lemma queue_pos_refresh:
  assumes "peer_list_inv pl" "pending p pl" "pending p pl'" "peers_refresh ids pl = (r, pl')"
  shows "queue_pos p pl' \<le> queue_pos p pl"
proof -
  define pl1 where "pl1 = pl\<lparr>peer_states := hm_retain (\<lambda>p _. p \<in> set ids) (peer_states pl),
      pending_queue := filter (\<lambda>p. p \<in> set ids) (pending_queue pl),
      catch_up_peer := (case catch_up_peer pl of
          Some p \<Rightarrow> if hm_get (hm_retain (\<lambda>p _. p \<in> set ids) (peer_states pl)) p = None then None else Some p
        | None \<Rightarrow> None)\<rparr>"
  have pl': "pl' = peers_add ids pl1"
    using assms(4) peers_refresh_no_panic [OF assms(1), of ids]
    by (auto simp: peers_refresh_def Let_def pl1_def split: if_splits)
  have "p \<in> set ids"
  proof (rule ccontr)
    assume "p \<notin> set ids"
    then have "hm_get (peer_states pl1) p = None"
      using assms(1) by (auto simp: pl1_def peer_list_inv_def map_of_retain split: option.splits)
    with peers_add_new [of ids pl1 p] assms(3) pl' \<open>p \<notin> set ids\<close> show False by simp
  qed
  moreover obtain q where "pending_queue pl' = pending_queue pl1 @ q"
    using pending_queue_add [of ids pl1] pl' by blast
  moreover have "p \<in> set (pending_queue pl1)"
    using pending_in_queue [OF assms(1,2)] \<open>p \<in> set ids\<close> by (simp add: pl1_def)
  ultimately show ?thesis
    using takeWhile_filter_le [of "\<lambda>x. x \<in> set ids" p "pending_queue pl"]
    by (simp add: queue_pos_append [of p pl1 pl' q]) (simp add: queue_pos_def pl1_def)
qed

lemma queue_pos_step:
  assumes "peers_step s t" "checker_inv s" "pending p (fst s)" "pending p (fst t)"
  shows "queue_pos p (fst t) \<le> queue_pos p (fst s) \<and>
    (snd s = Checked None \<longrightarrow> snd t = Idle \<longrightarrow> queue_pos p (fst t) < queue_pos p (fst s))"
  using assms
proof (induction rule: peers_step.induct)
  case (refresh ids pl r pl')
  then show ?case using queue_pos_refresh [of pl p pl' ids r] by simp
next
  case (feedback pl c ty mode res src)
  then have "p \<in> set (pending_queue pl)" by (cases c) (auto intro: pending_in_queue)
  moreover obtain q where "pending_queue (peers_feedback ty mode res src pl) = pending_queue pl @ q"
    using pending_queue_feedback by blast
  ultimately show ?case
    by (simp add: queue_pos_append [of p pl "peers_feedback ty mode res src pl" q])
next
  case (regenesis pl)
  then have "queue_pos p (mark_all_pending pl) = queue_pos p pl"
    by (intro queue_pos_append pending_in_queue) (simp_all add: mark_all_pending_def)
  then show ?case by simp
next
  case (gone pl x now sent)
  let ?pl = "pl\<lparr>catch_up_peer := None, peer_states := hm_remove x (peer_states pl)\<rparr>"
  have inv: "peer_list_inv ?pl" using gone(1) peer_list_inv_forget [of pl x] by simp
  have "pending p ?pl \<or> \<not> pending p ?pl \<and> hm_get (peer_states ?pl) p = None"
    using gone(2) by (simp add: delete_conv')
  then show ?case
  proof
    assume still: "pending p ?pl"
    have "queue_pos p (peers_drop_catch_up x now sent pl) < queue_pos p ?pl"
      using queue_pos_try [OF inv still] gone(3) by (simp add: peers_drop_catch_up_def)
    then show ?thesis by (simp add: queue_pos_def)
  next
    assume none: "\<not> pending p ?pl \<and> hm_get (peer_states ?pl) p = None"
    have "hm_get (peer_states (peers_try_catch_up now sent ?pl)) p \<noteq> Some Pending"
      using none by (auto simp: peers_try_catch_up_def next_pending_def update_conv' delete_conv' Let_def
          next_pending_loop_None dest: next_pending_loop_Some split: prod.splits option.splits)
    with gone(3) show ?thesis by (simp add: peers_drop_catch_up_def)
  qed
next
  case (attempt pl now sent)
  then show ?case using queue_pos_try [of pl p now sent] by auto
qed (auto simp: peers_clear_def)

section \<open>Properties\<close>

text \<open>(C19) In every interleaving of the poll thread and the consensus thread: the peer recorded as the
  one being caught up with is exactly the peer whose state says so (so there is at most one),
  every pending peer is in the queue, \<open>next_pending\<close> comes back empty-handed only when no
  peer is pending, and updating the list after a change of the connections never fails.\<close>

theorem catch_up_list_consistent:
  assumes "peers_step\<^sup>*\<^sup>* (peer_list_default, Idle) (pl, c)"
  shows "(\<forall>p. hm_get (peer_states pl) p = Some CatchingUp \<longleftrightarrow> catch_up_peer pl = Some p) \<and>
    (\<forall>p. hm_get (peer_states pl) p = Some Pending \<longrightarrow> p \<in> set (pending_queue pl)) \<and>
    (fst (next_pending pl) = None \<longleftrightarrow> (\<forall>p. hm_get (peer_states pl) p \<noteq> Some Pending)) \<and>
    (\<forall>ids. fst (peers_refresh ids pl) = Inr ())"
proof -
  have inv: "peer_list_inv pl"
    using peers_sys.inv_reachable [OF refl assms] by (cases c) simp_all
  have "fst (next_pending pl) = None \<longleftrightarrow> (\<forall>p \<in> set (pending_queue pl). \<not> pending p pl)"
    by (simp add: next_pending_def next_pending_loop_fst [symmetric] split: prod.split)
  then show ?thesis
    using inv peers_refresh_no_panic [OF inv] by (auto simp: peer_list_inv_def)
qed

theorem catch_up_list_consistent_witness:
  "\<exists>pl. peers_step\<^sup>*\<^sup>* (peer_list_default, Idle) (pl, Idle) \<and> catch_up_peer pl = Some (RemotePeerId 1) \<and>
     hm_get (peer_states pl) (RemotePeerId 1) = Some CatchingUp \<and>
     hm_get (peer_states pl) (RemotePeerId 2) = Some Pending \<and> RemotePeerId 2 \<in> set (pending_queue pl)"
proof -
  let ?ids = "[RemotePeerId 1, RemotePeerId 2]"
  let ?pl1 = "snd (peers_refresh ?ids peer_list_default)"
  let ?pl2 = "peers_try_catch_up 7 (\<lambda>_. True) ?pl1"
  have vals: "catch_up_peer ?pl1 = None" "catch_up_peer ?pl2 = Some (RemotePeerId 1)"
    "hm_get (peer_states ?pl2) (RemotePeerId 1) = Some CatchingUp"
    "hm_get (peer_states ?pl2) (RemotePeerId 2) = Some Pending"
    by (simp_all add: peers_refresh_def peer_list_default_def peers_try_catch_up_def next_pending_def Let_def)
  have "peers_step (peer_list_default, Idle) (?pl1, Idle)"
    by (rule peers_step.refresh [of ?ids _ "fst (peers_refresh ?ids peer_list_default)"]) simp_all
  moreover have "peers_step (?pl1, Idle) (?pl1, Checked None)"
    using peers_step.snapshot [of ?pl1] vals(1) by simp
  moreover have "peers_step (?pl1, Checked None) (?pl2, Idle)" by (rule peers_step.attempt)
  ultimately have run: "peers_step\<^sup>*\<^sup>* (peer_list_default, Idle) (?pl2, Idle)" by force
  with vals catch_up_list_consistent [OF run] show ?thesis by blast
qed

text \<open>(C20) Nobody waits for ever: along every run, a peer that stays pending is passed over by at most
  as many attempts to catch up as there were entries before it in the queue.\<close>

theorem pending_peer_bounded_wait:
  assumes "successively peers_step (s # ss)" "peers_step\<^sup>*\<^sup>* (peer_list_default, Idle) s"
    and "\<forall>t \<in> set (s # ss). hm_get (peer_states (fst t)) p = Some Pending"
  shows "length (filter (\<lambda>(s, t). snd s = Checked None \<and> snd t = Idle) (zip (s # ss) ss))
    \<le> queue_pos p (fst s)"
  using assms
proof (induction ss arbitrary: s)
  case (Cons t ss)
  have step: "peers_step s t" using Cons.prems(1) by simp
  have inv: "checker_inv s" using peers_sys.inv_reachable [OF refl Cons.prems(2)] .
  have "length (filter (\<lambda>(s, t). snd s = Checked None \<and> snd t = Idle) (zip (t # ss) ss)) \<le> queue_pos p (fst t)"
    using Cons.prems step by (intro Cons.IH) auto
  with queue_pos_step [OF step inv, of p] Cons.prems(3) show ?case by auto
qed simp

theorem pending_peer_bounded_wait_witness:
  "let pl = peer_list_default\<lparr>peer_states := [(RemotePeerId 1, Pending), (RemotePeerId 2, Pending)],
              pending_queue := [RemotePeerId 1, RemotePeerId 2]\<rparr>;
       ss = [(pl, Checked None), (peers_try_catch_up 7 (\<lambda>_. True) pl, Idle)] in
   successively peers_step ((pl, Idle) # ss) \<and> queue_pos (RemotePeerId 2) pl = 1 \<and>
   length (filter (\<lambda>(s, t). snd s = Checked None \<and> snd t = Idle) (zip ((pl, Idle) # ss) ss)) \<le> 1"
proof -
  let ?pl = "peer_list_default\<lparr>peer_states := [(RemotePeerId 1, Pending), (RemotePeerId 2, Pending)],
              pending_queue := [RemotePeerId 1, RemotePeerId 2]\<rparr>"
  let ?ss = "[(?pl, Checked None), (peers_try_catch_up 7 (\<lambda>_. True) ?pl, Idle)]"
  have "peers_step (peer_list_default, Idle) (?pl, Idle)"
    by (rule peers_step.refresh [of "[RemotePeerId 1, RemotePeerId 2]" _ "Inr ()"])
      (simp_all add: peers_refresh_def peer_list_default_def)
  then have reach: "peers_step\<^sup>*\<^sup>* (peer_list_default, Idle) (?pl, Idle)" by blast
  have "peers_step (?pl, Idle) (?pl, Checked None)"
    using peers_step.snapshot [of ?pl] by (simp add: peer_list_default_def)
  then have succ: "successively peers_step ((?pl, Idle) # ?ss)"
    by (simp add: peers_step.attempt)
  have pend: "\<forall>t \<in> set ((?pl, Idle) # ?ss). hm_get (peer_states (fst t)) (RemotePeerId 2) = Some Pending"
    by (simp add: peer_list_default_def peers_try_catch_up_def next_pending_def Let_def)
  have pos: "queue_pos (RemotePeerId 2) ?pl = 1" by (simp add: queue_pos_def)
  from pending_peer_bounded_wait [OF succ reach pend] succ pos show ?thesis
    unfolding Let_def by simp
qed

end
