(* ===== verification/Consensus_Queues.thy ===== *)
theory Consensus_Queues
  imports Packet_Types Peer_Types Config
begin

text \<open>
  The channels between the network and the consensus library, \<open>consensus_ffi/consensus.rs\<close>
  with the channel helpers of \<open>consensus_ffi/helpers.rs\<close>, the container that starts and
  stops the baker, and the start-up code of \<open>plugins/consensus.rs\<close>.

  The bounded channels are the \<open>crossbeam_channel\<close> package: their operations are the
  parameter \<open>channel_ops\<close> on a record that shows the waiting elements and the capacity, and
  \<open>channel_lawful\<close> states what the package documents.  The static \<open>CALLBACK_QUEUE\<close>
  owns both ends, so a channel is never disconnected.  The consensus library itself is entered
  through its foreign function interface; here the calls that start and stop it are recorded in
  order.
\<close>

section \<open>Channels\<close>

record 'a channel =
  chan_items :: "'a list"
  chan_capacity :: nat

datatype try_send_error = Full | Disconnected

text \<open>\<open>None\<close> is a send that blocks.\<close>

record 'a channel_ops =
  chan_bounded :: "nat \<Rightarrow> 'a channel"
  chan_try_send :: "'a \<Rightarrow> 'a channel \<Rightarrow> (try_send_error + unit) \<times> 'a channel"
  chan_send :: "'a \<Rightarrow> 'a channel \<Rightarrow> (rust_error + unit) \<times> 'a channel option"
  chan_try_recv :: "'a channel \<Rightarrow> 'a option \<times> 'a channel"

definition channel_lawful :: "'a channel_ops \<Rightarrow> bool" where
  "channel_lawful ops \<longleftrightarrow>
     (\<forall>n. chan_bounded ops n = \<lparr>chan_items = [], chan_capacity = n\<rparr>) \<and>
     (\<forall>x c. chan_try_send ops x c =
        (if length (chan_items c) < chan_capacity c
         then (Inr (), c\<lparr>chan_items := chan_items c @ [x]\<rparr>) else (Inl Full, c))) \<and>
     (\<forall>x c. chan_send ops x c =
        (Inr (), if length (chan_items c) < chan_capacity c
                 then Some (c\<lparr>chan_items := chan_items c @ [x]\<rparr>) else None)) \<and>
     (\<forall>c. chan_try_recv ops c = (case chan_items c of
        [] \<Rightarrow> (None, c) | x # xs \<Rightarrow> (Some x, c\<lparr>chan_items := xs\<rparr>)))"

text \<open>\<open>RelayOrStopSenderHelper\<close>\<close>

definition send_stop :: "'a queue_msg channel_ops \<Rightarrow> 'a queue_msg channel \<Rightarrow>
    (rust_error + unit) \<times> 'a queue_msg channel option" where
  "send_stop ops c = chan_send ops Stop c"

definition send_msg :: "'a queue_msg channel_ops \<Rightarrow> 'a \<Rightarrow> 'a queue_msg channel \<Rightarrow>
    (try_send_error + unit) \<times> 'a queue_msg channel" where
  "send_msg ops m c = chan_try_send ops (Relay m) c"

definition send_blocking_msg :: "'a queue_msg channel_ops \<Rightarrow> 'a \<Rightarrow> 'a queue_msg channel \<Rightarrow>
    (rust_error + unit) \<times> 'a queue_msg channel option" where
  "send_blocking_msg ops m c = chan_send ops (Relay m) c"

section \<open>The queues\<close>

datatype consensus_log_level = Level_error | Level_warning | Level_info | Level_debug | Level_trace

definition consensus_log_level_try_from :: "u8 \<Rightarrow> consensus_log_level" where
  "consensus_log_level_try_from v =
     (if v = 1 then Level_error else if v = 2 then Level_warning else if v = 3 then Level_info
      else if v = 4 then Level_debug else Level_trace)"

definition CONSENSUS_QUEUE_DEPTH_OUT_HI :: nat where
  "CONSENSUS_QUEUE_DEPTH_OUT_HI = 8 * 1024"

definition CONSENSUS_QUEUE_DEPTH_OUT_LO :: nat where
  "CONSENSUS_QUEUE_DEPTH_OUT_LO = 16 * 1024"

definition CONSENSUS_QUEUE_DEPTH_IN_HI :: nat where
  "CONSENSUS_QUEUE_DEPTH_IN_HI = 16 * 1024"

definition CONSENSUS_QUEUE_DEPTH_IN_LO :: nat where
  "CONSENSUS_QUEUE_DEPTH_IN_LO = 32 * 1024"

type_synonym cmsg = "remote_peer_id consensus_message"

type_synonym cmsg_ops = "cmsg queue_msg channel_ops"

record priority_channels =
  high_priority :: "cmsg queue_msg channel"
  low_priority :: "cmsg queue_msg channel"

record consensus_queues =
  inbound :: priority_channels
  outbound :: priority_channels

definition inbound_queues_default :: "cmsg_ops \<Rightarrow> priority_channels" where
  "inbound_queues_default ops = \<lparr>high_priority = chan_bounded ops CONSENSUS_QUEUE_DEPTH_IN_HI,
     low_priority = chan_bounded ops CONSENSUS_QUEUE_DEPTH_IN_LO\<rparr>"

definition outbound_queues_default :: "cmsg_ops \<Rightarrow> priority_channels" where
  "outbound_queues_default ops = \<lparr>high_priority = chan_bounded ops CONSENSUS_QUEUE_DEPTH_OUT_HI,
     low_priority = chan_bounded ops CONSENSUS_QUEUE_DEPTH_OUT_LO\<rparr>"

definition consensus_queues_default :: "cmsg_ops \<Rightarrow> consensus_queues" where
  "consensus_queues_default ops =
     \<lparr>inbound = inbound_queues_default ops, outbound = outbound_queues_default ops\<rparr>"

definition send_in_high_priority_message ::
    "cmsg_ops \<Rightarrow> cmsg \<Rightarrow> consensus_queues \<Rightarrow> (try_send_error + unit) \<times> consensus_queues" where
  "send_in_high_priority_message ops m q =
     (let (r, c) = send_msg ops m (high_priority (inbound q)) in
      (r, q\<lparr>inbound := (inbound q)\<lparr>high_priority := c\<rparr>\<rparr>))"

definition send_in_low_priority_message ::
    "cmsg_ops \<Rightarrow> cmsg \<Rightarrow> consensus_queues \<Rightarrow> (try_send_error + unit) \<times> consensus_queues" where
  "send_in_low_priority_message ops m q =
     (let (r, c) = send_msg ops m (low_priority (inbound q)) in
      (r, q\<lparr>inbound := (inbound q)\<lparr>low_priority := c\<rparr>\<rparr>))"

definition send_out_message ::
    "cmsg_ops \<Rightarrow> cmsg \<Rightarrow> consensus_queues \<Rightarrow> (try_send_error + unit) \<times> consensus_queues" where
  "send_out_message ops m q =
     (let (r, c) = send_msg ops m (low_priority (outbound q)) in
      (r, q\<lparr>outbound := (outbound q)\<lparr>low_priority := c\<rparr>\<rparr>))"

definition send_out_blocking_msg ::
    "cmsg_ops \<Rightarrow> cmsg \<Rightarrow> consensus_queues \<Rightarrow> (rust_error + unit) \<times> consensus_queues option" where
  "send_out_blocking_msg ops m q =
     (let (r, c) = send_blocking_msg ops m (high_priority (outbound q)) in
      (r, map_option (\<lambda>c. q\<lparr>outbound := (outbound q)\<lparr>high_priority := c\<rparr>\<rparr>) c))"

text \<open>\<open>try_iter().count()\<close> takes whatever is there.  The receivers are behind mutexes, and the
  threads that consume the queues hold them; \<open>free\<close> tells which \<open>try_lock\<close> succeeds.\<close>

definition drain :: "bool \<Rightarrow> 'a channel \<Rightarrow> 'a channel" where
  "drain free c = (if free then c\<lparr>chan_items := []\<rparr> else c)"

definition consensus_queues_clear :: "bool \<times> bool \<times> bool \<times> bool \<Rightarrow> consensus_queues \<Rightarrow> consensus_queues" where
  "consensus_queues_clear = (\<lambda>(out_lo, out_hi, in_lo, in_hi) q.
     q\<lparr>outbound := \<lparr>high_priority = drain out_hi (high_priority (outbound q)),
                    low_priority = drain out_lo (low_priority (outbound q))\<rparr>,
       inbound := \<lparr>high_priority = drain in_hi (high_priority (inbound q)),
                   low_priority = drain in_lo (low_priority (inbound q))\<rparr>\<rparr>)"

text \<open>\<open>stop\<close>: a stop message into each of the four queues, in this order; \<open>None\<close> when one of
  them is full and the call blocks.\<close>

definition consensus_queues_stop ::
    "cmsg_ops \<Rightarrow> consensus_queues \<Rightarrow> (unit result \<times> consensus_queues) option" where
  "consensus_queues_stop ops q =
     (case send_stop ops (low_priority (outbound q)) of
        (Inl e, _) \<Rightarrow> Some (Inl e, q) | (Inr _, None) \<Rightarrow> None
      | (Inr _, Some c1) \<Rightarrow>
     (let q1 = q\<lparr>outbound := (outbound q)\<lparr>low_priority := c1\<rparr>\<rparr> in
      case send_stop ops (high_priority (outbound q1)) of
        (Inl e, _) \<Rightarrow> Some (Inl e, q1) | (Inr _, None) \<Rightarrow> None
      | (Inr _, Some c2) \<Rightarrow>
     (let q2 = q1\<lparr>outbound := (outbound q1)\<lparr>high_priority := c2\<rparr>\<rparr> in
      case send_stop ops (low_priority (inbound q2)) of
        (Inl e, _) \<Rightarrow> Some (Inl e, q2) | (Inr _, None) \<Rightarrow> None
      | (Inr _, Some c3) \<Rightarrow>
     (let q3 = q2\<lparr>inbound := (inbound q2)\<lparr>low_priority := c3\<rparr>\<rparr> in
      case send_stop ops (high_priority (inbound q3)) of
        (Inl e, _) \<Rightarrow> Some (Inl e, q3) | (Inr _, None) \<Rightarrow> None
      | (Inr _, Some c4) \<Rightarrow> Some (Inr (), q3\<lparr>inbound := (inbound q3)\<lparr>high_priority := c4\<rparr>\<rparr>)))))"

section \<open>The consensus container\<close>

datatype consensus_type = Active | Passive

definition consensus_type_display :: "consensus_type \<Rightarrow> string" where
  "consensus_type_display t = (case t of Active \<Rightarrow> ''Active'' | Passive \<Rightarrow> ''Passive'')"

record runtime_parameters =
  max_block_size :: u64
  block_construction_timeout :: u64
  insertions_before_purging :: u64
  transaction_keep_alive :: u64
  transactions_purging_delay :: u64
  accounts_cache_size :: u32
  modules_cache_size :: u32

text \<open>What the container asks of the consensus library.\<close>

datatype container_call = StartBaker | StopBaker | StopConsensus | StopHaskell

record consensus_container =
  container_parameters :: runtime_parameters
  is_baking :: bool
  container_genesis :: bytes
  container_type :: consensus_type
  container_calls :: "container_call list"

text \<open>\<open>get_consensus_ptr\<close> starts the library; it is a parameter.\<close>

definition consensus_container_new ::
    "(runtime_parameters \<Rightarrow> bytes \<Rightarrow> bytes option \<Rightarrow> string \<Rightarrow> unit result) \<Rightarrow>
     runtime_parameters \<Rightarrow> bytes \<Rightarrow> bytes option \<Rightarrow> string \<Rightarrow> consensus_container result" where
  "consensus_container_new get_consensus_ptr params genesis_data private_data appdata_dir =
     (case get_consensus_ptr params genesis_data private_data appdata_dir of
        Inl e \<Rightarrow> Inl e
      | Inr _ \<Rightarrow> Inr \<lparr>container_parameters = params, is_baking = False, container_genesis = genesis_data,
          container_type = (if private_data \<noteq> None then Active else Passive), container_calls = []\<rparr>)"

definition is_active :: "consensus_container \<Rightarrow> bool" where
  "is_active c \<longleftrightarrow> container_type c = Active"

definition start_baker :: "consensus_container \<Rightarrow> bool \<times> consensus_container" where
  "start_baker c =
     (if \<not> is_active c \<or> is_baking c then (False, c)
      else (True, c\<lparr>container_calls := container_calls c @ [StartBaker], is_baking := True\<rparr>))"

definition stop_baker :: "consensus_container \<Rightarrow> bool \<times> consensus_container" where
  "stop_baker c =
     (if \<not> is_active c \<or> \<not> is_baking c then (False, c)
      else (True, c\<lparr>container_calls := container_calls c @ [StopBaker], is_baking := False\<rparr>))"

definition container_stop ::
    "bool \<times> bool \<times> bool \<times> bool \<Rightarrow> consensus_container \<times> consensus_queues \<Rightarrow>
     consensus_container \<times> consensus_queues" where
  "container_stop free = (\<lambda>(c, q).
     (let c' = snd (stop_baker c) in
      (c'\<lparr>container_calls := container_calls c' @ [StopConsensus]\<rparr>, consensus_queues_clear free q)))"

definition runtime_parameters_of :: "baker_config \<Rightarrow> runtime_parameters" where
  "runtime_parameters_of conf =
     \<lparr>max_block_size = ucast (bk_maximum_block_size conf),
      block_construction_timeout = ucast (bk_block_construction_timeout conf),
      insertions_before_purging = ucast (bk_transaction_insertions_before_purge conf),
      transaction_keep_alive = ucast (bk_transaction_keep_alive conf),
      transactions_purging_delay = ucast (bk_transactions_purging_delay conf),
      accounts_cache_size = bk_account_cache_size conf,
      modules_cache_size = bk_modules_cache_size conf\<rparr>"

definition start_consensus_layer ::
    "(runtime_parameters \<Rightarrow> bytes \<Rightarrow> bytes option \<Rightarrow> string \<Rightarrow> unit result) \<Rightarrow>
     baker_config \<Rightarrow> bytes \<Rightarrow> bytes option \<Rightarrow> string \<Rightarrow> consensus_container result" where
  "start_consensus_layer get_consensus_ptr conf genesis_data private_data appdata_dir =
     consensus_container_new get_consensus_ptr (runtime_parameters_of conf) genesis_data private_data appdata_dir"

definition stop_consensus_layer ::
    "bool \<times> bool \<times> bool \<times> bool \<Rightarrow> consensus_container \<times> consensus_queues \<Rightarrow>
     consensus_container \<times> consensus_queues" where
  "stop_consensus_layer free s =
     (let (c, q) = container_stop free s in (c\<lparr>container_calls := container_calls c @ [StopHaskell]\<rparr>, q))"

text \<open>\<open>get_baker_data\<close>; opening and reading a file, joining paths and the credentials are
  parameters.\<close>

definition get_baker_data ::
    "(string \<Rightarrow> bytes result result) \<Rightarrow> (string \<Rightarrow> string \<Rightarrow> string) \<Rightarrow> (baker_config \<Rightarrow> bytes option result) \<Rightarrow>
     string \<Rightarrow> baker_config \<Rightarrow> (bytes \<times> bytes option) result" where
  "get_baker_data open_file join credentials data_dir conf =
     (case open_file (join data_dir (bk_genesis_data_file conf)) of
        Inl _ \<Rightarrow> Inl (Bail ''Cannot open the genesis file'')
      | Inr (Inl _) \<Rightarrow> Inl (Bail ''Cannot not read genesis file'')
      | Inr (Inr genesis_data) \<Rightarrow>
          (case credentials conf of
             Inl e \<Rightarrow> Inl e
           | Inr private_data \<Rightarrow> Inr (genesis_data, private_data)))"

section \<open>Regenesis\<close>

record regenesis =
  rg_blocks :: "block_hash list"
  rg_trigger_catchup :: bool
  rg_stop_network :: bool

definition regenesis_default :: regenesis where
  "regenesis_default = \<lparr>rg_blocks = [], rg_trigger_catchup = False, rg_stop_network = False\<rparr>"

definition regenesis_from_blocks :: "block_hash list \<Rightarrow> regenesis" where
  "regenesis_from_blocks bs = \<lparr>rg_blocks = bs, rg_trigger_catchup = False, rg_stop_network = False\<rparr>"

section \<open>The threads that consume the queues\<close>

text \<open>
  One round of the loop of \<open>start_consensus_message_threads\<close> (\<open>bin/cli.rs\<close>), which is the
  same for the inbound and the outbound queues: at most \<open>depth\<close> messages of high priority, then
  one of low priority; it waits when both queues were empty.  \<open>handled\<close> are the messages given
  to the handler, in order.
\<close>

fun high_loop :: "nat \<Rightarrow> 'a queue_msg list \<Rightarrow> 'a list \<times> bool \<times> bool \<times> 'a queue_msg list" where
  "high_loop 0 q = ([], False, False, q)"
| "high_loop (Suc n) [] = ([], False, True, [])"
| "high_loop (Suc n) (Stop # q) = ([], True, False, q)"
| "high_loop (Suc n) (Relay m # q) =
     (let (handled, stop, exhausted, q') = high_loop n q in (m # handled, stop, exhausted, q'))"

datatype round_outcome = Stopped | Continue | Wait

definition consume_round ::
    "nat \<Rightarrow> 'a queue_msg list \<Rightarrow> 'a queue_msg list \<Rightarrow>
     'a list \<times> round_outcome \<times> 'a queue_msg list \<times> 'a queue_msg list" where
  "consume_round depth hi lo =
     (let (handled, stop, exhausted, hi') = high_loop depth hi in
      if stop then (handled, Stopped, hi', lo)
      else (case lo of
              Relay m # lo' \<Rightarrow> (handled @ [m], Continue, hi', lo')
            | Stop # lo' \<Rightarrow> (handled, Stopped, hi', lo')
            | [] \<Rightarrow> (handled, if exhausted then Wait else Continue, hi', lo)))"

text \<open>Rounds until the thread stops or waits for new messages.  The round size is \<open>Suc depth\<close>, since the
  constants of the source are positive.\<close>

lemma high_loop_length:
  "high_loop n q = (handled, stop, exhausted, q') \<Longrightarrow>
     length q = length handled + length q' + (if stop then 1 else 0) \<and> (exhausted \<longrightarrow> q' = []) \<and>
     (\<not> stop \<longrightarrow> \<not> exhausted \<longrightarrow> length handled = n)"
  by (induction n q arbitrary: handled rule: high_loop.induct) (auto split: prod.splits)

lemma consume_round_length:
  assumes "consume_round depth hi lo = (handled, Continue, hi', lo')" "0 < depth"
  shows "length hi' + length lo' < length hi + length lo"
  using assms
  by (auto simp: consume_round_def split: prod.splits if_splits list.splits queue_msg.splits
      dest!: high_loop_length)

function consume ::
    "nat \<Rightarrow> 'a queue_msg list \<Rightarrow> 'a queue_msg list \<Rightarrow> 'a list \<times> bool \<times> 'a queue_msg list \<times> 'a queue_msg list" where
  "consume depth hi lo =
     (case consume_round (Suc depth) hi lo of
        (handled, Stopped, hi', lo') \<Rightarrow> (handled, True, hi', lo')
      | (handled, Wait, hi', lo') \<Rightarrow> (handled, False, hi', lo')
      | (handled, Continue, hi', lo') \<Rightarrow>
          (let (tailm, stop, hi2, lo2) = consume depth hi' lo' in (handled @ tailm, stop, hi2, lo2)))"
  by pat_completeness auto

termination
  by (relation "measure (\<lambda>(depth, hi, lo). length hi + length lo)")
    (auto dest!: sym [of "(_, Continue, _)"] dest: consume_round_length)

declare consume.simps [simp del]

section \<open>Starting and stopping the baker\<close>

inductive container_step :: "consensus_container \<Rightarrow> consensus_container \<Rightarrow> bool" where
  start: "container_step c (snd (start_baker c))"
| stop: "container_step c (snd (stop_baker c))"
| shut: "container_step c (fst (container_stop free (c, q)))"

text \<open>Whether the baker runs after a list of calls; \<open>None\<close> when it was started twice or stopped
  while it did not run.\<close>

fun baker_runs :: "container_call list \<Rightarrow> bool \<Rightarrow> bool option" where
  "baker_runs [] b = Some b"
| "baker_runs (StartBaker # cs) b = (if b then None else baker_runs cs True)"
| "baker_runs (StopBaker # cs) b = (if b then baker_runs cs False else None)"
| "baker_runs (c # cs) b = baker_runs cs b"

lemma baker_runs_append: "baker_runs (cs @ ds) b = Option.bind (baker_runs cs b) (baker_runs ds)"
  by (induction cs b rule: baker_runs.induct) auto

definition container_inv :: "consensus_container \<Rightarrow> bool" where
  "container_inv c \<longleftrightarrow> baker_runs (container_calls c) False = Some (is_baking c) \<and>
     (\<not> is_active c \<longrightarrow> \<not> is_baking c \<and> StartBaker \<notin> set (container_calls c))"

lemma container_step_inv: "container_step c c' \<Longrightarrow> container_inv c \<Longrightarrow> container_inv c'"
  by (induction rule: container_step.induct)
    (auto simp: container_inv_def start_baker_def stop_baker_def container_stop_def is_active_def
      baker_runs_append Let_def)

interpretation container_sys: transition_system
  "\<lambda>c. \<exists>f params gen priv dir. consensus_container_new f params gen priv dir = Inr c"
  container_step container_inv
proof unfold_locales
  fix c
  assume "\<exists>f params gen priv dir. consensus_container_new f params gen priv dir = Inr c"
  then obtain f params gen priv dir where "consensus_container_new f params gen priv dir = Inr c" by blast
  then show "container_inv c"
    by (cases "f params gen priv dir") (auto simp: consensus_container_new_def container_inv_def)
next
  show "container_step c c' \<Longrightarrow> container_inv c \<Longrightarrow> container_inv c'" for c c'
    by (rule container_step_inv)
qed

section \<open>What the threads handle\<close>

lemma shuffles_prefix:
  assumes "tailm \<in> shuffles xs ys"
  shows "hs @ ls @ tailm \<in> shuffles (hs @ xs) (ls @ ys)"
proof -
  have "ls @ tailm \<in> shuffles xs (ls @ ys)"
    by (induction ls) (simp_all add: assms Cons_in_shuffles_rightI)
  then show ?thesis by (induction hs) (simp_all add: Cons_in_shuffles_leftI)
qed

lemma high_loop_split:
  "high_loop n q = (handled, stop, exhausted, q') \<Longrightarrow>
     q = map Relay handled @ (if stop then Stop # q' else q')"
  by (induction n q arbitrary: handled rule: high_loop.induct) (auto split: prod.splits)

lemma consume_round_split:
  assumes "consume_round depth hi lo = (handled, out, hi', lo')"
  shows "\<exists>hs ls. handled = hs @ ls \<and>
    (out \<noteq> Stopped \<longrightarrow> hi = map Relay hs @ hi' \<and> lo = map Relay ls @ lo') \<and>
    (out = Stopped \<longrightarrow> ls = [] \<and> (hi = map Relay hs @ Stop # hi' \<and> lo = lo' \<or>
       hi = map Relay hs @ hi' \<and> lo = Stop # lo')) \<and>
    (out = Wait \<longrightarrow> hi' = [] \<and> lo' = [])"
proof -
  obtain hs stop ex q where loop: "high_loop depth hi = (hs, stop, ex, q)"
    by (cases "high_loop depth hi") auto
  note split = high_loop_split [OF loop] high_loop_length [OF loop]
  show ?thesis
  proof (cases stop)
    case True
    with assms split loop show ?thesis
      by (intro exI [of _ hs] exI [of _ "[]"]) (auto simp: consume_round_def)
  next
    case False
    then show ?thesis
    proof (cases lo)
      case Nil
      with False assms split loop show ?thesis
        by (intro exI [of _ hs] exI [of _ "[]"]) (auto simp: consume_round_def split: if_splits)
    next
      case (Cons x xs)
      with False assms split loop show ?thesis
        by (intro exI [of _ hs] exI [of _ "case x of Relay m \<Rightarrow> [m] | Stop \<Rightarrow> []"])
          (auto simp: consume_round_def split: queue_msg.splits)
    qed
  qed
qed

lemma consume_split:
  "consume depth hi lo = (handled, stop, hi', lo') \<Longrightarrow>
    \<exists>hs ls. handled \<in> shuffles hs ls \<and>
      (\<not> stop \<longrightarrow> hi = map Relay hs \<and> lo = map Relay ls \<and> hi' = [] \<and> lo' = []) \<and>
      (stop \<longrightarrow> hi = map Relay hs @ Stop # hi' \<and> lo = map Relay ls @ lo' \<or>
         hi = map Relay hs @ hi' \<and> lo = map Relay ls @ Stop # lo')"
proof (induction "length hi + length lo" arbitrary: hi lo handled rule: less_induct)
  case less
  obtain h out hi1 lo1 where round: "consume_round (Suc depth) hi lo = (h, out, hi1, lo1)"
    by (cases "consume_round (Suc depth) hi lo") auto
  from consume_round_split [OF round] obtain hs ls where r: "h = hs @ ls"
    "out \<noteq> Stopped \<longrightarrow> hi = map Relay hs @ hi1 \<and> lo = map Relay ls @ lo1"
    "out = Stopped \<longrightarrow> ls = [] \<and> (hi = map Relay hs @ Stop # hi1 \<and> lo = lo1 \<or>
       hi = map Relay hs @ hi1 \<and> lo = Stop # lo1)"
    "out = Wait \<longrightarrow> hi1 = [] \<and> lo1 = []" by blast
  have own: "hs @ ls \<in> shuffles hs ls"
    using shuffles_prefix [of "[]" "[]" "[]" hs ls] by simp
  show ?case
  proof (cases out)
    case Stopped
    with less.prems round have "handled = h" "stop" "hi' = hi1" "lo' = lo1"
      by (simp_all add: consume.simps [of depth hi lo])
    with Stopped r own show ?thesis by (intro exI [of _ hs] exI [of _ "[]"]) auto
  next
    case Wait
    with less.prems round have "handled = h" "\<not> stop" "hi' = hi1" "lo' = lo1"
      by (simp_all add: consume.simps [of depth hi lo])
    with Wait r own show ?thesis by (intro exI [of _ hs] exI [of _ ls]) auto
  next
    case Continue
    obtain tailm st hi2 lo2 where rest: "consume depth hi1 lo1 = (tailm, st, hi2, lo2)"
      by (cases "consume depth hi1 lo1") auto
    with less.prems round Continue have eq: "handled = h @ tailm" "stop = st" "hi' = hi2" "lo' = lo2"
      by (simp_all add: consume.simps [of depth hi lo])
    have "length hi1 + length lo1 < length hi + length lo"
      using consume_round_length [OF round [unfolded Continue]] by simp
    from less.hyps [OF this rest [folded eq(2-4)]] obtain hs2 ls2 where r2: "tailm \<in> shuffles hs2 ls2"
      "\<not> stop \<longrightarrow> hi1 = map Relay hs2 \<and> lo1 = map Relay ls2 \<and> hi' = [] \<and> lo' = []"
      "stop \<longrightarrow> hi1 = map Relay hs2 @ Stop # hi' \<and> lo1 = map Relay ls2 @ lo' \<or>
         hi1 = map Relay hs2 @ hi' \<and> lo1 = map Relay ls2 @ Stop # lo'" by blast
    have "h @ tailm \<in> shuffles (hs @ hs2) (ls @ ls2)"
      unfolding r(1) using shuffles_prefix [OF r2(1)] by simp
    with Continue r r2 eq show ?thesis
      by (intro exI [of _ "hs @ hs2"] exI [of _ "ls @ ls2"]) auto
  qed
qed

section \<open>Properties\<close>

text \<open>(C21) Whatever the order of the calls to start and stop it, the consensus library is never asked to
  start a baker that runs or to stop one that does not, the flag of the container says whether
  the baker runs, and a node without baker credentials never starts one.\<close>

theorem baker_calls_alternate:
  assumes "consensus_container_new f params gen priv dir = Inr c" "container_step\<^sup>*\<^sup>* c c'"
  shows "baker_runs (container_calls c') False = Some (is_baking c') \<and>
    (container_type c' = Passive \<longrightarrow> StartBaker \<notin> set (container_calls c'))"
proof -
  have "container_inv c'" using container_sys.inv_reachable [OF _ assms(2)] assms(1) by blast
  then show ?thesis by (simp add: container_inv_def is_active_def)
qed

theorem baker_calls_alternate_witness:
  "\<exists>c c'. consensus_container_new (\<lambda>_ _ _ _. Inr ()) (runtime_parameters_of default_baker) [1] (Some [2]) [] = Inr c \<and>
     container_step\<^sup>*\<^sup>* c c' \<and> container_calls c' = [StartBaker, StopBaker, StartBaker] \<and>
     baker_runs (container_calls c') False = Some True"
proof -
  let ?c = "\<lparr>container_parameters = runtime_parameters_of default_baker, is_baking = False,
    container_genesis = [1], container_type = Active, container_calls = []\<rparr>"
  have new: "consensus_container_new (\<lambda>_ _ _ _. Inr ()) (runtime_parameters_of default_baker) [1] (Some [2]) [] = Inr ?c"
    by (simp add: consensus_container_new_def)
  let ?c' = "snd (start_baker (snd (stop_baker (snd (start_baker ?c)))))"
  have run: "container_step\<^sup>*\<^sup>* ?c ?c'"
    using container_step.start [of ?c] container_step.stop [of "snd (start_baker ?c)"]
      container_step.start [of "snd (stop_baker (snd (start_baker ?c)))"]
    by (meson r_into_rtranclp rtranclp_trans)
  have "container_calls ?c' = [StartBaker, StopBaker, StartBaker]" "is_baking ?c'"
    by (simp_all add: start_baker_def stop_baker_def is_active_def)
  with baker_calls_alternate [OF new run] new run show ?thesis by metis
qed



text \<open>(C24) When the node closes and puts a stop signal behind the messages of every queue, the thread
  handles the messages of high priority and then stops: everything in the queue of low priority
  (all waiting transactions) is discarded, since the round size is the capacity of the queue of
  high priority.\<close>

theorem low_priority_lost_at_stop:
  assumes "length hs \<le> depth"
  shows "consume depth (map Relay hs @ [Stop]) (map Relay ls @ [Stop]) = (hs, True, [], map Relay ls @ [Stop])"
proof -
  have "high_loop (Suc depth) (map Relay hs @ [Stop]) = (hs, True, False, [])"
    using assms
  proof (induction hs arbitrary: depth)
    case (Cons h hs)
    then show ?case by (cases depth) auto
  qed simp
  then show ?thesis by (simp add: consume.simps consume_round_def)
qed

theorem low_priority_lost_at_stop_witness:
  "consume 4 (map Relay [1, 2] @ [Stop]) (map Relay [7, 8, 9 :: nat] @ [Stop]) = ([1, 2], True, [], map Relay [7, 8, 9] @ [Stop])"
  by (rule low_priority_lost_at_stop) simp

end
