(* ===== verification/Node_State.thy ===== *)
theory Node_State
  imports Metrics Buckets Dedup_Queues Message_Queues Config Low_Level Wire_Format Peer_List
    Consensus_Queues
begin

text \<open>
  The state of a node and of a connection, and the operations of a connection that do not
  process a message: the structs of \<open>p2p/maintenance.rs\<close> and \<open>connection/mod.rs\<close>,
  \<open>p2p/bans.rs\<close> and the persistent peers of \<open>p2p/peers.rs\<close>.

  \<^item> \<open>env\<close> collects what one call gets from outside: the clock (one reading per call), the
    packages that are parameters of the model, the random choices of this call, and the answers
    of the operating system.
  \<^item> \<open>p2p_node\<close> is the struct \<open>P2PNode\<close> with its \<open>ConnectionHandler\<close>, the
    mutable parts of its configuration, the regenesis flags and the static queues to consensus.
    Locks are not modelled: an operation runs from its first lock to its last.
  \<^item> A connection refers to its node; here the node is passed along.  Reading and writing the
    \<open>stats\<close> of the node appends to a log of metric updates.
  \<^item> The key-value store is the \<open>rkv\<close> package.  A write transaction (\<open>write\<close>, one
    update, \<open>commit\<close>) is one operation of the parameter.
\<close>

section \<open>Results with effects\<close>

definition bind_res :: "'a result \<times> 's \<Rightarrow> ('a \<Rightarrow> 's \<Rightarrow> 'b result \<times> 's) \<Rightarrow> 'b result \<times> 's" where
  "bind_res m f = (case m of (Inl e, s) \<Rightarrow> (Inl e, s) | (Inr x, s) \<Rightarrow> f x s)"

lemma bind_res_simps [simp]:
  "bind_res (Inl e, s) f = (Inl e, s)"
  "bind_res (Inr x, s) f = f x s"
  by (simp_all add: bind_res_def)

section \<open>State\<close>

datatype conn_change =
    ExpulsionByToken token
  | NewConn socket_addr peer_type bool
  | NewPeers "p2p_peer list"
  | Promotion token
  | RemovalByToken token
  | RemoveAllByTokens "token list"

datatype ban_id = Ban_ip ip_addr | Ban_socket socket_addr

datatype persisted_ban_id = Persisted_ip ip_addr

primrec ban_id_from :: "persisted_ban_id \<Rightarrow> ban_id" where
  "ban_id_from (Persisted_ip i) = Ban_ip i"

record 'ns connection =
  c_remote_peer :: remote_peer
  c_low_level :: "'ns low_level"
  c_networks :: networks
  c_stats :: connection_stats
  c_pending :: message_queues
  c_wire_version :: u8

type_synonym 'ns connections = "(token, 'ns connection) hmap"

record bad_events =
  dropped_high_queue :: "(remote_peer_id, u64) hmap"
  dropped_low_queue :: "(remote_peer_id, u64) hmap"
  invalid_messages :: "(remote_peer_id, u64) hmap"

definition bad_events_default :: bad_events where
  "bad_events_default = \<lparr>dropped_high_queue = [], dropped_low_queue = [], invalid_messages = []\<rparr>"

definition inc_dropped_high_queue :: "remote_peer_id \<Rightarrow> bad_events \<Rightarrow> u64 \<times> bad_events" where
  "inc_dropped_high_queue p b =
     (let (n, m) = hm_count p (dropped_high_queue b) in (n, b\<lparr>dropped_high_queue := m\<rparr>))"

definition inc_dropped_low_queue :: "remote_peer_id \<Rightarrow> bad_events \<Rightarrow> u64 \<times> bad_events" where
  "inc_dropped_low_queue p b =
     (let (n, m) = hm_count p (dropped_low_queue b) in (n, b\<lparr>dropped_low_queue := m\<rparr>))"

definition inc_invalid_messages :: "remote_peer_id \<Rightarrow> bad_events \<Rightarrow> u64 \<times> bad_events" where
  "inc_invalid_messages p b =
     (let (n, m) = hm_count p (invalid_messages b) in (n, b\<lparr>invalid_messages := m\<rparr>))"

text \<open>The atomics of \<open>StatsExportService\<close> for the throughput; the timestamp is an \<open>i64\<close>.\<close>

record throughput =
  tp_received_bytes :: u64
  tp_sent_bytes :: u64
  tp_timestamp :: int
  tp_avg_bps_in :: u64
  tp_avg_bps_out :: u64

datatype kv_action = Kv_put bytes | Kv_delete bytes | Kv_clear

record ('ns, 'kv) p2p_node =
  self_peer :: p2p_peer
  n_config :: node_config
  given_addresses :: "socket_addr hset"
  n_regenesis :: regenesis
  next_token :: usize
  n_buckets :: buckets
  conn_candidates :: "'ns connections"
  connections :: "'ns connections"
  conn_changes :: "conn_change channel"
  soft_bans :: "(ban_id, nat) hmap"
  n_networks :: networks
  n_dedup :: dedup_queues
  last_bootstrap :: u64
  last_peer_update :: u64
  total_received :: u64
  total_sent :: u64
  n_stats :: metric_log
  n_throughput :: throughput
  n_kvs :: 'kv
  n_peers :: peer_list
  n_bad_events :: bad_events
  callback_queue :: consensus_queues

record ('ns, 'kv) env =
  e_now :: u64
  e_instant :: nat
  e_millis :: int
  e_noise :: "'ns noise_ops"
  e_dedup :: dedup_env
  e_fb :: fb_env
  e_version :: "version result"
  e_changes :: "conn_change channel_ops"
  e_cmsgs :: cmsg_ops
  e_register :: "token \<Rightarrow> unit result"
  e_dial :: "socket_addr \<Rightarrow> socket result"
  e_resolve :: "string \<Rightarrow> socket_addr list result"
  e_choose_nodes :: "remote_peer list \<Rightarrow> nat \<Rightarrow> remote_peer list"
  e_choose_peers :: "remote_peer_id list \<Rightarrow> nat \<Rightarrow> remote_peer_id list"
  e_choose_tokens :: "token list \<Rightarrow> nat \<Rightarrow> token list"
  e_shuffle :: "p2p_peer list \<Rightarrow> p2p_peer list"
  e_bernoulli :: "rat \<Rightarrow> bool result"
  e_u8_deserial :: "bytes \<Rightarrow> u8 result"
  e_u32_deserial :: "bytes \<Rightarrow> u32 result"
  e_u8_serial :: "u8 \<Rightarrow> bytes"
  e_u32_serial :: "u32 \<Rightarrow> bytes"
  e_ip_serial :: "ip_addr \<Rightarrow> bytes"
  e_ip_deserial :: "bytes \<Rightarrow> ip_addr result"
  e_addr_to_json :: "socket_addr \<Rightarrow> bytes result"
  e_addr_from_json :: "bytes \<Rightarrow> socket_addr result"
  e_kvs_lock :: bool
  e_kv_open :: "string \<Rightarrow> 'kv \<Rightarrow> unit result"
  e_kv_transact :: "string \<Rightarrow> kv_action \<Rightarrow> 'kv \<Rightarrow> unit result \<times> 'kv"
  e_kv_get :: "string \<Rightarrow> bytes \<Rightarrow> 'kv \<Rightarrow> bool result"
  e_kv_iter :: "string \<Rightarrow> 'kv \<Rightarrow> bytes result list result"

section \<open>Small operations of the node\<close>

definition log_metrics :: "metric_log \<Rightarrow> ('ns, 'kv) p2p_node \<Rightarrow> ('ns, 'kv) p2p_node" where
  "log_metrics l n = n\<lparr>n_stats := n_stats n @ l\<rparr>"

abbreviation node_type :: "('ns, 'kv) p2p_node \<Rightarrow> peer_type" where
  "node_type n \<equiv> pp_peer_type (self_peer n)"

definition update_last_bootstrap :: "('ns, 'kv) env \<Rightarrow> ('ns, 'kv) p2p_node \<Rightarrow> ('ns, 'kv) p2p_node" where
  "update_last_bootstrap env n = n\<lparr>last_bootstrap := e_now env\<rparr>"

definition bump_last_peer_update :: "('ns, 'kv) env \<Rightarrow> ('ns, 'kv) p2p_node \<Rightarrow> ('ns, 'kv) p2p_node" where
  "bump_last_peer_update env n = n\<lparr>last_peer_update := e_now env\<rparr>"

definition is_bucket_cleanup_enabled :: "('ns, 'kv) p2p_node \<Rightarrow> bool" where
  "is_bucket_cleanup_enabled n \<longleftrightarrow> nc_timeout_bucket_entry_period (n_config n) > 0"

definition is_soft_banned :: "socket_addr \<Rightarrow> ('ns, 'kv) p2p_node \<Rightarrow> bool" where
  "is_soft_banned a n \<longleftrightarrow>
     hm_get (soft_bans n) (Ban_ip (sa_ip a)) \<noteq> None \<or> hm_get (soft_bans n) (Ban_socket a) \<noteq> None"

text \<open>A change that does not fit the channel is logged and lost.\<close>

definition register_conn_change ::
    "('ns, 'kv) env \<Rightarrow> conn_change \<Rightarrow> ('ns, 'kv) p2p_node \<Rightarrow> ('ns, 'kv) p2p_node" where
  "register_conn_change env ch n =
     n\<lparr>conn_changes := snd (chan_try_send (e_changes env) ch (conn_changes n))\<rparr>"

definition is_network_stopped :: "('ns, 'kv) p2p_node \<Rightarrow> bool" where
  "is_network_stopped n = rg_stop_network (n_regenesis n)"

definition stop_network :: "('ns, 'kv) p2p_node \<Rightarrow> ('ns, 'kv) p2p_node" where
  "stop_network n = n\<lparr>n_regenesis := (n_regenesis n)\<lparr>rg_stop_network := True\<rparr>\<rparr>"

definition add_network :: "network_id \<Rightarrow> ('ns, 'kv) p2p_node \<Rightarrow> ('ns, 'kv) p2p_node" where
  "add_network i n = n\<lparr>n_networks := hs_insert i (n_networks n)\<rparr>"

section \<open>Connections\<close>

definition conn_token :: "'ns connection \<Rightarrow> token" where
  "conn_token c = to_token (local_id (c_remote_peer c))"

definition connection_eq :: "'ns connection \<Rightarrow> 'ns connection \<Rightarrow> bool" where
  "connection_eq c d \<longleftrightarrow> conn_token c = conn_token d"

definition remote_addr :: "'ns connection \<Rightarrow> socket_addr" where
  "remote_addr c = addr (c_remote_peer c)"

definition last_seen :: "'ns connection \<Rightarrow> u64" where
  "last_seen c = cs_last_seen (c_stats c)"

definition is_post_handshake :: "'ns connection \<Rightarrow> bool" where
  "is_post_handshake c \<longleftrightarrow> self_id (c_remote_peer c) \<noteq> None"

definition connection_new ::
    "('ns, 'kv) env \<Rightarrow> ('ns, 'kv) p2p_node \<Rightarrow> socket \<Rightarrow> token \<Rightarrow> remote_peer \<Rightarrow> bool \<Rightarrow> 'ns connection result" where
  "connection_new env n sock tok rp is_initiator =
     (let ll = low_level_new (e_noise env) (nc_socket_so_linger (n_config n)) sock is_initiator
                 (nc_socket_read_size (n_config n)) (nc_socket_write_size (n_config n)) in
      case e_register env tok of
        Inl e \<Rightarrow> Inl e
      | Inr _ \<Rightarrow> Inr \<lparr>c_remote_peer = rp, c_low_level = ll, c_networks = [],
          c_stats = connection_stats_new (e_now env), c_pending = mq_new,
          c_wire_version = WIRE_PROTOCOL_CURRENT_VERSION\<rparr>)"

text \<open>\<open>Drop\<close>: the metric updates of a connection that goes away.\<close>

definition connection_drop :: "'ns connection \<Rightarrow> metric_log" where
  "connection_drop c = (if self_id (c_remote_peer c) \<noteq> None then [Metric_dec Connected_peers] else [])"

definition drop_all :: "'ns connection list \<Rightarrow> metric_log" where
  "drop_all cs = concat (map connection_drop cs)"

definition async_send :: "bytes \<Rightarrow> message_sending_priority \<Rightarrow> 'ns connection \<Rightarrow> 'ns connection" where
  "async_send msg pr c = c\<lparr>c_pending := enqueue pr msg (c_pending c)\<rparr>"

definition update_last_seen ::
    "('ns, 'kv) env \<Rightarrow> ('ns, 'kv) p2p_node \<Rightarrow> 'ns connection \<Rightarrow> 'ns connection" where
  "update_last_seen env n c =
     (if node_type n \<noteq> Bootstrapper then c\<lparr>c_stats := (c_stats c)\<lparr>cs_last_seen := e_now env\<rparr>\<rparr> else c)"

text \<open>From here on an operation of a connection works on the connection and its node.\<close>

type_synonym ('ns, 'kv) conn_node = "'ns connection \<times> ('ns, 'kv) p2p_node"

definition apply_buckets ::
    "(buckets \<Rightarrow> (metric_log \<times> buckets) result) \<Rightarrow> ('ns, 'kv) p2p_node \<Rightarrow> unit result \<times> ('ns, 'kv) p2p_node" where
  "apply_buckets f n = (case f (n_buckets n) of
     Inl e \<Rightarrow> (Inl e, n)
   | Inr (l, b) \<Rightarrow> (Inr (), log_metrics l (n\<lparr>n_buckets := b\<rparr>)))"

definition populate_remote_end_networks ::
    "('ns, 'kv) env \<Rightarrow> remote_peer \<Rightarrow> networks \<Rightarrow> ('ns, 'kv) conn_node \<Rightarrow> unit result \<times> ('ns, 'kv) conn_node" where
  "populate_remote_end_networks env rp nets = (\<lambda>(c, n).
     (let c' = c\<lparr>c_networks := hs_extend (c_networks c) nets\<rparr> in
      if node_type n = Bootstrapper \<and> peer_type (c_remote_peer c) \<noteq> Bootstrapper
      then (let (r, n') = apply_buckets (insert_into_bucket (e_now env) rp nets) n in (r, c', n'))
      else (Inr (), c', n)))"

definition promote_to_post_handshake ::
    "('ns, 'kv) env \<Rightarrow> p2p_node_id \<Rightarrow> u16 \<Rightarrow> networks \<Rightarrow> u8 \<Rightarrow> ('ns, 'kv) conn_node \<Rightarrow>
     unit result \<times> ('ns, 'kv) conn_node" where
  "promote_to_post_handshake env i peer_port nets wv = (\<lambda>(c, n).
     (let c1 = c\<lparr>c_remote_peer := (c_remote_peer c)\<lparr>self_id := Some i, external_port := peer_port\<rparr>\<rparr>;
          n1 = log_metrics [Metric_inc Connected_peers, Metric_inc Total_peers] n;
          n2 = (if peer_type (c_remote_peer c1) = Bootstrapper then update_last_bootstrap env n1 else n1) in
      bind_res (populate_remote_end_networks env (c_remote_peer c1) nets (c1, n2)) (\<lambda>_ (c2, n3).
        (let c3 = c2\<lparr>c_wire_version := wv\<rparr> in
         (Inr (), c3, register_conn_change env (Promotion (conn_token c3)) n3)))))"

definition add_remote_end_network ::
    "('ns, 'kv) env \<Rightarrow> network_id \<Rightarrow> ('ns, 'kv) conn_node \<Rightarrow> unit result \<times> ('ns, 'kv) conn_node" where
  "add_remote_end_network env i = (\<lambda>(c, n).
     (if \<not> length (c_networks c) < MAX_PEER_NETWORKS
      then (Inl (Bail ''refusing to add any more networks''), c, n)
      else
        (let c' = c\<lparr>c_networks := hs_insert i (c_networks c)\<rparr> in
         if \<not> is_post_handshake c' then (Inl (Bail ''missing handshake''), c', n)
         else (let (r, n') = apply_buckets (update_network_ids (e_now env) (c_remote_peer c') (c_networks c')) n in
               (r, c', n')))))"

definition remove_remote_end_network ::
    "('ns, 'kv) env \<Rightarrow> network_id \<Rightarrow> ('ns, 'kv) conn_node \<Rightarrow> unit result \<times> ('ns, 'kv) conn_node" where
  "remove_remote_end_network env i = (\<lambda>(c, n).
     (let c' = c\<lparr>c_networks := hs_remove i (c_networks c)\<rparr> in
      if \<not> is_post_handshake c' then (Inl (Bail ''missing handshake''), c', n)
      else (let (r, n') = apply_buckets (update_network_ids (e_now env) (c_remote_peer c') (c_networks c')) n in
            (r, c', n'))))"

definition send_ping :: "('ns, 'kv) env \<Rightarrow> 'ns connection \<Rightarrow> unit result \<times> 'ns connection" where
  "send_ping env c =
     (case serialize (e_fb env) (e_now env) (netmsg (e_now env) (NetworkRequest Ping)) of
        Inl e \<Rightarrow> (Inl e, c)
      | Inr bs \<Rightarrow> (Inr (), async_send bs High (c\<lparr>c_stats := notify_ping (e_now env) (c_stats c)\<rparr>)))"

definition send_pong :: "('ns, 'kv) env \<Rightarrow> 'ns connection \<Rightarrow> unit result \<times> 'ns connection" where
  "send_pong env c =
     (case serialize (e_fb env) (e_now env) (netmsg (e_now env) (NetworkResponse Pong)) of
        Inl e \<Rightarrow> (Inl e, c)
      | Inr bs \<Rightarrow> (Inr (), async_send bs High c))"

text \<open>The answer to a request for peers, if there is one.\<close>

definition peer_list_response ::
    "('ns, 'kv) env \<Rightarrow> networks \<Rightarrow> peer_stats list \<Rightarrow> ('ns, 'kv) conn_node \<Rightarrow> p2p_peer list option" where
  "peer_list_response env nets stats = (\<lambda>(c, n).
     (let requestor = local_id (c_remote_peer c) in
      case node_type n of
        Bootstrapper \<Rightarrow>
          (let random_nodes = List.map_filter peer
                 (get_random_nodes (e_choose_nodes env) requestor
                    (nc_bootstrapper_peer_list_size (n_config n)) nets (n_buckets n)) in
           if random_nodes \<noteq> [] \<and>
              length random_nodes \<ge> unat (nc_bootstrapper_wait_minimum_peers (n_config n))
           then Some random_nodes else None)
      | Node \<Rightarrow>
          (let nodes = map (\<lambda>s. \<lparr>pp_id = ps_self_id s, pp_addr = external_address s,
                              pp_peer_type = ps_peer_type s\<rparr>)
                 (filter (\<lambda>s. ps_local_id s \<noteq> requestor) stats) in
           if nodes \<noteq> [] then Some nodes else None)))"

definition send_peer_list_resp ::
    "('ns, 'kv) env \<Rightarrow> networks \<Rightarrow> peer_stats list \<Rightarrow> ('ns, 'kv) conn_node \<Rightarrow>
     unit result \<times> ('ns, 'kv) conn_node" where
  "send_peer_list_resp env nets stats = (\<lambda>(c, n).
     (case peer_list_response env nets stats (c, n) of
        None \<Rightarrow> (Inr (), c, n)
      | Some ps \<Rightarrow>
          (case serialize (e_fb env) (e_now env) (netmsg (e_now env) (NetworkResponse (PeerList ps))) of
             Inl e \<Rightarrow> (Inl e, c, n)
           | Inr bs \<Rightarrow> (Inr (), async_send bs Normal c, n))))"

text \<open>\<open>send_pending_messages\<close>\<close>

definition count_sent :: "bytes \<Rightarrow> ('ns, 'kv) conn_node \<Rightarrow> ('ns, 'kv) conn_node" where
  "count_sent msg = (\<lambda>(c, n).
     (c\<lparr>c_stats := (c_stats c)\<lparr>cs_messages_sent := cs_messages_sent (c_stats c) + 1,
          cs_bytes_sent := cs_bytes_sent (c_stats c) + word_of_nat (length msg)\<rparr>\<rparr>,
      log_metrics [Metric_inc Packets_sent, Metric_inc_by Sent_bytes (word_of_nat (length msg))]
        (n\<lparr>total_sent := total_sent n + 1\<rparr>)))"

lemma dequeue_shrinks:
  "dequeue q = (Some m, q') \<Longrightarrow> length (mq_high q') + length (mq_low q') < length (mq_high q) + length (mq_low q)"
  by (auto simp: dequeue_def split: list.splits)

function send_pending_messages ::
    "('ns, 'kv) env \<Rightarrow> ('ns, 'kv) conn_node \<Rightarrow> unit result \<times> ('ns, 'kv) conn_node" where
  "send_pending_messages env s =
     (case dequeue (c_pending (fst s)) of
        (None, _) \<Rightarrow> (Inr (), s)
      | (Some msg, q) \<Rightarrow>
          (case write_to_socket (e_noise env) msg (c_low_level (fst s)) of
             (Inl e, ll) \<Rightarrow> (Inl e, (fst s)\<lparr>c_pending := q, c_low_level := ll\<rparr>, snd s)
           | (Inr _, ll) \<Rightarrow>
               send_pending_messages env
                 (count_sent msg ((fst s)\<lparr>c_pending := q, c_low_level := ll\<rparr>, snd s))))"
  by pat_completeness auto

termination
  by (relation "measure (\<lambda>(env, s). length (mq_high (c_pending (fst s))) + length (mq_low (c_pending (fst s))))")
    (auto simp: count_sent_def split_beta dest!: sym [of "(Some _, _)"] dest: dequeue_shrinks)

declare send_pending_messages.simps [simp del]

end
