(* ===== verification/Bans.thy ===== *)
theory Bans
  imports Node_State
begin

text \<open>
  Bans and persisted peers: \<open>p2p/bans.rs\<close>, the persisted peers of \<open>p2p/peers.rs\<close>, and the
  searches among the connections that \<open>p2p/connectivity.rs\<close> provides for them.
\<close>

section \<open>Model\<close>

definition BAN_STORE_NAME :: string where
  "BAN_STORE_NAME = ''bans''"

definition PEERS_STORE_NAME :: string where
  "PEERS_STORE_NAME = ''peers''"

primrec serial_ban :: "('ns, 'kv) env \<Rightarrow> persisted_ban_id \<Rightarrow> bytes" where
  "serial_ban env (Persisted_ip i) = 0 # e_ip_serial env i"

definition deserial_ban :: "('ns, 'kv) env \<Rightarrow> bytes \<Rightarrow> persisted_ban_id result" where
  "deserial_ban env bs = (case bs of
     [] \<Rightarrow> Inl (Io_error ''failed to fill whole buffer'')
   | b # rest \<Rightarrow>
       if b = 0 then (case e_ip_deserial env rest of Inl e \<Rightarrow> Inl e | Inr i \<Rightarrow> Inr (Persisted_ip i))
       else Inl (Bail ''Unsupported type of `BanNode`''))"

text \<open>\<open>kvs.read()\<close>, \<open>open_single\<close> and one write transaction.\<close>

definition kvs_update ::
    "('ns, 'kv) env \<Rightarrow> string \<Rightarrow> string \<Rightarrow> kv_action result \<Rightarrow> ('ns, 'kv) p2p_node \<Rightarrow>
     unit result \<times> ('ns, 'kv) p2p_node" where
  "kvs_update env msg store act n =
     (if \<not> e_kvs_lock env then (Inl (Bail msg), n)
      else (case e_kv_open env store (n_kvs n) of
              Inl e \<Rightarrow> (Inl e, n)
            | Inr _ \<Rightarrow>
                (case act of
                   Inl e \<Rightarrow> (Inl e, n)
                 | Inr a \<Rightarrow>
                     (let (r, kv) = e_kv_transact env store a (n_kvs n) in (r, n\<lparr>n_kvs := kv\<rparr>)))))"

definition is_banned :: "('ns, 'kv) env \<Rightarrow> persisted_ban_id \<Rightarrow> ('ns, 'kv) p2p_node \<Rightarrow> bool result" where
  "is_banned env b n =
     (if \<not> e_kvs_lock env then Inl (Bail ''Couldn't check if a peer is banned'')
      else (case e_kv_open env BAN_STORE_NAME (n_kvs n) of
              Inl e \<Rightarrow> Inl e
            | Inr _ \<Rightarrow> e_kv_get env BAN_STORE_NAME (serial_ban env b) (n_kvs n)))"

definition unban_node ::
    "('ns, 'kv) env \<Rightarrow> persisted_ban_id \<Rightarrow> ('ns, 'kv) p2p_node \<Rightarrow> unit result \<times> ('ns, 'kv) p2p_node" where
  "unban_node env b n =
     kvs_update env ''Couldn't unban a peer'' BAN_STORE_NAME (Inr (Kv_delete (serial_ban env b))) n"

fun ban_entries :: "('ns, 'kv) env \<Rightarrow> bytes result list \<Rightarrow> persisted_ban_id list result" where
  "ban_entries env [] = Inr []"
| "ban_entries env (Inl e # es) = Inl e"
| "ban_entries env (Inr bs # es) = (case deserial_ban env bs of
     Inl e \<Rightarrow> Inl e
   | Inr b \<Rightarrow> (case ban_entries env es of Inl e \<Rightarrow> Inl e | Inr l \<Rightarrow> Inr (b # l)))"

definition get_banlist :: "('ns, 'kv) env \<Rightarrow> ('ns, 'kv) p2p_node \<Rightarrow> persisted_ban_id list result" where
  "get_banlist env n =
     (if \<not> e_kvs_lock env then Inl (Bail ''Couldn't get the banlist'')
      else (case e_kv_open env BAN_STORE_NAME (n_kvs n) of
              Inl e \<Rightarrow> Inl e
            | Inr _ \<Rightarrow>
                (case e_kv_iter env BAN_STORE_NAME (n_kvs n) of
                   Inl e \<Rightarrow> Inl e
                 | Inr es \<Rightarrow> ban_entries env es)))"

definition clear_bans :: "('ns, 'kv) env \<Rightarrow> ('ns, 'kv) p2p_node \<Rightarrow> unit result \<times> ('ns, 'kv) p2p_node" where
  "clear_bans env n = kvs_update env ''Couldn't clear the bans'' BAN_STORE_NAME (Inr Kv_clear) n"

definition persist_peer ::
    "('ns, 'kv) env \<Rightarrow> socket_addr \<Rightarrow> ('ns, 'kv) p2p_node \<Rightarrow> unit result \<times> ('ns, 'kv) p2p_node" where
  "persist_peer env a n =
     kvs_update env ''Could not acquire lock over lmdb'' PEERS_STORE_NAME
       (case e_addr_to_json env a of Inl e \<Rightarrow> Inl e | Inr buf \<Rightarrow> Inr (Kv_put buf)) n"

definition remove_persisted_peer ::
    "('ns, 'kv) env \<Rightarrow> socket_addr \<Rightarrow> ('ns, 'kv) p2p_node \<Rightarrow> unit result \<times> ('ns, 'kv) p2p_node" where
  "remove_persisted_peer env a n =
     kvs_update env ''Could not acquire lock over lmdb'' PEERS_STORE_NAME
       (case e_addr_to_json env a of Inl e \<Rightarrow> Inl e | Inr key \<Rightarrow> Inr (Kv_delete key)) n"

definition clear_persisted_peers ::
    "('ns, 'kv) env \<Rightarrow> ('ns, 'kv) p2p_node \<Rightarrow> unit result \<times> ('ns, 'kv) p2p_node" where
  "clear_persisted_peers env n = kvs_update env ''Couldn't clear the bans'' PEERS_STORE_NAME (Inr Kv_clear) n"

subsection \<open>Searching the connections\<close>

definition find_conn_token_by_id :: "remote_peer_id \<Rightarrow> ('ns, 'kv) p2p_node \<Rightarrow> token option" where
  "find_conn_token_by_id i n =
     map_option conn_token
       (find (\<lambda>c. local_id (c_remote_peer c) = i) (hm_values (connections n)))"

definition find_conn_to :: "socket_addr \<Rightarrow> ('ns, 'kv) p2p_node \<Rightarrow> token option" where
  "find_conn_to a n =
     map_option conn_token
       (find (\<lambda>c. remote_addr c = a) (hm_values (conn_candidates n) @ hm_values (connections n)))"

definition find_conn_tokens_by_ip :: "ip_addr \<Rightarrow> ('ns, 'kv) p2p_node \<Rightarrow> token list" where
  "find_conn_tokens_by_ip ip n =
     map conn_token
       (filter (\<lambda>c. sa_ip (addr (c_remote_peer c)) = ip) (hm_values (conn_candidates n) @ hm_values (connections n)))"

subsection \<open>Dropping\<close>

definition drop_by_id :: "('ns, 'kv) env \<Rightarrow> remote_peer_id \<Rightarrow> ('ns, 'kv) p2p_node \<Rightarrow> bool \<times> ('ns, 'kv) p2p_node" where
  "drop_by_id env i n = (case find_conn_token_by_id i n of
     Some tok \<Rightarrow> (True, register_conn_change env (RemovalByToken tok) n)
   | None \<Rightarrow> (False, n))"

definition drop_by_ip_and_ban ::
    "('ns, 'kv) env \<Rightarrow> ip_addr \<Rightarrow> ('ns, 'kv) p2p_node \<Rightarrow> bool result \<times> ('ns, 'kv) p2p_node" where
  "drop_by_ip_and_ban env ip n =
     bind_res
       (kvs_update env ''Couldn't ban a peer'' BAN_STORE_NAME (Inr (Kv_put (serial_ban env (Persisted_ip ip)))) n)
       (\<lambda>_ n1.
          (let n2 = n1\<lparr>given_addresses := filter (\<lambda>a. sa_ip a \<noteq> ip) (given_addresses n1)\<rparr>;
               tokens = find_conn_tokens_by_ip ip n2 in
           (Inr (tokens \<noteq> []), register_conn_change env (RemoveAllByTokens tokens) n2)))"

definition drop_addr :: "('ns, 'kv) env \<Rightarrow> socket_addr \<Rightarrow> ('ns, 'kv) p2p_node \<Rightarrow> bool \<times> ('ns, 'kv) p2p_node" where
  "drop_addr env a n =
     (let n' = n\<lparr>given_addresses := hs_remove a (given_addresses n)\<rparr> in
      case find_conn_to a n' of
        Some tok \<Rightarrow> (True, register_conn_change env (RemovalByToken tok) n')
      | None \<Rightarrow> (False, n'))"

section \<open>The store\<close>

text \<open>
  What the package documents: \<open>keys kv s\<close> are the keys of the store \<open>s\<close>; an update that
  succeeds takes effect, one that fails changes nothing, the other stores are untouched, and
  reading tells what is there.
\<close>

primrec kv_effect :: "kv_action \<Rightarrow> bytes set \<Rightarrow> bytes set" where
  "kv_effect (Kv_put k) ks = insert k ks"
| "kv_effect (Kv_delete k) ks = ks - {k}"
| "kv_effect Kv_clear ks = {}"

definition kv_lawful :: "('kv \<Rightarrow> string \<Rightarrow> bytes set) \<Rightarrow> ('ns, 'kv) env \<Rightarrow> bool" where
  "kv_lawful keys env \<longleftrightarrow>
     (\<forall>s a kv kv' u. e_kv_transact env s a kv = (Inr u, kv') \<longrightarrow>
        keys kv' = (keys kv)(s := kv_effect a (keys kv s))) \<and>
     (\<forall>s a kv kv' e. e_kv_transact env s a kv = (Inl e, kv') \<longrightarrow> keys kv' = keys kv) \<and>
     (\<forall>s k kv b. e_kv_get env s k kv = Inr b \<longrightarrow> b = (k \<in> keys kv s)) \<and>
     (\<forall>s kv es ks. e_kv_iter env s kv = Inr es \<longrightarrow> es = map Inr ks \<longrightarrow> set ks = keys kv s)"

text \<open>\<open>concordium_base\<close>: reading back a serialised address gives the address.\<close>

definition ip_codec :: "('ns, 'kv) env \<Rightarrow> bool" where
  "ip_codec env \<longleftrightarrow> (\<forall>i. e_ip_deserial env (e_ip_serial env i) = Inr i)"

lemma serial_ban_inj: "ip_codec env \<Longrightarrow> serial_ban env b = serial_ban env b' \<longleftrightarrow> b = b'"
  by (cases b; cases b') (auto simp: ip_codec_def, metis sum.inject(2))

lemma deserial_serial_ban: "ip_codec env \<Longrightarrow> deserial_ban env (serial_ban env b) = Inr b"
  by (cases b) (simp add: deserial_ban_def ip_codec_def)

text \<open>The bans are a set with insertion and deletion, the contract that the operations on the
  network rely on.\<close>

locale ban_set =
  fixes banned :: "'s \<Rightarrow> 'b set"
    and put :: "'b \<Rightarrow> 's \<Rightarrow> 's \<Rightarrow> bool"
    and del :: "'b \<Rightarrow> 's \<Rightarrow> 's \<Rightarrow> bool"
    and check :: "'b \<Rightarrow> 's \<Rightarrow> bool option"
  assumes put_banned: "put b s t \<Longrightarrow> banned t = insert b (banned s)"
    and del_banned: "del b s t \<Longrightarrow> banned t = banned s - {b}"
    and check_banned: "check b s = Some r \<Longrightarrow> r = (b \<in> banned s)"
begin

lemma check_after_put: "put b s t \<Longrightarrow> check b t \<noteq> Some False"
  using check_banned [of b t False] put_banned by auto

lemma check_after_del: "del b s t \<Longrightarrow> check b t \<noteq> Some True"
  using check_banned [of b t True] del_banned by auto

lemma put_keeps: "put b s t \<Longrightarrow> b' \<noteq> b \<Longrightarrow> check b' s = Some r \<Longrightarrow> check b' t = Some r' \<Longrightarrow> r' = r"
  using check_banned put_banned by blast

end

text \<open>The state carries the environment and the view of the store.\<close>

definition store_bans ::
    "('ns, 'kv) env \<times> ('kv \<Rightarrow> string \<Rightarrow> bytes set) \<times> ('ns, 'kv) p2p_node \<Rightarrow> persisted_ban_id set" where
  "store_bans = (\<lambda>(env, keys, n). {b. serial_ban env b \<in> keys (n_kvs n) BAN_STORE_NAME})"

lemma kv_lawfulD:
  assumes "kv_lawful keys env"
  shows "e_kv_transact env s a kv = (Inr u, kv') \<Longrightarrow> keys kv' = (keys kv)(s := kv_effect a (keys kv s))"
    and "e_kv_transact env s a kv = (Inl e, kv') \<Longrightarrow> keys kv' = keys kv"
    and "e_kv_get env s k kv = Inr b \<Longrightarrow> b = (k \<in> keys kv s)"
  using assms [unfolded kv_lawful_def, THEN conjunct1]
    assms [unfolded kv_lawful_def, THEN conjunct2, THEN conjunct1]
    assms [unfolded kv_lawful_def, THEN conjunct2, THEN conjunct2, THEN conjunct1]
  by (simp_all only: simp_thms)

lemma kvs_update_keys:
  assumes "kv_lawful keys env" "kvs_update env msg s (Inr a) n = (r, n')"
  shows "keys (n_kvs n') = (case r of Inr _ \<Rightarrow> (keys (n_kvs n))(s := kv_effect a (keys (n_kvs n) s))
    | Inl _ \<Rightarrow> keys (n_kvs n))"
proof (cases "e_kv_transact env s a (n_kvs n)")
  case (Pair r' kv')
  show ?thesis
    using assms(2) kv_lawfulD(1,2) [OF assms(1), of s a "n_kvs n"] Pair
    by (cases r') (auto simp: kvs_update_def split: if_splits sum.splits)
qed

lemma kvs_update_fields [simp]:
  "self_peer (snd (kvs_update env msg s a n)) = self_peer n"
  "n_config (snd (kvs_update env msg s a n)) = n_config n"
  "given_addresses (snd (kvs_update env msg s a n)) = given_addresses n"
  "n_regenesis (snd (kvs_update env msg s a n)) = n_regenesis n"
  "next_token (snd (kvs_update env msg s a n)) = next_token n"
  "conn_candidates (snd (kvs_update env msg s a n)) = conn_candidates n"
  "connections (snd (kvs_update env msg s a n)) = connections n"
  "conn_changes (snd (kvs_update env msg s a n)) = conn_changes n"
  "soft_bans (snd (kvs_update env msg s a n)) = soft_bans n"
  "n_stats (snd (kvs_update env msg s a n)) = n_stats n"
  "n_peers (snd (kvs_update env msg s a n)) = n_peers n"
  by (simp_all add: kvs_update_def Let_def split: sum.split prod.split)

definition ban_put ::
    "persisted_ban_id \<Rightarrow> ('ns, 'kv) env \<times> ('kv \<Rightarrow> string \<Rightarrow> bytes set) \<times> ('ns, 'kv) p2p_node \<Rightarrow>
     ('ns, 'kv) env \<times> ('kv \<Rightarrow> string \<Rightarrow> bytes set) \<times> ('ns, 'kv) p2p_node \<Rightarrow> bool" where
  "ban_put b s t \<longleftrightarrow> (case (b, s, t) of (Persisted_ip ip, (env, keys, n), (env', keys', n')) \<Rightarrow>
     env' = env \<and> keys' = keys \<and> kv_lawful keys env \<and> ip_codec env \<and>
     (\<exists>r. drop_by_ip_and_ban env ip n = (Inr r, n')))"

definition ban_del ::
    "persisted_ban_id \<Rightarrow> ('ns, 'kv) env \<times> ('kv \<Rightarrow> string \<Rightarrow> bytes set) \<times> ('ns, 'kv) p2p_node \<Rightarrow>
     ('ns, 'kv) env \<times> ('kv \<Rightarrow> string \<Rightarrow> bytes set) \<times> ('ns, 'kv) p2p_node \<Rightarrow> bool" where
  "ban_del b s t \<longleftrightarrow> (case (s, t) of ((env, keys, n), (env', keys', n')) \<Rightarrow>
     env' = env \<and> keys' = keys \<and> kv_lawful keys env \<and> ip_codec env \<and>
     unban_node env b n = (Inr (), n'))"

definition ban_check ::
    "persisted_ban_id \<Rightarrow> ('ns, 'kv) env \<times> ('kv \<Rightarrow> string \<Rightarrow> bytes set) \<times> ('ns, 'kv) p2p_node \<Rightarrow> bool option" where
  "ban_check b = (\<lambda>(env, keys, n).
     if kv_lawful keys env then (case is_banned env b n of Inr r \<Rightarrow> Some r | Inl _ \<Rightarrow> None) else None)"

lemma drop_by_ip_and_ban_Inr:
  assumes "drop_by_ip_and_ban env ip n = (Inr r, n')"
  shows "\<exists>n1. kvs_update env ''Couldn't ban a peer'' BAN_STORE_NAME
      (Inr (Kv_put (serial_ban env (Persisted_ip ip)))) n = (Inr (), n1) \<and> n_kvs n' = n_kvs n1"
  using assms
  by (cases "kvs_update env ''Couldn't ban a peer'' BAN_STORE_NAME
      (Inr (Kv_put (serial_ban env (Persisted_ip ip)))) n")
    (auto simp: drop_by_ip_and_ban_def bind_res_def register_conn_change_def Let_def split: sum.splits)

interpretation store_ban_set: ban_set store_bans ban_put ban_del ban_check
proof unfold_locales
  fix b s t
  show "ban_put b s t \<Longrightarrow> store_bans t = insert b (store_bans s)"
    by (cases b; cases s; cases t)
      (fastforce simp: ban_put_def store_bans_def serial_ban_inj simp del: serial_ban.simps
        dest!: drop_by_ip_and_ban_Inr dest: kvs_update_keys)
  show "ban_del b s t \<Longrightarrow> store_bans t = store_bans s - {b}"
    by (cases s; cases t)
      (auto simp: ban_del_def store_bans_def unban_node_def serial_ban_inj dest!: kvs_update_keys)
next
  fix b s r
  show "ban_check b s = Some r \<Longrightarrow> r = (b \<in> store_bans s)"
    by (cases s) (auto simp: ban_check_def store_bans_def is_banned_def kv_lawful_def
        split: if_splits sum.splits)
qed

end
