(* ===== verification/Read_Progress.thy ===== *)
theory Read_Progress
  imports Transport
begin

text \<open>
  Progress of reading: every call of \<open>read_from_socket\<close> that asks to be called again has
  consumed a byte or brought a message of the noise handshake closer to its end, so the loop of
  \<open>Connection::read_stream\<close> ends.  This holds in every phase of a connection, also while the
  handshake answers into the same buffer.
\<close>

section \<open>What writing leaves alone\<close>

text \<open>Writing uses the socket buffer, but neither its size nor its unread part changes length.\<close>

definition same_input :: "'ns low_level \<Rightarrow> 'ns low_level \<Rightarrow> bool" where
  "same_input ll ll' \<longleftrightarrow>
     length (sb_buf (socket_buffer ll')) = length (sb_buf (socket_buffer ll)) \<and>
     sb_offset (socket_buffer ll') = sb_offset (socket_buffer ll) \<and>
     sb_remaining (socket_buffer ll') = sb_remaining (socket_buffer ll) \<and>
     incoming_msg ll' = incoming_msg ll \<and> sock_in (ll_socket ll') = sock_in (ll_socket ll)"

lemma same_input_refl [simp]: "same_input ll ll"
  by (simp add: same_input_def)

lemma same_input_trans [trans]: "same_input a b \<Longrightarrow> same_input b c \<Longrightarrow> same_input a c"
  by (simp add: same_input_def)

lemma flush_once_input: "flush_socket_once ops ll = (r, ll') \<Longrightarrow> same_input ll ll'"
  by (auto simp: flush_socket_once_def sock_write_def same_input_def Let_def
      split: if_splits io.splits prod.splits list.splits write_event.splits)

lemma flush_loop_relates:
  assumes once: "\<And>ll r ll'. flush_socket_once ops ll = (r, ll') \<Longrightarrow> P ll ll'"
    and refl: "\<And>ll. P ll ll" and trans: "\<And>a b c. P a b \<Longrightarrow> P b c \<Longrightarrow> P a c"
  shows "flush_loop ops ll = (r, ll') \<Longrightarrow> P ll ll'"
  using once
proof (induction ops ll arbitrary: r ll' rule: flush_loop.induct)
  case (1 ops ll)
  obtain r1 ll1 where once: "flush_socket_once ops ll = (r1, ll1)" by fastforce
  note step = "1.prems"(2) [OF once]
  show ?case
  proof (cases "\<exists>n. output_queue ll \<noteq> [] \<and> r1 = Inr n \<and> n \<noteq> 0")
    case True
    then obtain n where n: "output_queue ll \<noteq> []" "r1 = Inr n" "n \<noteq> 0" by blast
    with "1.prems"(1) once have "flush_loop ops ll1 = (r, ll')"
      by (simp add: flush_loop.simps [of ops ll])
    from "1.IH" [OF n(1) once [symmetric] n(2,3) this "1.prems"(2)] have "P ll1 ll'" .
    with step show ?thesis by (rule trans)
  next
    case False
    with "1.prems"(1) once step refl show ?thesis
      by (auto simp: flush_loop.simps [of ops ll] split: if_splits sum.splits)
  qed
qed

lemma flush_loop_input: "flush_loop ops ll = (r, ll') \<Longrightarrow> same_input ll ll'"
  by (rule flush_loop_relates) (auto intro: flush_once_input same_input_trans)

lemma flush_socket_input: "flush_socket ops ll = (r, ll') \<Longrightarrow> same_input ll ll'"
  by (auto simp: flush_socket_def dest: flush_loop_input split: if_splits)

lemma send_xx_input: "send_xx_msg ops p pl s ll = (r, ll') \<Longrightarrow> same_input ll ll'"
  by (auto simp: send_xx_msg_def same_input_def Let_def dest!: flush_socket_input
      split: prod.splits sum.splits)

lemma recv_xx_input:
  assumes "noise_in_place ops" "recv_xx_msg ops len ll = (r, ll')"
  shows "same_input ll ll'"
  using assms(2) noise_recv_length [OF assms(1)]
  by (fastforce simp: recv_xx_msg_def same_input_def sb_slice_def sb_write_def
      split: prod.splits sum.splits if_splits)

lemma process_msgs_input:
  assumes "noise_in_place ops"
  shows "process_msg_a ops request len ll = (r, ll') \<Longrightarrow> same_input ll ll'"
    and "process_msg_b ops request len ll = (r, ll') \<Longrightarrow> same_input ll ll'"
    and "process_msg_c ops len ll = (r, ll') \<Longrightarrow> same_input ll ll'"
  by (auto simp: process_msg_a_def process_msg_b_def process_msg_c_def
      dest!: recv_xx_input [OF assms] send_xx_input intro: same_input_trans
      split: prod.splits sum.splits)

section \<open>Progress\<close>

definition unread_count :: "'ns low_level \<Rightarrow> nat" where
  "unread_count ll =
     sb_remaining (socket_buffer ll) + length (concat (map event_data (sock_in (ll_socket ll))))"

definition read_measure :: "'ns low_level \<Rightarrow> nat \<times> nat" where
  "read_measure ll = (unread_count ll, pending_bytes (incoming_msg ll))"

abbreviation closer :: "('ns low_level \<times> 'ns low_level) set" where
  "closer \<equiv> inv_image (less_than <*lex*> less_than) read_measure"

lemma wf_closer: "wf closer"
  by (rule wf_inv_image) (simp add: wf_lex_prod)

lemma sb_shift_remaining [simp]: "sb_remaining (sb_shift n sb) = sb_remaining sb - n"
  by (simp add: sb_shift_def Let_def)

lemma same_input_wf: "same_input ll ll' \<Longrightarrow> ll_wf ll \<Longrightarrow> ll_wf ll'"
  by (auto simp: same_input_def ll_wf_def sb_wf_def)

lemma process_incoming_msg_progress:
  assumes lawful: "noise_in_place ops" and "ll_wf ll" "pending_bytes (incoming_msg ll) \<noteq> 0"
    and "process_incoming_msg ops request ll = (Inr r, ll')"
  shows "ll_wf ll' \<and> unread_count ll' \<le> unread_count ll \<and>
    (sb_remaining (socket_buffer ll) \<noteq> 0 \<longrightarrow> (ll', ll) \<in> closer)"
proof -
  let ?sb = "socket_buffer ll" and ?im = "incoming_msg ll"
  define n where "n = min (pending_bytes ?im) (sb_remaining ?sb)"
  from assms(2) have wf: "sb_wf ?sb" "im_wf ?im" by (simp_all add: ll_wf_def)
  have n: "n \<le> sb_remaining ?sb" "n \<le> pending_bytes ?im" "sb_remaining ?sb \<noteq> 0 \<longrightarrow> 0 < n"
    using assms(3) by (auto simp: n_def)
  note slice = sb_slice_wf [OF wf(1) n(1)]
  define im where "im = ?im\<lparr>in_message := in_message ?im @ take n (sb_unread ?sb), pending_bytes := pending_bytes ?im - n\<rparr>"
  have im: "im_wf im"
    using wf(2) assms(3) length_sb_unread [OF wf(1)] n by (auto simp: im_def im_wf_def)
  have post: "ll_is_post_handshake ops (ll\<lparr>incoming_msg := im\<rparr>) = ll_is_post_handshake ops ll"
    by (simp add: ll_is_post_handshake_eq)
  show ?thesis
  proof (cases "ll_is_post_handshake ops ll")
    case True
    with process_incoming_msg_stream [OF assms(2,3) True assms(4)]
    have "ll_wf ll'" by (auto simp: read_step_ok_def split: read_result.splits)
    moreover have "socket_buffer ll' = sb_shift n ?sb \<and> ll_socket ll' = ll_socket ll \<and>
        pending_bytes (incoming_msg ll') = pending_bytes ?im - n"
      using assms(4) slice(1) True post
      by (auto simp: process_incoming_msg_def n_def [symmetric] Let_def im_def [symmetric] decrypt_def
          ll_is_post_handshake_eq split: if_splits prod.splits sum.splits) (simp_all add: im_def)
    ultimately show ?thesis using n by (auto simp: read_measure_def unread_count_def)
  next
    case False
    let ?ll1 = "ll\<lparr>incoming_msg := im\<rparr>"
    show ?thesis
    proof (cases "pending_bytes im = 0")
      case more: False
      then have "ll' = ?ll1"
        using assms(4) slice(1) False post
        by (simp add: process_incoming_msg_def n_def [symmetric] Let_def im_def [symmetric])
      then show ?thesis
        using n assms(3) wf im by (auto simp: read_measure_def unread_count_def ll_wf_def im_def)
    next
      case True
      obtain p ll3 where p: "same_input ?ll1 ll3"
        and ll': "ll' = ll3\<lparr>socket_buffer := sb_reset (socket_buffer ll3)\<rparr> \<or>
          ll' = ll3\<lparr>socket_buffer := sb_shift n (socket_buffer ll3)\<rparr>"
        using assms(4) slice(1) False post True
        by (auto simp: process_incoming_msg_def n_def [symmetric] Let_def im_def [symmetric]
            split: if_splits prod.splits sum.splits dest: process_msgs_input [OF lawful])
      have wf3: "ll_wf ll3"
        using p wf im by (intro same_input_wf [OF p]) (simp add: ll_wf_def)
      have "ll_wf (ll3\<lparr>socket_buffer := sb_shift n (socket_buffer ll3)\<rparr>)"
        using wf3 p n sb_slice_wf(3) [of "socket_buffer ll3" n] by (auto simp: ll_wf_def same_input_def)
      moreover have "ll_wf (ll3\<lparr>socket_buffer := sb_reset (socket_buffer ll3)\<rparr>)"
        using wf3 by (auto simp: ll_wf_def sb_wf_def sb_reset_def)
      ultimately show ?thesis
        using ll' p n by (auto simp: read_measure_def unread_count_def same_input_def sb_reset_def im_def)
    qed
  qed
qed

lemma attempt_to_read_length_progress:
  assumes "ll_wf ll" "sb_remaining (socket_buffer ll) \<noteq> 0"
    and "attempt_to_read_length ops ll = (Inr u, ll')"
  shows "unread_count ll' < unread_count ll"
proof -
  have "0 < min (sb_remaining (socket_buffer ll)) (PAYLOAD_SIZE - length (size_bytes (incoming_msg ll)))"
    using assms(1,2) by (simp add: ll_wf_def im_wf_def)
  with assms(2,3) show ?thesis
    by (auto simp: attempt_to_read_length_def unread_count_def Let_def
        split: if_splits sum.splits option.splits)
qed

lemma read_buffered_progress:
  assumes "noise_in_place ops" "ll_wf ll" "sb_remaining (socket_buffer ll) \<noteq> 0"
    and "read_buffered ops request ll = (Inr r, ll')"
  shows "ll_wf ll' \<and> (ll', ll) \<in> closer"
proof (cases "pending_bytes (incoming_msg ll) = 0")
  case False
  with assms process_incoming_msg_progress [OF assms(1,2) False] show ?thesis
    by (simp add: read_buffered_def)
next
  case True
  with assms(4) obtain u ll1 where ll1: "attempt_to_read_length ops ll = (Inr u, ll1)"
    by (auto simp: read_buffered_def split: prod.splits sum.splits)
  note wf = attempt_to_read_length_stream [OF assms(2) True ll1]
    and less = attempt_to_read_length_progress [OF assms(2,3) ll1]
  show ?thesis
  proof (cases "pending_bytes (incoming_msg ll1) = 0")
    case none: True
    with assms(4) True ll1 have "ll' = ll1" by (simp add: read_buffered_def)
    with wf less show ?thesis by (simp add: read_measure_def)
  next
    case False
    with assms(4) True ll1 have "process_incoming_msg ops request ll1 = (Inr r, ll')"
      by (simp add: read_buffered_def)
    from process_incoming_msg_progress [OF assms(1) _ False this] wf less show ?thesis
      by (auto simp: read_measure_def)
  qed
qed

lemma sock_read_data:
  "sock_read len s = (Io_ok ds, s') \<Longrightarrow>
   concat (map event_data (sock_in s)) = ds @ concat (map event_data (sock_in s'))"
  by (auto simp: sock_read_def split: list.splits read_event.splits if_splits)

lemma read_from_socket_progress:
  assumes "noise_in_place ops" "ll_wf ll" "read_from_socket ops request ll = (Inr r, ll')"
  shows "ll_wf ll' \<and> (r = WouldBlock \<or> r = Closed \<or> (ll', ll) \<in> closer)"
proof -
  let ?sb = "socket_buffer ll"
  have sb: "sb_wf ?sb" using assms(2) by (simp add: ll_wf_def)
  then have ne: "\<not> is_exhausted ?sb" by (auto simp: sb_wf_def is_exhausted_def)
  show ?thesis
  proof (cases "sb_remaining ?sb = 0")
    case False
    with ne assms read_buffered_progress [OF assms(1,2) False] show ?thesis
      by (simp add: read_from_socket_def)
  next
    case True
    then have off: "sb_offset ?sb = 0" using sb by (simp add: sb_wf_def)
    obtain io sock where io: "sock_read (length (sb_buf ?sb)) (ll_socket ll) = (io, sock)"
      by (cases "sock_read (length (sb_buf ?sb)) (ll_socket ll)")
    have wf1: "ll_wf (ll\<lparr>ll_socket := sock\<rparr>)" using assms(2) by (simp add: ll_wf_def)
    show ?thesis
    proof (cases "\<exists>b bs. io = Io_ok (b # bs)")
      case False
      with assms(3) ne True off io wf1 show ?thesis
        by (auto simp: read_from_socket_def Let_def split: io.splits list.splits)
    next
      case data: True
      then obtain b bs where bs: "io = Io_ok (b # bs)" by blast
      let ?ll2 = "ll\<lparr>ll_socket := sock, socket_buffer := (sb_write (b # bs) ?sb)\<lparr>sb_remaining := length (b # bs)\<rparr>\<rparr>"
      have "length (b # bs) \<le> length (sb_buf ?sb)" using io bs by (auto dest: sock_read_length)
      then have wf2: "ll_wf ?ll2" using assms(2) off by (auto simp: ll_wf_def sb_wf_def sb_write_def)
      have count: "unread_count ?ll2 = unread_count ll"
        using True sock_read_data [OF io [unfolded bs]] by (simp add: unread_count_def)
      have "read_buffered ops request ?ll2 = (Inr r, ll')"
        using assms(3) ne True off io bs by (simp add: read_from_socket_def Let_def)
      from read_buffered_progress [OF assms(1) wf2 _ this] count show ?thesis
        by (auto simp: read_measure_def)
    qed
  qed
qed

section \<open>The pre-shared key\<close>

text \<open>The noise package counts the messages of a session in both directions.\<close>

definition noise_counts :: "'ns noise_ops \<Rightarrow> bool" where
  "noise_counts ops \<longleftrightarrow>
     (\<forall>m ns p ns'. ns_recv_message ops m ns = (Inr p, ns') \<or> ns_send_message ops m ns = (Inr p, ns') \<longrightarrow>
        ns_is_initiator ops ns' = ns_is_initiator ops ns \<and>
        ns_get_message_count ops ns' = Suc (ns_get_message_count ops ns))"

lemma flush_once_session: "flush_socket_once ops ll = (r, ll') \<Longrightarrow> noise_session ll' = noise_session ll"
  by (auto simp: flush_socket_once_def sock_write_def Let_def
      split: if_splits io.splits prod.splits list.splits write_event.splits)

lemma flush_loop_session: "flush_loop ops ll = (r, ll') \<Longrightarrow> noise_session ll' = noise_session ll"
  by (rule flush_loop_relates) (auto intro: flush_once_session)

lemma flush_session: "flush_socket ops ll = (r, ll') \<Longrightarrow> noise_session ll' = noise_session ll"
  by (auto simp: flush_socket_def dest: flush_loop_session split: if_splits)

lemma process_msg_a_count:
  assumes "noise_counts ops" "process_msg_a ops request n ll = (Inr pl, ll')"
  shows "ns_is_initiator ops (noise_session ll') = ns_is_initiator ops (noise_session ll)"
    and "ns_get_message_count ops (noise_session ll') = ns_get_message_count ops (noise_session ll) + 2"
proof -
  have recv: "recv_xx_msg ops n l = (Inr u, l') \<Longrightarrow>
      ns_is_initiator ops (noise_session l') = ns_is_initiator ops (noise_session l) \<and>
      ns_get_message_count ops (noise_session l') = Suc (ns_get_message_count ops (noise_session l))" for l u l'
    using assms(1) by (fastforce simp: recv_xx_msg_def noise_counts_def split: sum.splits prod.splits)
  have send: "send_xx_msg ops a b c l = (Inr u, l') \<Longrightarrow>
      ns_is_initiator ops (noise_session l') = ns_is_initiator ops (noise_session l) \<and>
      ns_get_message_count ops (noise_session l') = Suc (ns_get_message_count ops (noise_session l))" for a b c l u l'
    using assms(1)
    by (fastforce simp: send_xx_msg_def noise_counts_def Let_def split: sum.splits prod.splits dest!: flush_session)
  show "ns_is_initiator ops (noise_session ll') = ns_is_initiator ops (noise_session ll)"
    and "ns_get_message_count ops (noise_session ll') = ns_get_message_count ops (noise_session ll) + 2"
    using assms(2) by (auto simp: process_msg_a_def split: sum.splits prod.splits dest!: recv send)
qed

section \<open>Properties\<close>

text \<open>(C30) The responder never compares the payload of the first handshake message with the
  pre-shared key: the check is made when the session counts one message, but processing the first
  message also sends the answer, so it counts two.  Whatever the payload, the handshake goes on.\<close>

theorem psk_not_verified:
  assumes "noise_counts ops"
    and "\<not> ns_is_initiator ops (noise_session ll)" "ns_get_message_count ops (noise_session ll) = 0"
    and "n = pending_bytes (incoming_msg ll)" "n \<le> sb_remaining (socket_buffer ll)"
    and "sb_slice n (socket_buffer ll) = Inr bs"
    and "process_msg_a ops request n (ll\<lparr>incoming_msg := (incoming_msg ll)
           \<lparr>in_message := in_message (incoming_msg ll) @ bs, pending_bytes := 0\<rparr>\<rparr>) = (Inr pl, ll')"
  shows "process_incoming_msg ops request ll =
      (Inr Incomplete, ll'\<lparr>socket_buffer := sb_reset (socket_buffer ll')\<rparr>) \<and>
    ns_get_message_count ops (noise_session ll') = 2"
  using assms process_msg_a_count [OF assms(1,7)]
  by (simp add: process_incoming_msg_def ll_is_post_handshake_def Let_def min_def)

definition example_responder :: "(bool \<times> nat) low_level" where
  "example_responder = (example_end [])\<lparr>noise_session := (False, 0),
     socket_buffer := \<lparr>sb_buf = replicate 32 0 @ [1, 2, 3, 4] @ replicate 16 0, sb_offset = 0, sb_remaining = 52\<rparr>,
     incoming_msg := \<lparr>size_bytes = [], pending_bytes = 52, in_message = []\<rparr>\<rparr>"

theorem psk_not_verified_witness:
  "\<exists>ll'. process_msg_a plain_noise (Inr [9]) 52 (example_responder\<lparr>incoming_msg :=
        \<lparr>size_bytes = [], pending_bytes = 0, in_message = replicate 32 0 @ [1, 2, 3, 4] @ replicate 16 0\<rparr>\<rparr>)
      = (Inr [1, 2, 3, 4], ll') \<and> [1, 2, 3, 4] \<noteq> PSK \<and>
     fst (process_incoming_msg plain_noise (Inr [9]) example_responder) = Inr Incomplete"
proof -
  let ?bs = "replicate 32 0 @ [1, 2, 3, 4] @ replicate 16 0 :: bytes"
  have counts: "noise_counts plain_noise" by (auto simp: noise_counts_def plain_noise_def)
  have slice: "sb_slice 52 (socket_buffer example_responder) = Inr ?bs"
    by (simp add: sb_slice_def example_responder_def)
  have a: "fst (process_msg_a plain_noise (Inr [9]) 52 (example_responder\<lparr>incoming_msg :=
        \<lparr>size_bytes = [], pending_bytes = 0, in_message = ?bs\<rparr>\<rparr>)) = Inr [1, 2, 3, 4]"
    by (simp add: process_msg_a_def recv_xx_msg_def sb_slice_def sb_write_def sb_payload_def
        send_xx_msg_def flush_socket_def example_responder_def example_end_def plain_noise_def)
  define l1 where "l1 = example_responder\<lparr>incoming_msg := \<lparr>size_bytes = [], pending_bytes = 0, in_message = ?bs\<rparr>\<rparr>"
  define ll' where "ll' = snd (process_msg_a plain_noise (Inr [9]) 52 l1)"
  have ll': "process_msg_a plain_noise (Inr [9]) 52 l1 = (Inr [1, 2, 3, 4], ll')"
    using a by (simp add: ll'_def l1_def prod_eq_iff)
  have l1: "l1 = example_responder\<lparr>incoming_msg := (incoming_msg example_responder)
      \<lparr>in_message := in_message (incoming_msg example_responder) @ ?bs, pending_bytes := 0\<rparr>\<rparr>"
    by (simp add: l1_def example_responder_def)
  have "\<not> ns_is_initiator plain_noise (noise_session example_responder)"
    "ns_get_message_count plain_noise (noise_session example_responder) = 0"
    "52 = pending_bytes (incoming_msg example_responder)"
    "52 \<le> sb_remaining (socket_buffer example_responder)"
    by (simp_all add: example_responder_def plain_noise_def)
  from psk_not_verified [OF counts this slice ll' [unfolded l1]] ll' show ?thesis
    by (auto simp: PSK_def ascii_bytes_def l1_def)
qed

end
