(* ===== verification/Example_Node.thy ===== *)
theory Example_Node
  imports Bans Read_Progress
begin

text \<open>
  A concrete environment and a small node, on which the properties of the following theories are
  applied: packages that do what their documentation says, and a node with a handful of settings.
\<close>

definition list_channel_ops :: "'a channel_ops" where
  "list_channel_ops =
     \<lparr>chan_bounded = (\<lambda>n. \<lparr>chan_items = [], chan_capacity = n\<rparr>),
      chan_try_send = (\<lambda>x c. if length (chan_items c) < chan_capacity c
         then (Inr (), c\<lparr>chan_items := chan_items c @ [x]\<rparr>) else (Inl Full, c)),
      chan_send = (\<lambda>x c. (Inr (), if length (chan_items c) < chan_capacity c
         then Some (c\<lparr>chan_items := chan_items c @ [x]\<rparr>) else None)),
      chan_try_recv = (\<lambda>c. case chan_items c of
         [] \<Rightarrow> (None, c) | x # xs \<Rightarrow> (Some x, c\<lparr>chan_items := xs\<rparr>))\<rparr>"

lemma list_channel_lawful: "channel_lawful list_channel_ops"
  by (simp add: channel_lawful_def list_channel_ops_def)

text \<open>A store is the list of its entries, with the name of the table.\<close>

type_synonym example_kv = "(string \<times> bytes) list"

primrec example_transact :: "string \<Rightarrow> kv_action \<Rightarrow> example_kv \<Rightarrow> example_kv" where
  "example_transact s (Kv_put k) kv = (s, k) # removeAll (s, k) kv"
| "example_transact s (Kv_delete k) kv = removeAll (s, k) kv"
| "example_transact s Kv_clear kv = filter (\<lambda>(t, _). t \<noteq> s) kv"

definition example_keys :: "example_kv \<Rightarrow> string \<Rightarrow> bytes set" where
  "example_keys kv s = {k. (s, k) \<in> set kv}"

primrec ip_to_bytes :: "ip_addr \<Rightarrow> bytes" where
  "ip_to_bytes (V4 w) = 4 # nat_to_be 4 (unat w)"
| "ip_to_bytes (V6 w) = 6 # nat_to_be 16 (unat w)"

definition ip_of_bytes :: "bytes \<Rightarrow> ip_addr result" where
  "ip_of_bytes bs = (case bs of
     [] \<Rightarrow> Inl (Io_error ''failed to fill whole buffer'')
   | b # rest \<Rightarrow> Inr (if b = 4 then V4 (word_of_nat (be_value rest)) else V6 (word_of_nat (be_value rest))))"

lemma ip_of_to_bytes: "ip_of_bytes (ip_to_bytes i) = Inr i"
proof (cases i)
  case (V4 w)
  have "unat w < 256 ^ 4" using unsigned_less [of w, where ?'a = nat] by simp
  with V4 show ?thesis by (simp add: ip_of_bytes_def)
next
  case (V6 w)
  have "unat w < 256 ^ 16" using unsigned_less [of w, where ?'a = nat] by simp
  with V6 show ?thesis by (simp add: ip_of_bytes_def)
qed

definition example_env :: "(bool \<times> nat, example_kv) env" where
  "example_env =
     \<lparr>e_now = 1000, e_instant = 1, e_millis = 1000, e_noise = plain_noise, e_dedup = example_dedup_env,
      e_fb = example_fb_env,
      e_version = Inr \<lparr>v_major = 6, v_minor = 0, v_rest = ''.0''\<rparr>,
      e_changes = list_channel_ops, e_cmsgs = list_channel_ops,
      e_register = (\<lambda>_. Inr ()),
      e_dial = (\<lambda>_. Inr \<lparr>sock_in = [], sock_script = [], sock_sent = [], sock_option_error = None\<rparr>),
      e_resolve = (\<lambda>_. Inr []), e_choose_nodes = (\<lambda>xs n. take n xs), e_choose_peers = (\<lambda>xs n. take n xs),
      e_choose_tokens = (\<lambda>xs n. take n xs), e_shuffle = id, e_bernoulli = (\<lambda>_. Inr False),
      e_u8_deserial = (\<lambda>bs. case bs of [] \<Rightarrow> Inl (Io_error ''failed to fill whole buffer'') | b # _ \<Rightarrow> Inr b),
      e_u32_deserial = (\<lambda>bs. case u32_from_be_bytes (take 4 bs) of
         None \<Rightarrow> Inl (Io_error ''failed to fill whole buffer'') | Some w \<Rightarrow> Inr w),
      e_u8_serial = (\<lambda>b. [b]), e_u32_serial = u32_to_be_bytes,
      e_ip_serial = ip_to_bytes, e_ip_deserial = ip_of_bytes,
      e_addr_to_json = (\<lambda>a. Inr (nat_to_be 2 (unat (sa_port a)) @ ip_to_bytes (sa_ip a))),
      e_addr_from_json = (\<lambda>bs. case ip_of_bytes (drop 2 bs) of
         Inl e \<Rightarrow> Inl e | Inr i \<Rightarrow> Inr (socket_addr_new i (word_of_nat (be_value (take 2 bs))))),
      e_kvs_lock = True, e_kv_open = (\<lambda>_ _. Inr ()),
      e_kv_transact = (\<lambda>s a kv. (Inr (), example_transact s a kv)),
      e_kv_get = (\<lambda>s k kv. Inr ((s, k) \<in> set kv)),
      e_kv_iter = (\<lambda>s kv. Inr (map (Inr \<circ> snd) (filter (\<lambda>(t, _). t = s) kv)))\<rparr>"

lemma example_ip_codec: "ip_codec example_env"
  by (simp add: ip_codec_def example_env_def ip_of_to_bytes)

lemma example_kv_lawful: "kv_lawful example_keys example_env"
proof -
  have "example_keys (example_transact s a kv) = (example_keys kv)(s := kv_effect a (example_keys kv s))" for s a kv
    by (cases a) (auto simp: example_keys_def fun_eq_iff)
  moreover have "ks = map snd (filter (\<lambda>(t, _). t = s) kv)"
    if "map (Inr \<circ> snd) (filter (\<lambda>(t, _). t = s) kv) = map Inr ks" for s and kv :: example_kv and ks
    using that by (metis inj_Inr inj_map_eq_map map_map)
  ultimately show ?thesis
    by (auto simp: kv_lawful_def example_env_def example_keys_def image_iff) force+
qed

definition example_config :: node_config where
  "example_config =
     \<lparr>nc_no_net = False, nc_desired_nodes_count = 7, nc_no_bootstrap_dns = True, nc_clear_bans = False,
      nc_disallow_multiple_peers_on_ip = False, nc_bootstrap_nodes = [], nc_max_allowed_nodes = 10,
      nc_relay_broadcast_percentage = 1, nc_poll_interval = 100, nc_housekeeping_interval = 30,
      nc_bootstrapping_interval = 7200, nc_print_peers = False, nc_bootstrapper_wait_minimum_peers = 0,
      nc_data_dir_path = ''data'', nc_max_latency = None, nc_hard_connection_limit = 20,
      nc_conn_requests_batch_limit = 9, nc_catch_up_batch_limit = 50, nc_timeout_bucket_entry_period = 0,
      nc_bucket_cleanup_interval = 600000, nc_thread_pool_size = 4, nc_dedup_size_long = 8,
      nc_dedup_size_short = 4, nc_socket_read_size = 64, nc_socket_write_size = 64,
      nc_drop_rebroadcast_probability = None, nc_bootstrapper_peer_list_size = 10,
      nc_default_network = NetworkId 100, nc_socket_so_linger = None, nc_events_queue_size = 10,
      nc_deduplication_hashing_algorithm = XxHash64, nc_max_normal_keep_alive_ms = 120000,
      nc_clear_persisted_peers = False\<rparr>"

definition example_node :: "(bool \<times> nat, example_kv) p2p_node" where
  "example_node =
     \<lparr>self_peer = \<lparr>pp_id = P2PNodeId 7, pp_addr = socket_addr_new (V4 1) 8888, pp_peer_type = Node\<rparr>,
      n_config = example_config, given_addresses = [], n_regenesis = regenesis_from_blocks [replicate 32 1],
      next_token = 1, n_buckets = buckets_default, conn_candidates = [], connections = [],
      conn_changes = \<lparr>chan_items = [], chan_capacity = 20\<rparr>, soft_bans = [], n_networks = [NetworkId 100],
      n_dedup = dedup_queues_new example_dedup_env (\<lambda>i. word_of_nat i) XxHash64 8 4,
      last_bootstrap = 0, last_peer_update = 0, total_received = 0, total_sent = 0, n_stats = [],
      n_throughput = \<lparr>tp_received_bytes = 0, tp_sent_bytes = 0, tp_timestamp = 0, tp_avg_bps_in = 0, tp_avg_bps_out = 0\<rparr>,
      n_kvs = [], n_peers = peer_list_default, n_bad_events = bad_events_default,
      callback_queue = consensus_queues_default list_channel_ops\<rparr>"

definition example_connection :: "nat \<Rightarrow> p2p_node_id option \<Rightarrow> (bool \<times> nat) connection" where
  "example_connection i sid =
     \<lparr>c_remote_peer = \<lparr>self_id = sid, addr = socket_addr_new (V4 (word_of_nat (10 + i))) 8888,
        local_id = RemotePeerId (word_of_nat i), external_port = 8888, peer_type = Node\<rparr>,
      c_low_level = low_level_new plain_noise None
        \<lparr>sock_in = [], sock_script = [], sock_sent = [], sock_option_error = None\<rparr> True 64 64,
      c_networks = [NetworkId 100], c_stats = connection_stats_new 1000, c_pending = mq_new,
      c_wire_version = WIRE_PROTOCOL_CURRENT_VERSION\<rparr>"

lemma example_connection_post [simp]: "is_post_handshake (example_connection i sid) \<longleftrightarrow> sid \<noteq> None"
  by (simp add: is_post_handshake_def example_connection_def)

text \<open>A network message as bytes, and a broadcast transaction.\<close>

definition example_bytes :: "network_message \<Rightarrow> bytes" where
  "example_bytes m = (case serialize example_fb_env 1000 m of Inr bs \<Rightarrow> bs | Inl e \<Rightarrow> [])"

lemma deserialize_example_bytes:
  assumes "payload_wf (net_payload m)"
  shows "deserialize (e_fb example_env) now (example_bytes m) =
    Inr \<lparr>created = 1000, received = Some now, net_payload = norm_payload (net_payload m)\<rparr>"
proof -
  obtain bs where bs: "serialize example_fb_env 1000 m = Inr bs"
    by (auto simp: serialize_def split_beta split: network_payload.split)
  with deserialize_serialize [OF example_fb_env_lawful assms bs, of now] show ?thesis
    by (simp add: example_bytes_def example_env_def)
qed

definition example_packet :: "bytes \<Rightarrow> network_packet" where
  "example_packet pl = \<lparr>destination = Broadcast [], packet_network_id = NetworkId 100, message = pl\<rparr>"

abbreviation example_broadcast :: "bytes \<Rightarrow> bytes" where
  "example_broadcast pl \<equiv> example_bytes (netmsg 1000 (NetworkPacket (example_packet pl)))"

lemma deserialize_example_broadcast:
  "deserialize (e_fb example_env) now (example_broadcast pl) =
     Inr \<lparr>created = 1000, received = Some now, net_payload = NetworkPacket (example_packet pl)\<rparr>"
  by (subst deserialize_example_bytes)
    (simp_all add: netmsg_def payload_wf_def norm_payload_def norm_packet_def example_packet_def)

lemma example_simps [simp]:
  "e_dedup example_env = example_dedup_env" "e_noise example_env = plain_noise" "e_now example_env = 1000"
  "destination (example_packet pl) = Broadcast []" "message (example_packet pl) = pl"
  "node_type example_node = Node" "e_u8_deserial example_env (b # bs) = Inr b" "e_cmsgs example_env = list_channel_ops"
  "e_changes example_env = list_channel_ops"
  by (simp_all add: example_env_def example_packet_def example_node_def)

lemma example_transactions:
  "dyn_capacity (dq_transactions (n_dedup example_node)) = 8"
  "\<not> fst (check_and_insert example_dedup_env pl (dq_transactions (n_dedup example_node)))"
  by (simp_all add: example_node_def dedup_queues_new_def xx_new_def example_dedup_simps)

lemma transaction_tag: "packet_type_try_from 1 = Inr Transaction"
  by (simp add: packet_type_try_from_def PACKET_TYPE_FROM_INT_def)

end
