(* ===== verification/Connection_Handlers.thy ===== *)
theory Connection_Handlers
  imports Example_Node "HOL-Library.Sublist"
begin

text \<open>
  Processing of incoming messages: \<open>is_packet_duplicate\<close>, \<open>read_stream\<close> and
  \<open>process_message\<close> of \<open>connection/mod.rs\<close>, all of \<open>connection/message_handlers.rs\<close>,
  \<open>handle_pkt_out\<close> of \<open>plugins/consensus.rs\<close> and \<open>produce_handshake_request\<close> of
  \<open>p2p/connectivity.rs\<close>.

  The operations work on a connection and its node.  \<open>stats\<close> is the list of peer statistics that
  the poll thread collects before it reads from the connections.
\<close>

section \<open>Model\<close>

definition produce_handshake_request ::
    "('ns, 'kv) env \<Rightarrow> ('ns, 'kv) p2p_node \<Rightarrow> bytes result" where
  "produce_handshake_request env n =
     (case e_version env of
        Inl e \<Rightarrow> Inl e
      | Inr ver \<Rightarrow>
          serialize (e_fb env) (e_now env) (netmsg (e_now env) (NetworkRequest (Handshake
            \<lparr>remote_id = pp_id (self_peer n), remote_port = sa_port (pp_addr (self_peer n)),
             hs_networks = n_networks n, node_version = ver, wire_versions = WIRE_PROTOCOL_VERSIONS,
             genesis_blocks = rg_blocks (n_regenesis n), hs_proof = []\<rparr>))))"

subsection \<open>Packets for consensus\<close>

definition queue_result ::
    "packet_type \<Rightarrow> (remote_peer_id \<Rightarrow> bad_events \<Rightarrow> u64 \<times> bad_events) \<Rightarrow> remote_peer_id \<Rightarrow> string \<Rightarrow>
     (try_send_error + unit) \<times> consensus_queues \<Rightarrow> ('ns, 'kv) p2p_node \<Rightarrow> unit result \<times> ('ns, 'kv) p2p_node" where
  "queue_result ty inc peer_id down = (\<lambda>(r, q) n.
     (let n1 = n\<lparr>callback_queue := q\<rparr> in
      case r of
        Inr _ \<Rightarrow> (Inr (), n1)
      | Inl Full \<Rightarrow>
          (let n2 = log_metrics [Metric_inc (Received_consensus_messages (packet_type_label ty) ''dropped'')] n1 in
           (Inr (), n2\<lparr>n_bad_events := snd (inc peer_id (n_bad_events n2))\<rparr>))
      | Inl Disconnected \<Rightarrow> (Inl (Panic down), n1)))"

definition handle_pkt_out ::
    "('ns, 'kv) env \<Rightarrow> remote_peer_id list \<Rightarrow> remote_peer_id \<Rightarrow> bytes \<Rightarrow> bool \<Rightarrow> ('ns, 'kv) p2p_node \<Rightarrow>
     unit result \<times> ('ns, 'kv) p2p_node" where
  "handle_pkt_out env dont_relay_to peer_id msg is_broadcast n =
     (if msg = [] then (Inl (Bail ''Packet payload can't be empty''), n)
      else (case e_u8_deserial env (take 1 msg) of
        Inl e \<Rightarrow> (Inl e, n)
      | Inr consensus_type \<Rightarrow>
          (case packet_type_try_from consensus_type of
             Inl e \<Rightarrow> (Inl e, n)
           | Inr ty \<Rightarrow>
               (let mode = (if is_broadcast then Broadcast_mode else Direct_mode);
                    payload_len = length (drop 1 msg);
                    request = consensus_message_new (Inbound peer_id mode) ty msg dont_relay_to None in
                if ty = Transaction then
                  (if payload_len > PROTOCOL_MAX_TRANSACTION_SIZE
                   then (Inl (Bail ''Transaction size exceeds the limit''), n)
                   else queue_result ty inc_dropped_low_queue peer_id
                          ''Low priority consensus queue has been shutdown!''
                          (send_in_low_priority_message (e_cmsgs env) request (callback_queue n)) n)
                else queue_result ty inc_dropped_high_queue peer_id
                       ''High priority consensus queue has been shutdown!''
                       (send_in_high_priority_message (e_cmsgs env) request (callback_queue n)) n))))"

definition handle_incoming_packet ::
    "('ns, 'kv) env \<Rightarrow> network_packet \<Rightarrow> remote_peer_id \<Rightarrow> ('ns, 'kv) p2p_node \<Rightarrow>
     unit result \<times> ('ns, 'kv) p2p_node" where
  "handle_incoming_packet env pac peer_id n =
     (let is_broadcast = (case destination pac of Broadcast _ \<Rightarrow> True | Direct _ \<Rightarrow> False) in
      handle_pkt_out env [peer_id] peer_id (message pac) is_broadcast n)"

definition is_packet_duplicate ::
    "('ns, 'kv) env \<Rightarrow> network_packet \<Rightarrow> ('ns, 'kv) p2p_node \<Rightarrow> bool result \<times> ('ns, 'kv) p2p_node" where
  "is_packet_duplicate env pkt n =
     (case message pkt of
        [] \<Rightarrow> (Inl (Bail ''Invalid message type.''), n)
      | tag # _ \<Rightarrow>
          (case packet_type_try_from tag of
             Inl e \<Rightarrow> (Inl e, n)
           | Inr ty \<Rightarrow>
               (case destination pkt of
                  Direct _ \<Rightarrow> (Inr False, n)
                | Broadcast _ \<Rightarrow>
                    (let q = n_dedup n in
                     case ty of
                       FinalizationMessage \<Rightarrow>
                         (let (d, q') = dedup_with (e_dedup env) (message pkt) (dq_finalizations q) in
                          (Inr d, n\<lparr>n_dedup := q\<lparr>dq_finalizations := q'\<rparr>\<rparr>))
                     | Transaction \<Rightarrow>
                         (let (d, q') = dedup_with (e_dedup env) (message pkt) (dq_transactions q) in
                          (Inr d, n\<lparr>n_dedup := q\<lparr>dq_transactions := q'\<rparr>\<rparr>))
                     | Block \<Rightarrow>
                         (let (d, q') = dedup_with (e_dedup env) (message pkt) (dq_blocks q) in
                          (Inr d, n\<lparr>n_dedup := q\<lparr>dq_blocks := q'\<rparr>\<rparr>))
                     | FinalizationRecord \<Rightarrow>
                         (let (d, q') = dedup_with (e_dedup env) (message pkt) (dq_fin_records q) in
                          (Inr d, n\<lparr>n_dedup := q\<lparr>dq_fin_records := q'\<rparr>\<rparr>))
                     | CatchUpStatus \<Rightarrow> (Inr False, n)))))"

subsection \<open>Message handlers\<close>

text \<open>The first difference between the two lists of genesis blocks, along the shorter one.\<close>

definition genesis_difference :: "block_hash list \<Rightarrow> block_hash list \<Rightarrow> (block_hash \<times> block_hash) option" where
  "genesis_difference ours theirs = find (\<lambda>(a, b). a \<noteq> b) (zip ours theirs)"

definition handshake_checks :: "handshake \<Rightarrow> block_hash list \<Rightarrow> u8 result" where
  "handshake_checks h our_blocks =
     (if \<not> is_compatible_version (node_version h)
      then Inl (Bail ''Rejecting handshake: incompatible client.'')
      else if wire_versions h = []
      then Inl (Bail ''Rejecting handshake: Handshake message lacked wire versions.'')
      else (case is_compatible_wire_version (wire_versions h) of
        None \<Rightarrow> Inl (Bail ''Rejecting handshake: incompatible wire protocol versions received.'')
      | Some wv \<Rightarrow>
          if length (hs_networks h) > MAX_PEER_NETWORKS
          then Inl (Bail ''Rejecting handshake: too many networks.'')
          else (case genesis_difference our_blocks (genesis_blocks h) of
            Some _ \<Rightarrow> Inl (Bail ''Rejecting handshake: Didn't find a common prefix on the genesis block hashes.'')
          | None \<Rightarrow> Inr wv)))"

definition handle_handshake_req ::
    "('ns, 'kv) env \<Rightarrow> handshake \<Rightarrow> peer_stats list \<Rightarrow> ('ns, 'kv) conn_node \<Rightarrow>
     unit result \<times> ('ns, 'kv) conn_node" where
  "handle_handshake_req env h stats s =
     (case handshake_checks h (rg_blocks (n_regenesis (snd s))) of
        Inl e \<Rightarrow> (Inl e, s)
      | Inr wv \<Rightarrow>
          bind_res (promote_to_post_handshake env (remote_id h) (remote_port h) (hs_networks h) wv s)
            (\<lambda>_ s1. if node_type (snd s1) = Bootstrapper
                    then send_peer_list_resp env (hs_networks h) stats s1 else (Inr (), s1)))"

definition handle_pong :: "('ns, 'kv) env \<Rightarrow> 'ns connection \<Rightarrow> unit result \<times> 'ns connection" where
  "handle_pong env c =
     (let (r, st) = notify_pong (e_now env) (c_stats c) in (r, c\<lparr>c_stats := st\<rparr>))"

definition handle_incoming_message ::
    "('ns, 'kv) env \<Rightarrow> network_message \<Rightarrow> peer_stats list \<Rightarrow> ('ns, 'kv) conn_node \<Rightarrow>
     unit result \<times> ('ns, 'kv) conn_node" where
  "handle_incoming_message env msg stats = (\<lambda>(c, n).
     (case net_payload msg of
        NetworkRequest (Handshake h) \<Rightarrow> handle_handshake_req env h stats (c, n)
      | pl \<Rightarrow>
          if \<not> is_post_handshake c
          then (Inl (Bail ''Connection has not yet completed the handshake.''), c, n)
          else (case pl of
            NetworkRequest (Handshake _) \<Rightarrow> (Inr (), c, n)
          | NetworkRequest Ping \<Rightarrow> (let (r, c') = send_pong env c in (r, c', n))
          | NetworkResponse Pong \<Rightarrow> (let (r, c') = handle_pong env c in (r, c', n))
          | NetworkRequest (GetPeers nets) \<Rightarrow> send_peer_list_resp env nets stats (c, n)
          | NetworkResponse (PeerList ps) \<Rightarrow> (Inr (), c, register_conn_change env (NewPeers ps) n)
          | NetworkRequest (JoinNetwork i) \<Rightarrow> add_remote_end_network env i (c, n)
          | NetworkRequest (LeaveNetwork i) \<Rightarrow> remove_remote_end_network env i (c, n)
          | NetworkPacket pac \<Rightarrow>
              (let (r, n') = handle_incoming_packet env pac (local_id (c_remote_peer c)) n in (r, c, n')))))"

definition count_received :: "('ns, 'kv) env \<Rightarrow> bytes \<Rightarrow> ('ns, 'kv) conn_node \<Rightarrow> ('ns, 'kv) conn_node" where
  "count_received env bs = (\<lambda>(c, n).
     (let c1 = update_last_seen env n c in
      (c1\<lparr>c_stats := (c_stats c1)\<lparr>cs_messages_received := cs_messages_received (c_stats c1) + 1,
            cs_bytes_received := cs_bytes_received (c_stats c1) + word_of_nat (length bs)\<rparr>\<rparr>,
       log_metrics [Metric_inc Packets_received, Metric_inc_by Received_bytes (word_of_nat (length bs))]
         (n\<lparr>total_received := total_received n + 1\<rparr>))))"

definition process_message ::
    "('ns, 'kv) env \<Rightarrow> bytes \<Rightarrow> peer_stats list \<Rightarrow> ('ns, 'kv) conn_node \<Rightarrow>
     unit result \<times> ('ns, 'kv) conn_node" where
  "process_message env bs stats s =
     (let (c, n) = count_received env bs s in
      case deserialize (e_fb env) (e_now env) bs of
        Inl e \<Rightarrow> (Inl e, c, n)
      | Inr msg \<Rightarrow>
          (case net_payload msg of
             NetworkPacket packet \<Rightarrow>
               if node_type n = Bootstrapper then (Inr (), c, n)
               else (case is_packet_duplicate env packet n of
                       (Inl e, n') \<Rightarrow> (Inl e, c, n')
                     | (Inr True, n') \<Rightarrow> (Inr (), c, n')
                     | (Inr False, n') \<Rightarrow> handle_incoming_message env msg stats (c, n'))
           | _ \<Rightarrow> handle_incoming_message env msg stats (c, n)))"

text \<open>Reading until the socket blocks or is closed; \<open>None\<close> would be a loop that never ends.\<close>

partial_function (option) read_stream ::
    "('ns, 'kv) env \<Rightarrow> peer_stats list \<Rightarrow> ('ns, 'kv) conn_node \<Rightarrow> (bool result \<times> ('ns, 'kv) conn_node) option" where
  "read_stream env stats s =
     (case read_from_socket (e_noise env) (produce_handshake_request env (snd s)) (c_low_level (fst s)) of
        (Inl e, ll) \<Rightarrow> Some (Inl e, (fst s)\<lparr>c_low_level := ll\<rparr>, snd s)
      | (Inr r, ll) \<Rightarrow>
          (case r of
             WouldBlock \<Rightarrow> Some (Inr True, (fst s)\<lparr>c_low_level := ll\<rparr>, snd s)
           | Closed \<Rightarrow> Some (Inr False, (fst s)\<lparr>c_low_level := ll\<rparr>, snd s)
           | Incomplete \<Rightarrow> read_stream env stats ((fst s)\<lparr>c_low_level := ll\<rparr>, snd s)
           | Complete msg \<Rightarrow>
               (case process_message env msg stats ((fst s)\<lparr>c_low_level := ll\<rparr>, snd s) of
                  (Inl e, s') \<Rightarrow> Some (Inl e, s')
                | (Inr _, s') \<Rightarrow> read_stream env stats s')))"

section \<open>What the handlers leave alone\<close>

text \<open>A handler changes neither the identity of its connection nor its socket, and nothing of the
  collections of connections, of the bans or of the configuration.  A completed handshake stays
  completed.\<close>

definition handler_frame :: "('ns, 'kv) conn_node \<Rightarrow> ('ns, 'kv) conn_node \<Rightarrow> bool" where
  "handler_frame s t \<longleftrightarrow>
     local_id (c_remote_peer (fst t)) = local_id (c_remote_peer (fst s)) \<and>
     addr (c_remote_peer (fst t)) = addr (c_remote_peer (fst s)) \<and>
     peer_type (c_remote_peer (fst t)) = peer_type (c_remote_peer (fst s)) \<and>
     c_low_level (fst t) = c_low_level (fst s) \<and>
     (is_post_handshake (fst s) \<longrightarrow> is_post_handshake (fst t)) \<and>
     connections (snd t) = connections (snd s) \<and> conn_candidates (snd t) = conn_candidates (snd s) \<and>
     next_token (snd t) = next_token (snd s) \<and> soft_bans (snd t) = soft_bans (snd s) \<and>
     self_peer (snd t) = self_peer (snd s) \<and> n_config (snd t) = n_config (snd s) \<and>
     given_addresses (snd t) = given_addresses (snd s) \<and> n_regenesis (snd t) = n_regenesis (snd s) \<and>
     n_networks (snd t) = n_networks (snd s) \<and> n_kvs (snd t) = n_kvs (snd s) \<and>
     n_peers (snd t) = n_peers (snd s)"

lemma handler_frame_refl [simp]: "handler_frame s s"
  by (simp add: handler_frame_def)

lemma handler_frame_trans: "handler_frame s t \<Longrightarrow> handler_frame t u \<Longrightarrow> handler_frame s u"
  by (simp add: handler_frame_def)

lemmas handler_defs =
  log_metrics_def update_last_seen_def register_conn_change_def async_send_def apply_buckets_def
  update_last_bootstrap_def is_post_handshake_def conn_token_def Let_def

lemma apply_buckets_frame:
  "apply_buckets f n = (r, n') \<Longrightarrow> handler_frame (c, n) (c, n') \<and> n_dedup n' = n_dedup n"
  by (auto simp: handler_frame_def handler_defs split: sum.splits)

lemma populate_frame:
  "populate_remote_end_networks env rp nets s = (r, t) \<Longrightarrow> handler_frame s t \<and> n_dedup (snd t) = n_dedup (snd s)"
  by (auto simp: populate_remote_end_networks_def handler_frame_def handler_defs
      split: prod.splits if_splits sum.splits)

lemma promote_frame:
  assumes "promote_to_post_handshake env i port nets wv s = (r, t)"
  shows "handler_frame s t \<and> n_dedup (snd t) = n_dedup (snd s)"
proof -
  obtain c n where s: "s = (c, n)" by fastforce
  define c1 where "c1 = c\<lparr>c_remote_peer := (c_remote_peer c)\<lparr>self_id := Some i, external_port := port\<rparr>\<rparr>"
  define n1 where "n1 = log_metrics [Metric_inc Connected_peers, Metric_inc Total_peers] n"
  define n2 where "n2 = (if peer_type (c_remote_peer c1) = Bootstrapper then update_last_bootstrap env n1 else n1)"
  obtain r1 s1 where p: "populate_remote_end_networks env (c_remote_peer c1) nets (c1, n2) = (r1, s1)"
    by (cases "populate_remote_end_networks env (c_remote_peer c1) nets (c1, n2)")
  have one: "handler_frame s (c1, n2)" "n_dedup n2 = n_dedup n"
    by (simp_all add: s c1_def n1_def n2_def handler_frame_def handler_defs)
  have "t = s1 \<or> t = ((fst s1)\<lparr>c_wire_version := wv\<rparr>,
      register_conn_change env (Promotion (conn_token ((fst s1)\<lparr>c_wire_version := wv\<rparr>))) (snd s1))"
    using assms p unfolding promote_to_post_handshake_def s split_beta fst_conv snd_conv Let_def
      c1_def [symmetric] n1_def [symmetric] n2_def [symmetric]
    by (cases r1) auto
  then have "handler_frame s1 t" "n_dedup (snd t) = n_dedup (snd s1)"
    by (auto simp: handler_frame_def handler_defs)
  with one populate_frame [OF p] show ?thesis by (auto simp: s intro: handler_frame_trans)
qed

lemma add_network_frame:
  "add_remote_end_network env i s = (r, t) \<Longrightarrow> handler_frame s t \<and> n_dedup (snd t) = n_dedup (snd s)"
  by (auto simp: add_remote_end_network_def handler_frame_def handler_defs
      split: prod.splits if_splits sum.splits)

lemma remove_network_frame:
  "remove_remote_end_network env i s = (r, t) \<Longrightarrow> handler_frame s t \<and> n_dedup (snd t) = n_dedup (snd s)"
  by (auto simp: remove_remote_end_network_def handler_frame_def handler_defs
      split: prod.splits if_splits sum.splits)

lemma peer_list_frame:
  "send_peer_list_resp env nets stats s = (r, t) \<Longrightarrow> handler_frame s t \<and> n_dedup (snd t) = n_dedup (snd s)"
  by (auto simp: send_peer_list_resp_def handler_frame_def handler_defs
      split: prod.splits option.splits sum.splits)

lemma handshake_frame:
  assumes "handle_handshake_req env h stats s = (r, t)"
  shows "handler_frame s t \<and> n_dedup (snd t) = n_dedup (snd s)"
proof (cases "handshake_checks h (rg_blocks (n_regenesis (snd s)))")
  case (Inl e)
  with assms show ?thesis by (simp add: handle_handshake_req_def)
next
  case (Inr wv)
  obtain r1 s1 where p: "promote_to_post_handshake env (remote_id h) (remote_port h) (hs_networks h) wv s = (r1, s1)"
    by (cases "promote_to_post_handshake env (remote_id h) (remote_port h) (hs_networks h) wv s")
  from assms Inr p have "t = s1 \<or> (\<exists>r. send_peer_list_resp env (hs_networks h) stats s1 = (r, t))"
    by (cases r1) (auto simp: handle_handshake_req_def split: if_splits)
  with promote_frame [OF p] peer_list_frame show ?thesis by (metis handler_frame_trans)
qed

lemma queue_result_frame:
  "queue_result ty inc p down x n = (r, n') \<Longrightarrow> handler_frame (c, n) (c, n') \<and> n_dedup n' = n_dedup n"
  by (auto simp: queue_result_def handler_frame_def handler_defs Let_def
      split: prod.splits sum.splits try_send_error.splits)

lemma incoming_packet_frame:
  "handle_incoming_packet env pac p n = (r, n') \<Longrightarrow> handler_frame (c, n) (c, n') \<and> n_dedup n' = n_dedup n"
  by (auto simp: handle_incoming_packet_def handle_pkt_out_def Let_def
      split: if_splits sum.splits dest: queue_result_frame [where c = c])

lemma small_handlers_frame:
  "send_pong env c = (r, c') \<Longrightarrow> handler_frame (c, n) (c', n)"
  "handle_pong env c = (r, c') \<Longrightarrow> handler_frame (c, n) (c', n)"
  "handler_frame (c, n) (c, register_conn_change env ch n)"
  by (auto simp: send_pong_def handle_pong_def handler_frame_def handler_defs split: sum.splits prod.splits)

lemma incoming_message_frame:
  assumes "handle_incoming_message env msg stats s = (r, t)"
  shows "handler_frame s t \<and> n_dedup (snd t) = n_dedup (snd s)"
proof -
  obtain c n where s: "s = (c, n)" by fastforce
  show ?thesis
    using assms
    by (auto simp: s handle_incoming_message_def register_conn_change_def
        dest: handshake_frame peer_list_frame add_network_frame remove_network_frame
        intro: small_handlers_frame [unfolded register_conn_change_def]
        split: network_payload.splits network_request.splits network_response.splits if_splits prod.splits
        dest!: incoming_packet_frame [where c = c])
qed

lemma count_received_frame:
  "handler_frame s (count_received env bs s)" "n_dedup (snd (count_received env bs s)) = n_dedup (snd s)"
  by (cases s, simp add: count_received_def handler_frame_def handler_defs)+

lemma is_packet_duplicate_node:
  "is_packet_duplicate env pkt n = (r, n') \<Longrightarrow> \<exists>d. n' = n\<lparr>n_dedup := d\<rparr>"
  by (auto simp: is_packet_duplicate_def Let_def split: list.splits sum.splits packet_destination.splits
      packet_type.splits prod.splits intro: exI [of _ "n_dedup n"])

lemma process_message_frame:
  assumes "process_message env bs stats s = (r, t)"
  shows "handler_frame s t"
proof -
  obtain c n where cn: "count_received env bs s = (c, n)" by (cases "count_received env bs s")
  note one = count_received_frame(1) [of s env bs, unfolded cn]
  have dup: "handler_frame (c, n) (c, n')" if "is_packet_duplicate env pkt n = (x, n')" for pkt x n'
    using is_packet_duplicate_node [OF that] by (auto simp: handler_frame_def)
  from assms cn consider "t = (c, n)" | x pkt where "is_packet_duplicate env pkt n = (x, snd t)" "fst t = c"
    | x pkt n' msg where "is_packet_duplicate env pkt n = (x, n')" "handle_incoming_message env msg stats (c, n') = (r, t)"
    | msg where "handle_incoming_message env msg stats (c, n) = (r, t)"
    by (auto simp: process_message_def split: sum.splits network_payload.splits if_splits prod.splits bool.splits)
  then have "handler_frame (c, n) t"
  proof cases
    case 2
    then show ?thesis using dup [of _ x "snd t"] by (metis prod.collapse)
  next
    case 3
    then show ?thesis using dup incoming_message_frame handler_frame_trans by blast
  qed (auto dest: incoming_message_frame)
  with one show ?thesis by (rule handler_frame_trans)
qed

section \<open>Reading ends\<close>

lemma read_stream_returns:
  assumes "noise_in_place (e_noise env)" "ll_wf (c_low_level (fst s))"
  shows "\<exists>r t. read_stream env stats s = Some (r, t) \<and> handler_frame (fst s\<lparr>c_low_level := c_low_level (fst t)\<rparr>, snd s) t"
  using assms(2)
proof (induction "c_low_level (fst s)" arbitrary: s rule: wf_induct_rule [OF wf_closer])
  case 1
  obtain c n where s: "s = (c, n)" by fastforce
  let ?request = "produce_handshake_request env n"
  obtain x ll where x: "read_from_socket (e_noise env) ?request (c_low_level c) = (x, ll)" by fastforce
  let ?s = "(c\<lparr>c_low_level := ll\<rparr>, n)"
  note unfold = read_stream.simps [of env stats "(c, n)"]
  show ?case
  proof (cases x)
    case (Inl e)
    with x show ?thesis by (simp add: unfold s)
  next
    case (Inr y)
    from read_from_socket_progress [OF assms(1) _ x [unfolded Inr]] "1.prems" s
    have wf: "ll_wf ll" and prog: "y = WouldBlock \<or> y = Closed \<or> (ll, c_low_level c) \<in> closer" by auto
    have again: "\<exists>r t. read_stream env stats s2 = Some (r, t) \<and>
        handler_frame (c\<lparr>c_low_level := c_low_level (fst t)\<rparr>, n) t"
      if "handler_frame ?s s2" "(ll, c_low_level c) \<in> closer" for s2
    proof -
      have "c_low_level (fst s2) = ll" using that(1) by (simp add: handler_frame_def)
      with "1.hyps" [of s2] that(2) wf s obtain r t where "read_stream env stats s2 = Some (r, t)"
        "handler_frame (fst s2\<lparr>c_low_level := c_low_level (fst t)\<rparr>, snd s2) t" by auto
      with that(1) show ?thesis by (auto simp: handler_frame_def is_post_handshake_def)
    qed
    show ?thesis
    proof (cases y)
      case (Complete msg)
      obtain r1 s1 where p: "process_message env msg stats ?s = (r1, s1)"
        by (cases "process_message env msg stats ?s")
      note frame = process_message_frame [OF p]
      show ?thesis
      proof (cases r1)
        case e: (Inl e)
        with x Inr Complete p frame show ?thesis
          by (auto simp: unfold s handler_frame_def is_post_handshake_def)
      next
        case ok: (Inr u)
        with x Inr Complete p again [OF frame] prog show ?thesis by (simp add: unfold s)
      qed
    next
      case Incomplete
      with x Inr again [of ?s] prog show ?thesis by (simp add: unfold s)
    qed (use x Inr in \<open>simp_all add: unfold s\<close>)
  qed
qed

section \<open>The handshake\<close>

lemma find_None_zip: "find (\<lambda>(a, b). a \<noteq> b) (zip xs ys) = None \<longleftrightarrow> prefix xs ys \<or> prefix ys xs"
  by (induction xs ys rule: list_induct2') auto

lemma genesis_difference_None: "genesis_difference ours theirs = None \<longleftrightarrow> prefix ours theirs \<or> prefix theirs ours"
  by (simp add: genesis_difference_def find_None_zip)

lemma handle_not_post_handshake:
  assumes "\<not> is_post_handshake c" "\<forall>h. net_payload msg \<noteq> NetworkRequest (Handshake h)"
  shows "handle_incoming_message env msg stats (c, n) =
    (Inl (Bail ''Connection has not yet completed the handshake.''), c, n)"
  using assms by (auto simp: handle_incoming_message_def split: network_payload.split network_request.split)

text \<open>What a message without effect may still change.\<close>

definition only_counted :: "('ns, 'kv) conn_node \<Rightarrow> ('ns, 'kv) conn_node \<Rightarrow> bool" where
  "only_counted s t \<longleftrightarrow>
     c_remote_peer (fst t) = c_remote_peer (fst s) \<and> c_networks (fst t) = c_networks (fst s) \<and>
     c_pending (fst t) = c_pending (fst s) \<and> c_wire_version (fst t) = c_wire_version (fst s) \<and>
     callback_queue (snd t) = callback_queue (snd s) \<and> conn_changes (snd t) = conn_changes (snd s) \<and>
     n_buckets (snd t) = n_buckets (snd s) \<and> n_bad_events (snd t) = n_bad_events (snd s)"

lemma count_received_counted: "only_counted s (count_received env bs s)"
  by (cases s) (simp add: only_counted_def count_received_def handler_defs)

section \<open>Deduplication\<close>

primrec dedup_queue_of :: "packet_type \<Rightarrow> dedup_queues \<Rightarrow> dyn_dedup_queue option" where
  "dedup_queue_of FinalizationMessage q = Some (dq_finalizations q)"
| "dedup_queue_of Transaction q = Some (dq_transactions q)"
| "dedup_queue_of Block q = Some (dq_blocks q)"
| "dedup_queue_of FinalizationRecord q = Some (dq_fin_records q)"
| "dedup_queue_of CatchUpStatus q = None"

abbreviation checks :: "dedup_env \<Rightarrow> bytes list \<Rightarrow> dyn_dedup_queue \<Rightarrow> dyn_dedup_queue" where
  "checks denv \<equiv> fold (\<lambda>m q. snd (check_and_insert denv m q))"

text \<open>A packet that is checked is checked by the queue of its type.\<close>

lemma is_packet_duplicate_check:
  assumes "message pkt = tag # rest" "packet_type_try_from tag = Inr ty" "destination pkt = Broadcast l"
    and "dedup_queue_of ty (n_dedup n) = Some q"
  shows "\<exists>d. is_packet_duplicate env pkt n =
      (Inr (fst (check_and_insert (e_dedup env) (message pkt) q)), n\<lparr>n_dedup := d\<rparr>) \<and>
    dedup_queue_of ty d = Some (snd (check_and_insert (e_dedup env) (message pkt) q))"
  using assms by (cases ty) (auto simp: is_packet_duplicate_def dedup_with_def Let_def split: prod.split)

lemma is_packet_duplicate_queue:
  assumes "is_packet_duplicate env pkt n = (r, n')" "dedup_queue_of ty (n_dedup n) = Some q"
  shows "\<exists>ms. length ms \<le> 1 \<and> dedup_queue_of ty (n_dedup n') = Some (checks (e_dedup env) ms q)"
proof -
  have "dedup_queue_of ty (n_dedup n') = Some q \<or>
      dedup_queue_of ty (n_dedup n') = Some (snd (check_and_insert (e_dedup env) (message pkt) q))"
    using assms
    by (cases ty)
      (auto simp: is_packet_duplicate_def dedup_with_def Let_def
        split: list.splits sum.splits packet_destination.splits packet_type.splits prod.splits)
  then show ?thesis
  proof
    assume "dedup_queue_of ty (n_dedup n') = Some q"
    then show ?thesis by (intro exI [of _ "[]"]) simp
  next
    assume "dedup_queue_of ty (n_dedup n') = Some (snd (check_and_insert (e_dedup env) (message pkt) q))"
    then show ?thesis by (intro exI [of _ "[message pkt]"]) simp
  qed
qed

lemma process_message_queue:
  assumes "process_message env bs stats s = (r, t)" "dedup_queue_of ty (n_dedup (snd s)) = Some q"
  shows "\<exists>ms. length ms \<le> 1 \<and> dedup_queue_of ty (n_dedup (snd t)) = Some (checks (e_dedup env) ms q)"
proof -
  obtain c n where cn: "count_received env bs s = (c, n)" by (cases "count_received env bs s")
  have n: "dedup_queue_of ty (n_dedup n) = Some q"
    using count_received_frame(2) [of env bs s] assms(2) by (simp add: cn)
  have same: "\<exists>ms. length ms \<le> 1 \<and> dedup_queue_of ty (n_dedup n) = Some (checks (e_dedup env) ms q)"
    using n by (intro exI [of _ "[]"]) simp
  from assms(1) consider "n_dedup (snd t) = n_dedup n"
    | x pkt n' where "is_packet_duplicate env pkt n = (x, n')" "n_dedup (snd t) = n_dedup n'"
    by (auto simp: process_message_def cn dest!: incoming_message_frame
        split: sum.splits network_payload.splits if_splits prod.splits bool.splits)
  then show ?thesis by cases (use same is_packet_duplicate_queue [OF _ n] in auto)
qed

text \<open>A sequence of messages on any connections.\<close>

type_synonym ('ns, 'kv) arrival = "('ns, 'kv) env \<times> peer_stats list \<times> 'ns connection \<times> bytes"

fun arrivals :: "('ns, 'kv) arrival list \<Rightarrow> ('ns, 'kv) p2p_node \<Rightarrow> ('ns, 'kv) p2p_node" where
  "arrivals [] n = n"
| "arrivals ((env, stats, c, bs) # as) n = arrivals as (snd (snd (process_message env bs stats (c, n))))"

lemma arrivals_queue:
  assumes "\<forall>(env, _) \<in> set as. e_dedup env = denv" "dedup_queue_of ty (n_dedup n) = Some q"
  shows "\<exists>ms. length ms \<le> length as \<and>
    dedup_queue_of ty (n_dedup (arrivals as n)) = Some (checks denv ms q)"
  using assms
proof (induction as n arbitrary: q rule: arrivals.induct)
  case (2 env stats c bs as n)
  obtain r t where t: "process_message env bs stats (c, n) = (r, t)"
    by (cases "process_message env bs stats (c, n)")
  from process_message_queue [OF t, of ty q] "2.prems" obtain ms where
    ms: "length ms \<le> 1" "dedup_queue_of ty (n_dedup (snd t)) = Some (checks denv ms q)" by auto
  with "2.IH" [of "checks denv ms q"] "2.prems" t obtain ms' where
    "length ms' \<le> length as" "dedup_queue_of ty (n_dedup (arrivals as (snd t))) = Some (checks denv (ms @ ms') q)"
    by auto
  with t ms(1) show ?case by (intro exI [of _ "ms @ ms'"]) simp
qed simp

text \<open>The second copy of a broadcast, given that the first one was new.\<close>

lemma second_copy:
  assumes "dedup_env_lawful denv" "\<forall>(env, _) \<in> set ((env, x) # (env', x') # as). e_dedup env = denv"
    and "deserialize (e_fb env) (e_now env) bs = Inr msg" "net_payload msg = NetworkPacket pkt"
    and "deserialize (e_fb env') (e_now env') bs' = Inr msg'" "net_payload msg' = NetworkPacket pkt"
    and "destination pkt = Broadcast l" "message pkt = tag # rest" "packet_type_try_from tag = Inr ty"
    and "node_type n = Node" "dedup_queue_of ty (n_dedup n) = Some q" "length as < dyn_capacity q"
    and "\<not> fst (check_and_insert denv (message pkt) q)"
    and "process_message env bs stats (c, n) = (r, c1, n1)"
    and "process_message env' bs' stats' (c', arrivals as n1) = (r', c2, n2)"
  shows "r' = Inr () \<and> callback_queue n2 = callback_queue (arrivals as n1)"
proof -
  have denv: "e_dedup env = denv" "e_dedup env' = denv" "\<forall>(env, _) \<in> set as. e_dedup env = denv"
    using assms(2) by auto
  have type: "node_type (snd (count_received e b s)) = node_type (snd s)" for e b and s :: "('a, 'b) conn_node"
    using count_received_frame(1) [of s e b] by (simp add: handler_frame_def)
  define q1 where "q1 = snd (check_and_insert denv (message pkt) q)"
  have new: "check_and_insert denv (message pkt) q = (False, q1)"
    using assms(13) by (simp add: q1_def prod_eq_iff)
  have "dedup_queue_of ty (n_dedup n1) = Some q1"
  proof -
    let ?n = "snd (count_received env bs (c, n))"
    have "dedup_queue_of ty (n_dedup ?n) = Some q" using assms(11) count_received_frame(2) [of env bs "(c, n)"] by simp
    from is_packet_duplicate_check [OF assms(8,9,7) this, of env] obtain d where
      "is_packet_duplicate env pkt ?n = (Inr False, ?n\<lparr>n_dedup := d\<rparr>)" "dedup_queue_of ty d = Some q1"
      using new denv(1) by auto
    with assms(14) show ?thesis
      by (auto simp: process_message_def split_beta assms(3,4,10) type dest: incoming_message_frame)
  qed
  with arrivals_queue [OF denv(3)] obtain ms where
    ms: "length ms \<le> length as" "dedup_queue_of ty (n_dedup (arrivals as n1)) = Some (checks denv ms q1)" by blast
  let ?n2 = "snd (count_received env' bs' (c', arrivals as n1))"
  have "fst (check_and_insert denv (message pkt) (checks denv ms q1))"
    using dup_within_window [OF assms(1) _ new refl] ms(1) assms(12) by simp
  moreover have "dedup_queue_of ty (n_dedup ?n2) = Some (checks denv ms q1)"
    using ms(2) count_received_frame(2) [of env' bs' "(c', arrivals as n1)"] by simp
  ultimately obtain d where "is_packet_duplicate env' pkt ?n2 = (Inr True, ?n2\<lparr>n_dedup := d\<rparr>)"
    using is_packet_duplicate_check [OF assms(8,9,7), of ?n2 _ env'] denv(2) by auto
  with assms(15) have "r' = Inr ()" "callback_queue n2 = callback_queue ?n2"
    by (auto simp: process_message_def split_beta assms(5,6) split: if_splits)
  with count_received_counted [of "(c', arrivals as n1)" env' bs'] show ?thesis by (simp add: only_counted_def)
qed

section \<open>Properties\<close>


text \<open>(C27) A handshake is accepted exactly when the version of the client is compatible, the peers
  share a wire protocol version, the networks are not too many, and of the two lists of genesis
  blocks one is a prefix of the other.\<close>

theorem handshake_accepted_iff:
  "(\<exists>wv. handshake_checks h ours = Inr wv) \<longleftrightarrow>
     is_compatible_version (node_version h) \<and>
     set WIRE_PROTOCOL_VERSIONS \<inter> set (wire_versions h) \<noteq> {} \<and>
     length (hs_networks h) \<le> MAX_PEER_NETWORKS \<and>
     (prefix ours (genesis_blocks h) \<or> prefix (genesis_blocks h) ours)"
proof -
  have some: "(\<exists>wv. is_compatible_wire_version vs = Some wv) \<longleftrightarrow> set WIRE_PROTOCOL_VERSIONS \<inter> set vs \<noteq> {}" for vs
    by (auto simp: is_compatible_wire_version_def find_None_iff not_None_eq [symmetric] simp del: not_None_eq)
  show ?thesis
    using some [of "[]"]
    by (auto simp: handshake_checks_def genesis_difference_None [symmetric] some [symmetric]
        split: option.split)
qed

text \<open>(C28) Reading from a connection ends, with a result, whatever arrives on its socket and in every
  phase of the connection.\<close>

theorem read_stream_terminates:
  assumes "noise_in_place (e_noise env)" "ll_wf (c_low_level (fst s))"
  shows "\<exists>r t. read_stream env stats s = Some (r, t)"
  using read_stream_returns [OF assms, of stats] by blast

theorem read_stream_terminates_witness:
  "noise_in_place (e_noise example_env) \<and> ll_wf (c_low_level (example_connection 1 None)) \<and>
   (\<exists>r t. read_stream example_env [] (example_connection 1 None, example_node) = Some (r, t))"
proof -
  have "noise_in_place (e_noise example_env)" "ll_wf (c_low_level (fst (example_connection 1 None, example_node)))"
    by (simp_all add: example_env_def plain_noise_lawful example_connection_def low_level_new_wf)
  with read_stream_terminates [OF this, of "[]"] show ?thesis by simp
qed


text \<open>(C29) A broadcast that was new is not forwarded to consensus a second time, from whichever
  connection it comes, as long as fewer packets arrive in between than its deduplication queue
  holds.\<close>

theorem broadcast_forwarded_once:
  assumes "dedup_env_lawful denv" "\<forall>(env, _) \<in> set ((env, x) # (env', x') # as). e_dedup env = denv"
    and "deserialize (e_fb env) (e_now env) bs = Inr msg" "net_payload msg = NetworkPacket pkt"
    and "deserialize (e_fb env') (e_now env') bs' = Inr msg'" "net_payload msg' = NetworkPacket pkt"
    and "destination pkt = Broadcast l" "message pkt = tag # rest" "packet_type_try_from tag = Inr ty"
    and "node_type n = Node" "dedup_queue_of ty (n_dedup n) = Some q" "length as < dyn_capacity q"
    and "\<not> fst (check_and_insert denv (message pkt) q)"
    and "process_message env bs stats (c, n) = (r, c1, n1)"
    and "process_message env' bs' stats' (c', arrivals as n1) = (r', c2, n2)"
  shows "r' = Inr () \<and> callback_queue n2 = callback_queue (arrivals as n1)"
  using assms by (rule second_copy)

theorem broadcast_forwarded_once_witness:
  "let c = example_connection 1 (Some (P2PNodeId 9)); c' = example_connection 2 (Some (P2PNodeId 8));
       n1 = snd (snd (process_message example_env (example_broadcast [1, 5]) [] (c, example_node)));
       as = [(example_env, [], c', example_broadcast [1, 6])];
       n2 = snd (snd (process_message example_env (example_broadcast [1, 5]) [] (c', arrivals as n1))) in
   callback_queue n1 \<noteq> callback_queue example_node \<and> callback_queue n2 = callback_queue (arrivals as n1)"
proof -
  let ?c = "example_connection 1 (Some (P2PNodeId 9))" and ?c' = "example_connection 2 (Some (P2PNodeId 8))"
  let ?b = "example_broadcast [1, 5]"
  obtain r c1 n1 where p1: "process_message example_env ?b [] (?c, example_node) = (r, c1, n1)"
    by (metis prod.collapse)
  let ?as = "[(example_env, [], ?c', example_broadcast [1, 6])]"
  obtain r' c2 n2 where p2: "process_message example_env ?b [] (?c', arrivals ?as n1) = (r', c2, n2)"
    by (metis prod.collapse)
  have "callback_queue n2 = callback_queue (arrivals ?as n1)"
    using broadcast_forwarded_once [OF example_dedup_env_lawful _ deserialize_example_broadcast _
        deserialize_example_broadcast _ _ _ transaction_tag _ _ _ _ p1 p2] example_transactions
    by simp
  moreover have "callback_queue n1 \<noteq> callback_queue example_node"
    using p1 transaction_tag
    by (auto simp: process_message_def count_received_def deserialize_example_broadcast
        handle_incoming_message_def handle_incoming_packet_def handle_pkt_out_def is_packet_duplicate_def
        dedup_with_def update_last_seen_def log_metrics_def is_post_handshake_def queue_result_def Let_def
        example_connection_def example_node_def dedup_queues_new_def xx_new_def example_dedup_simps
        send_in_low_priority_message_def send_msg_def consensus_queues_default_def inbound_queues_default_def
        list_channel_ops_def CONSENSUS_QUEUE_DEPTH_IN_LO_def PROTOCOL_MAX_TRANSACTION_SIZE_def)
  ultimately show ?thesis using p1 p2 by (simp add: Let_def)
qed

text \<open>(C31) Deduplication comes before the check that the handshake is complete: a peer that never made
  a handshake can send a broadcast that is refused, but is recorded all the same, and the node then
  drops the same broadcast from a peer with a complete handshake without forwarding it.\<close>

theorem unauthenticated_broadcast_suppresses:
  assumes "dedup_env_lawful (e_dedup env)"
    and "deserialize (e_fb env) (e_now env) bs = Inr msg" "net_payload msg = NetworkPacket pkt"
    and "destination pkt = Broadcast l" "message pkt = tag # rest" "packet_type_try_from tag = Inr ty"
    and "node_type n = Node" "dedup_queue_of ty (n_dedup n) = Some q" "0 < dyn_capacity q"
    and "\<not> fst (check_and_insert (e_dedup env) (message pkt) q)"
    and "\<not> is_post_handshake c" "is_post_handshake c'"
    and "process_message env bs stats (c, n) = (r, c1, n1)"
    and "process_message env bs stats (c', n1) = (r', c2, n2)"
  shows "r' = Inr () \<and> callback_queue n2 = callback_queue n"
proof -
  have "r' = Inr () \<and> callback_queue n2 = callback_queue n1"
    by (rule second_copy [where as = "[]", simplified, OF assms(1) _ assms(2,3,2,3,4,5,6,7,8,9,10,13,14)]) simp
  moreover obtain c3 n3 where cn: "count_received env bs (c, n) = (c3, n3)"
    by (cases "count_received env bs (c, n)")
  moreover have "\<not> is_post_handshake c3" "callback_queue n3 = callback_queue n"
    using count_received_counted [of "(c, n)" env bs] assms(11) cn
    by (simp_all add: only_counted_def is_post_handshake_def)
  moreover have "handle_incoming_message env msg stats (c3, n') =
      (Inl (Bail ''Connection has not yet completed the handshake.''), c3, n')" for n'
    using calculation(3) assms(3) by (intro handle_not_post_handshake) simp_all
  then have "callback_queue n1 = callback_queue n3"
    using assms(2,3,13) by (auto simp: process_message_def cn dest!: is_packet_duplicate_node
        split: if_splits prod.splits sum.splits bool.splits)
  ultimately show ?thesis by simp
qed

theorem unauthenticated_broadcast_suppresses_witness:
  "let c = example_connection 1 None; c' = example_connection 2 (Some (P2PNodeId 8));
       n1 = snd (snd (process_message example_env (example_broadcast [1, 5]) [] (c, example_node)));
       n2 = snd (snd (process_message example_env (example_broadcast [1, 5]) [] (c', n1))) in
   \<not> is_post_handshake c \<and> is_post_handshake c' \<and> callback_queue n2 = callback_queue example_node"
proof -
  let ?c = "example_connection 1 None" and ?c' = "example_connection 2 (Some (P2PNodeId 8))"
  let ?b = "example_broadcast [1, 5]"
  obtain r c1 n1 where p1: "process_message example_env ?b [] (?c, example_node) = (r, c1, n1)"
    by (metis prod.collapse)
  obtain r' c2 n2 where p2: "process_message example_env ?b [] (?c', n1) = (r', c2, n2)"
    by (metis prod.collapse)
  have "callback_queue n2 = callback_queue example_node"
    using unauthenticated_broadcast_suppresses [OF _ deserialize_example_broadcast _ _ _ transaction_tag _ _ _ _ _ _ p1 p2]
      example_transactions example_dedup_env_lawful
    by simp
  then show ?thesis using p1 p2 by (simp add: Let_def)
qed

end
