(* ===== verification/Connectivity.thy ===== *)
theory Connectivity
  imports Connection_Handlers
begin

text \<open>
  Connectivity: \<open>p2p/connectivity.rs\<close>, the statistics and the search for peers of
  \<open>p2p/peers.rs\<close>, the queries on given addresses and the bootstrapping of \<open>p2p/maintenance.rs\<close>, and
  \<open>get_bootstrap_nodes\<close> of \<open>utils.rs\<close>.

  \<^item> Removing a connection from a collection runs its destructor, which updates a metric.
  \<^item> The poll thread handles the connections in parallel; here one after the other.  A handler works
    only on its own connection and on the shared state of the node, never on the collections.
  \<^item> \<open>None\<close> is a call that does not return.
\<close>

section \<open>Errors that are logged\<close>

text \<open>\<open>if let Err(e) = f() { log }\<close>: an error is dropped, a panic is not.\<close>

definition log_error :: "unit result \<times> 's \<Rightarrow> unit result \<times> 's" where
  "log_error = (\<lambda>(r, s). (case r of Inl (Panic p) \<Rightarrow> (Inl (Panic p), s) | _ \<Rightarrow> (Inr (), s)))"

section \<open>Peer statistics\<close>

definition peer_stats_new ::
    "remote_peer_id \<Rightarrow> p2p_node_id \<Rightarrow> socket_addr \<Rightarrow> u16 \<Rightarrow> peer_type \<Rightarrow> connection_stats \<Rightarrow> peer_stats" where
  "peer_stats_new lid sid a port pt st =
     \<lparr>ps_self_id = sid, ps_addr = a, ps_external_port = port, ps_local_id = lid, ps_peer_type = pt,
      ps_latency = get_latency st, ps_msgs_sent = cs_messages_sent st,
      ps_msgs_received = cs_messages_received st, ps_bytes_sent = cs_bytes_sent st,
      ps_bytes_received = cs_bytes_received st\<rparr>"

text \<open>\<open>self_id.unwrap()\<close>\<close>

definition connection_peer_stats :: "'ns connection \<Rightarrow> peer_stats result" where
  "connection_peer_stats c = (case self_id (c_remote_peer c) of
     None \<Rightarrow> Inl (Panic ''called `Option::unwrap()` on a `None` value'')
   | Some i \<Rightarrow> Inr (peer_stats_new (local_id (c_remote_peer c)) i (remote_addr c)
       (external_port (c_remote_peer c)) (peer_type (c_remote_peer c)) (c_stats c)))"

definition get_peer_stats :: "peer_type option \<Rightarrow> ('ns, 'kv) p2p_node \<Rightarrow> peer_stats list result" where
  "get_peer_stats pt n =
     collect_results (map connection_peer_stats
       (filter (\<lambda>c. pt = None \<or> pt = Some (peer_type (c_remote_peer c))) (hm_values (connections n))))"

definition get_node_peer_tokens :: "('ns, 'kv) p2p_node \<Rightarrow> remote_peer_id list result" where
  "get_node_peer_tokens n = (case get_peer_stats (Some Node) n of
     Inl e \<Rightarrow> Inl e | Inr ss \<Rightarrow> Inr (map ps_local_id ss))"

definition is_given_connection :: "'ns connection \<Rightarrow> ('ns, 'kv) p2p_node \<Rightarrow> bool" where
  "is_given_connection c n \<longleftrightarrow>
     remote_addr c \<in> set (given_addresses n) \<or> external_addr (c_remote_peer c) \<in> set (given_addresses n)"

definition unconnected_given_addresses :: "('ns, 'kv) p2p_node \<Rightarrow> socket_addr hset" where
  "unconnected_given_addresses n =
     fold (\<lambda>c ret. hs_remove (external_addr (c_remote_peer c)) (hs_remove (remote_addr c) ret))
       (hm_values (connections n)) (given_addresses n)"

definition is_connected :: "socket_addr \<Rightarrow> ('ns, 'kv) p2p_node \<Rightarrow> bool" where
  "is_connected a n \<longleftrightarrow>
     (\<exists>c \<in> set (hm_values (connections n)). remote_addr c = a \<or> external_addr (c_remote_peer c) = a)"

subsection \<open>Throughput\<close>

definition calculate_average_throughput ::
    "int \<Rightarrow> int \<Rightarrow> u64 \<Rightarrow> u64 \<Rightarrow> u64 \<Rightarrow> u64 \<Rightarrow> (u64 \<times> u64) result" where
  "calculate_average_throughput before_millis now_millis prev_recv recv prev_sent sent =
     (if \<not> now_millis > before_millis then Inl (Bail ''Time went backwards or did not change.'')
      else (let delta = (word_of_int (now_millis - before_millis) :: u64) in
            if delta = 0 then Inl (Panic ''attempt to divide by zero'')
            else Inr ((1000 * (recv - prev_recv)) div delta, (1000 * (sent - prev_sent)) div delta)))"

definition measure_throughput ::
    "('ns, 'kv) env \<Rightarrow> ('ns, 'kv) p2p_node \<Rightarrow> unit result \<times> ('ns, 'kv) p2p_node" where
  "measure_throughput env n =
     (let tp = n_throughput n;
          bytes_received = word_of_int (metric_value Received_bytes (n_stats n));
          bytes_sent = word_of_int (metric_value Sent_bytes (n_stats n));
          n1 = n\<lparr>n_throughput := tp\<lparr>tp_received_bytes := bytes_received, tp_sent_bytes := bytes_sent\<rparr>\<rparr> in
      case calculate_average_throughput (tp_timestamp tp) (e_millis env)
             (tp_received_bytes tp) bytes_received (tp_sent_bytes tp) bytes_sent of
        Inl e \<Rightarrow> (Inl e, n1)
      | Inr (i, out) \<Rightarrow>
          (Inr (), n1\<lparr>n_throughput := (n_throughput n1)
             \<lparr>tp_avg_bps_in := i, tp_avg_bps_out := out, tp_timestamp := e_millis env\<rparr>\<rparr>))"

section \<open>Sending\<close>

definition send_over_all_connections ::
    "bytes \<Rightarrow> ('ns connection \<Rightarrow> bool) \<Rightarrow> ('ns, 'kv) p2p_node \<Rightarrow> nat \<times> ('ns, 'kv) p2p_node" where
  "send_over_all_connections data conn_filter n =
     (length (filter conn_filter (hm_values (connections n))),
      n\<lparr>connections := map (\<lambda>(t, c). (t, if conn_filter c then async_send data Normal c else c)) (connections n)\<rparr>)"

definition broadcast_network_request ::
    "('ns, 'kv) env \<Rightarrow> network_request \<Rightarrow> ('ns, 'kv) p2p_node \<Rightarrow> ('ns, 'kv) p2p_node" where
  "broadcast_network_request env request n =
     (case serialize (e_fb env) (e_now env) (netmsg (e_now env) (NetworkRequest request)) of
        Inl e \<Rightarrow> n
      | Inr bs \<Rightarrow> snd (send_over_all_connections bs (\<lambda>_. True) n))"

definition send_join_network :: "('ns, 'kv) env \<Rightarrow> network_id \<Rightarrow> ('ns, 'kv) p2p_node \<Rightarrow> ('ns, 'kv) p2p_node" where
  "send_join_network env i n = broadcast_network_request env (JoinNetwork i) n"

definition send_leave_network :: "('ns, 'kv) env \<Rightarrow> network_id \<Rightarrow> ('ns, 'kv) p2p_node \<Rightarrow> ('ns, 'kv) p2p_node" where
  "send_leave_network env i n = broadcast_network_request env (LeaveNetwork i) n"

definition send_get_peers :: "('ns, 'kv) env \<Rightarrow> ('ns, 'kv) p2p_node \<Rightarrow> ('ns, 'kv) p2p_node" where
  "send_get_peers env n =
     (case serialize (e_fb env) (e_now env) (netmsg (e_now env) (NetworkRequest (GetPeers (n_networks n)))) of
        Inl e \<Rightarrow> n
      | Inr bs \<Rightarrow> snd (send_over_all_connections bs (\<lambda>_. True) n))"

definition measure_connection_latencies ::
    "('ns, 'kv) env \<Rightarrow> ('ns, 'kv) p2p_node \<Rightarrow> ('ns, 'kv) p2p_node" where
  "measure_connection_latencies env n =
     n\<lparr>connections := map (\<lambda>(t, c). (t, snd (send_ping env c))) (connections n)\<rparr>"

definition is_valid_broadcast_target :: "'ns connection \<Rightarrow> remote_peer_id list \<Rightarrow> network_id \<Rightarrow> bool" where
  "is_valid_broadcast_target c peers_to_skip i \<longleftrightarrow>
     peer_type (c_remote_peer c) \<noteq> Bootstrapper \<and>
     local_id (c_remote_peer c) \<notin> set peers_to_skip \<and> i \<in> set (c_networks c)"

definition peers_to_skip_of ::
    "('ns, 'kv) env \<Rightarrow> packet_destination \<Rightarrow> ('ns, 'kv) p2p_node \<Rightarrow> remote_peer_id list result" where
  "peers_to_skip_of env dst n = (case dst of
     Direct _ \<Rightarrow> Inr []
   | Broadcast dont_relay_to \<Rightarrow>
       (let pct = nc_relay_broadcast_percentage (n_config n) in
        if pct < 1 then
          (case get_node_peer_tokens n of
             Inl e \<Rightarrow> Inl e
           | Inr ps \<Rightarrow>
               (let peers = filter (\<lambda>p. p \<notin> set dont_relay_to) ps;
                    peers_to_take = \<lfloor>f64_round (of_nat (unat (word_of_nat (length peers) :: u32)) * pct)\<rfloor> in
                Inr (e_choose_peers env peers (nat peers_to_take))))
        else Inr dont_relay_to))"

definition process_network_packet ::
    "('ns, 'kv) env \<Rightarrow> network_packet \<Rightarrow> ('ns, 'kv) p2p_node \<Rightarrow> nat result \<times> ('ns, 'kv) p2p_node" where
  "process_network_packet env pkt n =
     (case peers_to_skip_of env (destination pkt) n of
        Inl e \<Rightarrow> (Inl e, n)
      | Inr peers_to_skip \<Rightarrow>
          (case serialize (e_fb env) (e_now env) (netmsg (e_now env) (NetworkPacket pkt)) of
             Inl e \<Rightarrow> (Inl e, n)
           | Inr bs \<Rightarrow>
               (let flt = (case destination pkt of
                      Direct target \<Rightarrow> (\<lambda>c. local_id (c_remote_peer c) = target)
                    | Broadcast _ \<Rightarrow> (\<lambda>c. is_valid_broadcast_target c peers_to_skip (packet_network_id pkt)));
                    (sent, n') = send_over_all_connections bs flt n in
                (Inr sent, n'))))"

text \<open>An error of serialisation counts as no packet sent; a panic is kept.\<close>

definition send_message_over_network ::
    "('ns, 'kv) env \<Rightarrow> remote_peer_id option \<Rightarrow> remote_peer_id list \<Rightarrow> network_id \<Rightarrow> bytes \<Rightarrow>
     ('ns, 'kv) p2p_node \<Rightarrow> nat result \<times> ('ns, 'kv) p2p_node" where
  "send_message_over_network env target_id dont_relay_to i msg n =
     (let dst = (case target_id of Some t \<Rightarrow> Direct t | None \<Rightarrow> Broadcast dont_relay_to) in
      case process_network_packet env \<lparr>destination = dst, packet_network_id = i, message = msg\<rparr> n of
        (Inr sent, n') \<Rightarrow> (Inr sent, n')
      | (Inl (Panic p), n') \<Rightarrow> (Inl (Panic p), n')
      | (Inl _, n') \<Rightarrow> (Inr 0, n'))"

definition send_direct_message ::
    "('ns, 'kv) env \<Rightarrow> remote_peer_id \<Rightarrow> network_id \<Rightarrow> bytes \<Rightarrow> ('ns, 'kv) p2p_node \<Rightarrow>
     nat result \<times> ('ns, 'kv) p2p_node" where
  "send_direct_message env target i msg n = send_message_over_network env (Some target) [] i msg n"

definition send_broadcast_message ::
    "('ns, 'kv) env \<Rightarrow> remote_peer_id list \<Rightarrow> network_id \<Rightarrow> bytes \<Rightarrow> ('ns, 'kv) p2p_node \<Rightarrow>
     nat result \<times> ('ns, 'kv) p2p_node" where
  "send_broadcast_message env dont_relay_to i msg n = send_message_over_network env None dont_relay_to i msg n"

section \<open>Removing connections\<close>

definition remove_connection ::
    "('ns, 'kv) env \<Rightarrow> token \<Rightarrow> ('ns, 'kv) p2p_node \<Rightarrow> (bool \<times> remote_peer) option \<times> ('ns, 'kv) p2p_node" where
  "remove_connection env tok n =
     (case hm_get (conn_candidates n) tok of
        Some c \<Rightarrow> (Some (False, c_remote_peer c),
          log_metrics (connection_drop c) (n\<lparr>conn_candidates := hm_remove tok (conn_candidates n)\<rparr>))
      | None \<Rightarrow>
          (case hm_get (connections n) tok of
             None \<Rightarrow> (None, n)
           | Some c \<Rightarrow> (Some (True, c_remote_peer c),
               log_metrics (connection_drop c)
                 (bump_last_peer_update env (n\<lparr>connections := hm_remove tok (connections n)\<rparr>)))))"

fun remove_loop ::
    "token list \<Rightarrow> ('ns, 'kv) p2p_node \<Rightarrow> bool \<times> remote_peer list \<times> ('ns, 'kv) p2p_node" where
  "remove_loop [] n = (False, [], n)"
| "remove_loop (tok # toks) n =
     (case hm_get (conn_candidates n) tok of
        Some c \<Rightarrow>
          (let (_, ps, n') = remove_loop toks
                 (log_metrics (connection_drop c) (n\<lparr>conn_candidates := hm_remove tok (conn_candidates n)\<rparr>)) in
           (True, ps, n'))
      | None \<Rightarrow>
          (case hm_get (connections n) tok of
             None \<Rightarrow> remove_loop toks n
           | Some c \<Rightarrow>
               (let (cands, ps, n') = remove_loop toks
                      (log_metrics (connection_drop c) (n\<lparr>connections := hm_remove tok (connections n)\<rparr>)) in
                (cands, c_remote_peer c # ps, n'))))"

definition remove_connections ::
    "('ns, 'kv) env \<Rightarrow> token list \<Rightarrow> ('ns, 'kv) p2p_node \<Rightarrow>
     (bool \<times> remote_peer list) \<times> ('ns, 'kv) p2p_node" where
  "remove_connections env toks n =
     (let (removed_candidates, removed_peers, n1) = remove_loop toks n in
      ((removed_candidates \<or> removed_peers \<noteq> [], removed_peers),
       if removed_peers \<noteq> [] then bump_last_peer_update env n1 else n1))"

text \<open>\<open>retain\<close> on both collections of connections.\<close>

definition retain_connections ::
    "('ns connection \<Rightarrow> bool) \<Rightarrow> ('ns, 'kv) p2p_node \<Rightarrow> ('ns, 'kv) p2p_node" where
  "retain_connections keep n =
     log_metrics (drop_all (filter (\<lambda>c. \<not> keep c) (hm_values (connections n))))
       (n\<lparr>connections := hm_retain (\<lambda>_. keep) (connections n)\<rparr>)"

definition retain_candidates ::
    "('ns connection \<Rightarrow> bool) \<Rightarrow> ('ns, 'kv) p2p_node \<Rightarrow> ('ns, 'kv) p2p_node" where
  "retain_candidates keep n =
     log_metrics (drop_all (filter (\<lambda>c. \<not> keep c) (hm_values (conn_candidates n))))
       (n\<lparr>conn_candidates := hm_retain (\<lambda>_. keep) (conn_candidates n)\<rparr>)"

definition remove_connection_to_addr :: "socket_addr \<Rightarrow> ('ns, 'kv) p2p_node \<Rightarrow> ('ns, 'kv) p2p_node" where
  "remove_connection_to_addr a n =
     retain_connections (\<lambda>c. remote_addr c \<noteq> a) (retain_candidates (\<lambda>c. remote_addr c \<noteq> a) n)"

section \<open>Socket events\<close>

record poll_event =
  ev_token :: token
  ev_writable :: bool
  ev_readable :: bool
  ev_closed :: bool

text \<open>What an error on a connection leads to: \<open>e.downcast::<io::Error>()\<close>.\<close>

definition conn_failed ::
    "('ns, 'kv) env \<Rightarrow> rust_error \<Rightarrow> ('ns, 'kv) conn_node \<Rightarrow> unit result \<times> ('ns, 'kv) conn_node" where
  "conn_failed env e = (\<lambda>(c, n). (case e of
     Panic p \<Rightarrow> (Inl (Panic p), c, n)
   | Io_error _ \<Rightarrow> (Inr (), c, register_conn_change env (RemovalByToken (conn_token c)) n)
   | Bail _ \<Rightarrow> (Inr (), c, register_conn_change env (ExpulsionByToken (conn_token c)) n)))"

definition backstop ::
    "('ns, 'kv) env \<Rightarrow> poll_event list \<Rightarrow> ('ns, 'kv) conn_node \<Rightarrow> ('ns, 'kv) conn_node" where
  "backstop env events = (\<lambda>(c, n).
     (if \<exists>ev \<in> set events. ev_token ev = conn_token c \<and> ev_closed ev
      then (c, register_conn_change env (RemovalByToken (conn_token c)) n) else (c, n)))"

definition send_and_flush ::
    "('ns, 'kv) env \<Rightarrow> ('ns, 'kv) conn_node \<Rightarrow> unit result \<times> ('ns, 'kv) conn_node" where
  "send_and_flush env s =
     bind_res (send_pending_messages env s) (\<lambda>_ (c, n).
       (let (r, ll) = flush_socket (e_noise env) (c_low_level c) in (r, c\<lparr>c_low_level := ll\<rparr>, n)))"

definition process_connection ::
    "('ns, 'kv) env \<Rightarrow> poll_event list \<Rightarrow> peer_stats list \<Rightarrow> ('ns, 'kv) conn_node \<Rightarrow>
     (unit result \<times> ('ns, 'kv) conn_node) option" where
  "process_connection env events stats = (\<lambda>(c, n).
     (let tok = conn_token c;
          c1 = (if \<exists>ev \<in> set events. ev_token ev = tok \<and> ev_writable ev
                then c\<lparr>c_low_level := notify_writable (c_low_level c)\<rparr> else c) in
      case send_and_flush env (c1, n) of
        (Inl e, s) \<Rightarrow> Some (conn_failed env e s)
      | (Inr _, s) \<Rightarrow>
          if \<exists>ev \<in> set events. ev_token ev = tok \<and> ev_readable ev then
            (case read_stream env stats s of
               None \<Rightarrow> None
             | Some (Inl e, s') \<Rightarrow> Some (conn_failed env e s')
             | Some (Inr still_open, s') \<Rightarrow>
                 if still_open then Some (Inr (), backstop env events s')
                 else Some (Inr (), fst s', register_conn_change env (RemovalByToken (conn_token (fst s'))) (snd s')))
          else Some (Inr (), backstop env events s)))"

fun process_connections ::
    "('ns, 'kv) env \<Rightarrow> poll_event list \<Rightarrow> peer_stats list \<Rightarrow> 'ns connections \<Rightarrow> ('ns, 'kv) p2p_node \<Rightarrow>
     (unit result \<times> 'ns connections \<times> ('ns, 'kv) p2p_node) option" where
  "process_connections env events stats [] n = Some (Inr (), [], n)"
| "process_connections env events stats ((t, c) # cs) n =
     (case process_connection env events stats (c, n) of
        None \<Rightarrow> None
      | Some (Inl e, c', n') \<Rightarrow> Some (Inl e, (t, c') # cs, n')
      | Some (Inr _, c', n') \<Rightarrow>
          (case process_connections env events stats cs n' of
             None \<Rightarrow> None
           | Some (r, cs', n'') \<Rightarrow> Some (r, (t, c') # cs', n'')))"

definition process_network_events ::
    "('ns, 'kv) env \<Rightarrow> poll_event list \<Rightarrow> ('ns, 'kv) p2p_node \<Rightarrow>
     (unit result \<times> ('ns, 'kv) p2p_node) option" where
  "process_network_events env events n =
     (case get_peer_stats (Some Node) n of
        Inl e \<Rightarrow> Some (Inl e, n)
      | Inr stats \<Rightarrow>
          (case process_connections env events stats (conn_candidates n) n of
             None \<Rightarrow> None
           | Some (Inl e, cs, n1) \<Rightarrow> Some (Inl e, n1\<lparr>conn_candidates := cs\<rparr>)
           | Some (Inr _, cs, n1) \<Rightarrow>
               (case process_connections env events stats (connections n) (n1\<lparr>conn_candidates := cs\<rparr>) of
                  None \<Rightarrow> None
                | Some (r, cs', n2) \<Rightarrow> Some (r, n2\<lparr>connections := cs'\<rparr>))))"

section \<open>New connections\<close>

datatype accept_failure =
    TooManyConnections socket_addr
  | AlreadyConnectedToIP ip_addr
  | DuplicateConnection socket_addr
  | Banned
  | SoftBanned
  | Other rust_error

definition unwrap_or :: "'a \<Rightarrow> 'a result \<Rightarrow> 'a" where
  "unwrap_or d r = (case r of Inl _ \<Rightarrow> d | Inr x \<Rightarrow> x)"

fun accept_conflict :: "bool \<Rightarrow> socket_addr \<Rightarrow> 'ns connection list \<Rightarrow> accept_failure option" where
  "accept_conflict one_per_ip a [] = None"
| "accept_conflict one_per_ip a (c # cs) =
     (if sa_ip (remote_addr c) = sa_ip a then
        (if one_per_ip then Some (AlreadyConnectedToIP (sa_ip a))
         else if sa_port (remote_addr c) = sa_port a \<or> external_port (c_remote_peer c) = sa_port a
         then Some (DuplicateConnection a)
         else accept_conflict one_per_ip a cs)
      else accept_conflict one_per_ip a cs)"

definition accept ::
    "('ns, 'kv) env \<Rightarrow> socket \<Rightarrow> socket_addr \<Rightarrow> ('ns, 'kv) p2p_node \<Rightarrow>
     (accept_failure + token) \<times> ('ns, 'kv) p2p_node" where
  "accept env sock a n0 =
     (let n = log_metrics [Metric_inc Connections_received] n0 in
      if unwrap_or False (is_banned env (Persisted_ip (sa_ip a)) n) then (Inl Banned, n)
      else if node_type n = Node \<and>
        length (conn_candidates n) + length (connections n) \<ge> unat (nc_hard_connection_limit (n_config n))
      then (Inl (TooManyConnections a), n)
      else (case accept_conflict (nc_disallow_multiple_peers_on_ip (n_config n)) a
                   (hm_values (conn_candidates n) @ hm_values (connections n)) of
          Some f \<Rightarrow> (Inl f, n)
        | None \<Rightarrow>
            if is_soft_banned a n then (Inl SoftBanned, n)
            else (let tok = Token (next_token n);
                      n1 = n\<lparr>next_token := next_token n + 1\<rparr>;
                      rp = \<lparr>self_id = None, addr = a, local_id = remote_peer_id_from_token tok,
                            external_port = sa_port a, peer_type = Node\<rparr> in
                  case connection_new env n1 sock tok rp False of
                    Inl e \<Rightarrow> (Inl (Other e), n1)
                  | Inr c \<Rightarrow> (Inr tok, n1\<lparr>conn_candidates := hm_insert (conn_token c) c (conn_candidates n1)\<rparr>))))"

fun connect_conflict :: "bool \<Rightarrow> socket_addr \<Rightarrow> 'ns connection list \<Rightarrow> rust_error option" where
  "connect_conflict one_per_ip a [] = None"
| "connect_conflict one_per_ip a (c # cs) =
     (if one_per_ip then
        (if sa_ip (remote_addr c) = sa_ip a then Some (Bail ''Already connected to IP'')
         else connect_conflict one_per_ip a cs)
      else if remote_addr c = a \<or> external_addr (c_remote_peer c) = a
      then Some (Bail ''Already connected'')
      else connect_conflict one_per_ip a cs)"

definition soft_ban ::
    "('ns, 'kv) env \<Rightarrow> ban_id \<Rightarrow> u64 \<Rightarrow> ('ns, 'kv) p2p_node \<Rightarrow> ('ns, 'kv) p2p_node" where
  "soft_ban env b secs n =
     log_metrics [Metric_inc Soft_banned_peers, Metric_inc Soft_banned_peers_total]
       (n\<lparr>soft_bans := hm_insert b (e_instant env + unat secs * 1000) (soft_bans n)\<rparr>)"

definition max_peers_reached ::
    "peer_type \<Rightarrow> bool \<Rightarrow> ('ns, 'kv) p2p_node \<Rightarrow> bool result" where
  "max_peers_reached pt respect_max_peers n =
     (if respect_max_peers \<and> pt = Node
      then (case get_peer_stats (Some Node) n of
              Inl e \<Rightarrow> Inl e
            | Inr ss \<Rightarrow> Inr ((word_of_nat (length ss) :: u16) \<ge> nc_max_allowed_nodes (n_config n)))
      else Inr False)"

definition connect ::
    "('ns, 'kv) env \<Rightarrow> peer_type \<Rightarrow> socket_addr \<Rightarrow> p2p_node_id option \<Rightarrow> bool \<Rightarrow> ('ns, 'kv) p2p_node \<Rightarrow>
     unit result \<times> ('ns, 'kv) p2p_node" where
  "connect env pt a peer_id respect_max_peers n =
     (case max_peers_reached pt respect_max_peers n of
        Inl e \<Rightarrow> (Inl e, n)
      | Inr True \<Rightarrow> (Inl (Bail ''Maximum number of peers reached''), n)
      | Inr False \<Rightarrow>
          if pp_addr (self_peer n) = a then (Inl (Bail ''Attempted to connect to myself''), n)
          else if unwrap_or False (is_banned env (Persisted_ip (sa_ip a)) n)
          then (Inl (Bail ''Refusing to connect to a banned IP''), n)
          else if is_soft_banned a n then (Inl (Bail ''Refusing to connect to a soft-banned IP''), n)
          else (case connect_conflict (nc_disallow_multiple_peers_on_ip (n_config n)) a
                       (hm_values (connections n) @ hm_values (conn_candidates n)) of
              Some e \<Rightarrow> (Inl e, n)
            | None \<Rightarrow>
                (case e_dial env a of
                   Inl e \<Rightarrow>
                     (Inl e, if pt = Node then soft_ban env (Ban_socket a) UNREACHABLE_EXPIRATION_SECS n else n)
                 | Inr sock \<Rightarrow>
                     (let n1 = log_metrics [Metric_inc Connections_received] n;
                          tok = Token (next_token n1);
                          n2 = n1\<lparr>next_token := next_token n1 + 1\<rparr>;
                          rp = \<lparr>self_id = None, addr = a, local_id = remote_peer_id_from_token tok,
                                external_port = sa_port a, peer_type = pt\<rparr> in
                      case connection_new env n2 sock tok rp True of
                        Inl e \<Rightarrow> (Inl e, n2)
                      | Inr c \<Rightarrow>
                          (case send_handshake_message_a (e_noise env) (c_low_level c) of
                             (Inl e, ll) \<Rightarrow> (Inl e, n2)
                           | (Inr _, ll) \<Rightarrow>
                               (Inr (), n2\<lparr>conn_candidates :=
                                  hm_insert (conn_token c) (c\<lparr>c_low_level := ll\<rparr>) (conn_candidates n2)\<rparr>)))))) "

text \<open>Connecting to several addresses, logging the failures.\<close>

fun connect_each ::
    "('ns, 'kv) env \<Rightarrow> bool \<Rightarrow> socket_addr list \<Rightarrow> ('ns, 'kv) p2p_node \<Rightarrow> unit result \<times> ('ns, 'kv) p2p_node" where
  "connect_each env respect_max [] n = (Inr (), n)"
| "connect_each env respect_max (a # as) n =
     bind_res (log_error (connect env Node a None respect_max n)) (\<lambda>_ n'. connect_each env respect_max as n')"

fun connect_stored ::
    "('ns, 'kv) env \<Rightarrow> bytes result list \<Rightarrow> ('ns, 'kv) p2p_node \<Rightarrow> unit result \<times> ('ns, 'kv) p2p_node" where
  "connect_stored env [] n = (Inr (), n)"
| "connect_stored env (Inl e # es) n = (Inl e, n)"
| "connect_stored env (Inr bs # es) n =
     (case e_addr_from_json env bs of
        Inl e \<Rightarrow> (Inl e, n)
      | Inr a \<Rightarrow> bind_res (log_error (connect env Node a None True n)) (\<lambda>_ n'. connect_stored env es n'))"

definition connect_to_stored_nodes ::
    "('ns, 'kv) env \<Rightarrow> ('ns, 'kv) p2p_node \<Rightarrow> unit result \<times> ('ns, 'kv) p2p_node" where
  "connect_to_stored_nodes env n =
     (if \<not> e_kvs_lock env then (Inl (Bail ''could not read previously connected peers''), n)
      else (case e_kv_open env PEERS_STORE_NAME (n_kvs n) of
              Inl e \<Rightarrow> (Inl e, n)
            | Inr _ \<Rightarrow>
                (case e_kv_iter env PEERS_STORE_NAME (n_kvs n) of
                   Inl e \<Rightarrow> (Inl e, n)
                 | Inr es \<Rightarrow> connect_stored env es n)))"

section \<open>Bootstrapping\<close>

definition get_bootstrap_nodes :: "('ns, 'kv) env \<Rightarrow> string list \<Rightarrow> socket_addr list result" where
  "get_bootstrap_nodes env ns =
     (if ns \<noteq> [] then Inr (concat (map (\<lambda>s. case e_resolve env s of Inl e \<Rightarrow> [] | Inr as \<Rightarrow> as) ns))
      else Inl (Bail ''No bootstrap nodes specified.''))"

definition attempt_bootstrap :: "('ns, 'kv) env \<Rightarrow> ('ns, 'kv) p2p_node \<Rightarrow> ('ns, 'kv) p2p_node" where
  "attempt_bootstrap env n =
     (if nc_no_net (n_config n) then n
      else (case get_bootstrap_nodes env (nc_bootstrap_nodes (n_config n)) of
              Inl e \<Rightarrow> n
            | Inr as \<Rightarrow> fold (\<lambda>a. register_conn_change env (NewConn a Bootstrapper False)) as n))"

definition check_peers ::
    "('ns, 'kv) env \<Rightarrow> peer_stats list \<Rightarrow> bool \<Rightarrow> ('ns, 'kv) p2p_node \<Rightarrow> ('ns, 'kv) p2p_node" where
  "check_peers env stats attempted_bootstrap n =
     (if node_type n = Node then
        (let node_count = length (filter (\<lambda>s. ps_peer_type s = Node) stats) in
         if \<not> nc_no_net (n_config n) \<and> node_count < unat (nc_desired_nodes_count (n_config n)) then
           (if stats = [] then
              (if \<not> attempted_bootstrap \<and> \<not> nc_no_bootstrap_dns (n_config n)
               then attempt_bootstrap env n else n)
            else send_get_peers env n)
         else n)
      else n)"

section \<open>Housekeeping\<close>

definition is_conn_faulty :: "('ns, 'kv) p2p_node \<Rightarrow> 'ns connection \<Rightarrow> bool" where
  "is_conn_faulty n c = (case nc_max_latency (n_config n) of
     Some max_latency \<Rightarrow> get_latency (c_stats c) \<ge> max_latency | None \<Rightarrow> False)"

definition is_conn_inactive :: "u64 \<Rightarrow> ('ns, 'kv) p2p_node \<Rightarrow> 'ns connection \<Rightarrow> bool" where
  "is_conn_inactive now n c \<longleftrightarrow>
     (node_type n = Node \<and> last_seen c + nc_max_normal_keep_alive_ms (n_config n) < now) \<or>
     (node_type n = Bootstrapper \<and> cs_created (c_stats c) + MAX_BOOTSTRAPPER_KEEP_ALIVE < now)"

definition is_conn_without_handshake :: "u64 \<Rightarrow> 'ns connection \<Rightarrow> bool" where
  "is_conn_without_handshake now c \<longleftrightarrow> cs_created (c_stats c) + MAX_PREHANDSHAKE_KEEP_ALIVE < now"

definition remove_inactive :: "('ns, 'kv) env \<Rightarrow> ('ns, 'kv) p2p_node \<Rightarrow> ('ns, 'kv) p2p_node" where
  "remove_inactive env n =
     (let n1 = retain_candidates (\<lambda>c. \<not> is_conn_without_handshake (e_now env) c) n;
          bad = (\<lambda>c. is_conn_faulty n1 c \<or> is_conn_inactive (e_now env) n1 c);
          n2 = retain_connections (\<lambda>c. \<not> bad c) n1 in
      if \<exists>c \<in> set (hm_values (connections n1)). bad c then bump_last_peer_update env n2 else n2)"

definition drop_excess_peers ::
    "('ns, 'kv) env \<Rightarrow> ('ns, 'kv) p2p_node \<Rightarrow> unit result \<times> ('ns, 'kv) p2p_node" where
  "drop_excess_peers env n =
     (if node_type n = Node then
        (case get_peer_stats (Some Node) n of
           Inl e \<Rightarrow> (Inl e, n)
         | Inr ss \<Rightarrow>
             (let max_allowed_nodes = nc_max_allowed_nodes (n_config n);
                  peer_count = (word_of_nat (length ss) :: u16) in
              if peer_count > max_allowed_nodes then
                (let to_drop = e_choose_tokens env
                       (map fst (filter (\<lambda>(_, c). \<not> is_given_connection c n) (connections n)))
                       (unat (peer_count - max_allowed_nodes)) in
                 (Inr (), snd (remove_connections env to_drop n)))
              else (Inr (), n)))
      else (Inr (), n))"

definition lift_soft_bans :: "('ns, 'kv) env \<Rightarrow> ('ns, 'kv) p2p_node \<Rightarrow> ('ns, 'kv) p2p_node" where
  "lift_soft_bans env n =
     (if soft_bans n \<noteq> [] then
        (let bans = hm_retain (\<lambda>_ expiry. expiry > e_instant env) (soft_bans n) in
         log_metrics [Metric_set Soft_banned_peers (int (length bans))] (n\<lparr>soft_bans := bans\<rparr>))
      else n)"

definition connection_housekeeping ::
    "('ns, 'kv) env \<Rightarrow> ('ns, 'kv) p2p_node \<Rightarrow> bool result \<times> ('ns, 'kv) p2p_node" where
  "connection_housekeeping env n =
     bind_res (drop_excess_peers env (remove_inactive env n)) (\<lambda>_ n1.
       (let n2 = lift_soft_bans env n1 in
        bind_res (connect_each env False (unconnected_given_addresses n2) n2) (\<lambda>_ n3.
          (let n4 = n3\<lparr>n_bad_events := bad_events_default\<rparr> in
           if \<not> nc_no_bootstrap_dns (n_config n4) \<and> node_type n4 = Node \<and>
              e_now env \<ge> last_bootstrap n4 + nc_bootstrapping_interval (n_config n4) * 1000
           then (Inr True, attempt_bootstrap env n4) else (Inr False, n4)))))"

end
