(* ===== verification/Consensus_Bridge.thy ===== *)
theory Consensus_Bridge
  imports Connectivity
begin

text \<open>
  The bridge between the network and the consensus library: the handlers of
  \<open>plugins/consensus.rs\<close>, the calls into the library and its callbacks of \<open>consensus_ffi/ffi.rs\<close>.

  The library is a parameter \<open>consensus_lib\<close> on an abstract state: one function per C function
  that the handlers call, returning the numeric code.  Its callbacks run on its own threads and are
  operations of their own here.
\<close>

section \<open>Calls into the library\<close>

record ('c, 'cb) consensus_lib =
  receiveBlock :: "u32 \<Rightarrow> bytes \<Rightarrow> 'c \<Rightarrow> int \<times> 'cb option \<times> 'c"
  executeBlock :: "'cb \<Rightarrow> 'c \<Rightarrow> int \<times> 'c"
  receiveFinalizationMessage :: "u32 \<Rightarrow> bytes \<Rightarrow> 'c \<Rightarrow> int \<times> 'c"
  receiveFinalizationRecord :: "u32 \<Rightarrow> bytes \<Rightarrow> 'c \<Rightarrow> int \<times> 'c"
  receiveTransaction :: "bytes \<Rightarrow> 'c \<Rightarrow> int \<times> bytes \<times> 'c"
  receiveCatchUpStatus :: "u64 \<Rightarrow> u32 \<Rightarrow> bytes \<Rightarrow> int \<Rightarrow> 'c \<Rightarrow> int \<times> 'c"
  getCatchUpStatus :: "'c \<Rightarrow> u32 \<times> bytes"

definition ffi_code :: "int \<Rightarrow> ffi_response result" where
  "ffi_code code = (case ffi_response_try_from code of
     Inl c \<Rightarrow> Inl (Panic ''Unknown FFI return code'') | Inr r \<Rightarrow> Inr r)"

definition receive_block ::
    "('c, 'cb) consensus_lib \<Rightarrow> u32 \<Rightarrow> bytes \<Rightarrow> 'c \<Rightarrow> (ffi_response \<times> 'cb option) result \<times> 'c" where
  "receive_block lib g block st =
     (let (code, callback, st') = receiveBlock lib g block st in
      (case ffi_code code of Inl e \<Rightarrow> Inl e | Inr r \<Rightarrow> Inr (r, callback), st'))"

definition execute_block :: "('c, 'cb) consensus_lib \<Rightarrow> 'cb \<Rightarrow> 'c \<Rightarrow> ffi_response result \<times> 'c" where
  "execute_block lib cb st = apfst ffi_code (executeBlock lib cb st)"

definition send_finalization ::
    "('c, 'cb) consensus_lib \<Rightarrow> u32 \<Rightarrow> bytes \<Rightarrow> 'c \<Rightarrow> ffi_response result \<times> 'c" where
  "send_finalization lib g msg st = apfst ffi_code (receiveFinalizationMessage lib g msg st)"

definition send_finalization_record ::
    "('c, 'cb) consensus_lib \<Rightarrow> u32 \<Rightarrow> bytes \<Rightarrow> 'c \<Rightarrow> ffi_response result \<times> 'c" where
  "send_finalization_record lib g rec st = apfst ffi_code (receiveFinalizationRecord lib g rec st)"

definition send_transaction ::
    "('c, 'cb) consensus_lib \<Rightarrow> bytes \<Rightarrow> 'c \<Rightarrow> (bytes option \<times> ffi_response) result \<times> 'c" where
  "send_transaction lib data st =
     (let (code, out_hash, st') = receiveTransaction lib data st in
      (case ffi_code code of
         Inl e \<Rightarrow> Inl e
       | Inr r \<Rightarrow> Inr (if r = Success then Some out_hash else None, r), st'))"

definition receive_catch_up_status ::
    "('c, 'cb) consensus_lib \<Rightarrow> u32 \<Rightarrow> bytes \<Rightarrow> remote_peer_id \<Rightarrow> int \<Rightarrow> 'c \<Rightarrow> ffi_response result \<times> 'c" where
  "receive_catch_up_status lib g request p object_limit st =
     apfst ffi_code (receiveCatchUpStatus lib (remote_peer_id_val p) g request object_limit st)"

definition get_catch_up_status :: "('c, 'cb) consensus_lib \<Rightarrow> 'c \<Rightarrow> bytes" where
  "get_catch_up_status lib st =
     (let (g, bs) = getCatchUpStatus lib st in [packet_type_tag CatchUpStatus] @ u32_to_be_bytes g @ bs)"

section \<open>Callbacks\<close>

datatype callback_type =
  Callback_block | Callback_finalization_message | Callback_finalization_record | Callback_catch_up_status

definition callback_type_try_from :: "u8 \<Rightarrow> callback_type result" where
  "callback_type_try_from b =
     (if b = 0 then Inr Callback_block
      else if b = 1 then Inr Callback_finalization_message
      else if b = 2 then Inr Callback_finalization_record
      else if b = 3 then Inr Callback_catch_up_status
      else Inl (Bail ''Received invalid callback type''))"

primrec callback_packet_type :: "callback_type \<Rightarrow> packet_type" where
  "callback_packet_type Callback_block = Block"
| "callback_packet_type Callback_finalization_message = FinalizationMessage"
| "callback_packet_type Callback_finalization_record = FinalizationRecord"
| "callback_packet_type Callback_catch_up_status = CatchUpStatus"

definition callback_message ::
    "('ns, 'kv) env \<Rightarrow> remote_peer_id option \<Rightarrow> packet_type \<Rightarrow> u32 \<Rightarrow> bytes \<Rightarrow> peer_status option \<Rightarrow> cmsg" where
  "callback_message env target ty g msg omit =
     consensus_message_new (Outbound target) ty
       (e_u8_serial env (packet_type_tag ty) @ e_u32_serial env g @ msg) [] omit"

text \<open>\<open>None\<close> is a send that blocks; an invalid type is logged and nothing is sent.\<close>

definition sending_callback ::
    "('ns, 'kv) env \<Rightarrow> remote_peer_id option \<Rightarrow> int \<Rightarrow> u32 \<Rightarrow> bytes \<Rightarrow> peer_status option \<Rightarrow>
     consensus_queues \<Rightarrow> consensus_queues option" where
  "sending_callback env target msg_type g msg omit q =
     (case callback_type_try_from (word_of_int msg_type) of
        Inl e \<Rightarrow> Some q
      | Inr ct \<Rightarrow>
          snd (send_out_blocking_msg (e_cmsgs env) (callback_message env target (callback_packet_type ct) g msg omit) q))"

definition broadcast_callback ::
    "('ns, 'kv) env \<Rightarrow> int \<Rightarrow> u32 \<Rightarrow> bytes \<Rightarrow> consensus_queues \<Rightarrow> consensus_queues option" where
  "broadcast_callback env msg_type g msg q = sending_callback env None msg_type g msg None q"

definition direct_callback ::
    "('ns, 'kv) env \<Rightarrow> u64 \<Rightarrow> int \<Rightarrow> u32 \<Rightarrow> bytes \<Rightarrow> consensus_queues \<Rightarrow> consensus_queues option" where
  "direct_callback env p msg_type g msg q = sending_callback env (Some (RemotePeerId p)) msg_type g msg None q"

definition catchup_status_callback ::
    "('ns, 'kv) env \<Rightarrow> u32 \<Rightarrow> bytes \<Rightarrow> consensus_queues \<Rightarrow> consensus_queues option" where
  "catchup_status_callback env g msg q = sending_callback env None 3 g msg (Some Pending) q"

definition regenesis_callback :: "block_hash option \<Rightarrow> regenesis \<Rightarrow> regenesis" where
  "regenesis_callback hash rg = (case hash of
     None \<Rightarrow> rg\<lparr>rg_stop_network := True\<rparr>
   | Some h \<Rightarrow> rg\<lparr>rg_blocks := rg_blocks rg @ [h], rg_trigger_catchup := True\<rparr>)"

section \<open>Messages from consensus to the network\<close>

definition send_consensus_msg_to_net ::
    "('ns, 'kv) env \<Rightarrow> remote_peer_id list \<Rightarrow> remote_peer_id option \<Rightarrow> bytes \<Rightarrow> ('ns, 'kv) p2p_node \<Rightarrow>
     unit result \<times> ('ns, 'kv) p2p_node" where
  "send_consensus_msg_to_net env dont_relay_to target_id pl n =
     (let net = nc_default_network (n_config n);
          (r, n') = (case target_id of
              Some t \<Rightarrow> send_direct_message env t net pl n
            | None \<Rightarrow> send_broadcast_message env dont_relay_to net pl n) in
      (case r of Inl e \<Rightarrow> Inl e | Inr _ \<Rightarrow> Inr (), n'))"

fun send_to_peers ::
    "('ns, 'kv) env \<Rightarrow> bytes \<Rightarrow> remote_peer_id list \<Rightarrow> ('ns, 'kv) p2p_node \<Rightarrow> unit result \<times> ('ns, 'kv) p2p_node" where
  "send_to_peers env pl [] n = (Inr (), n)"
| "send_to_peers env pl (p # ps) n =
     bind_res (send_consensus_msg_to_net env [] (Some p) pl n) (\<lambda>_ n'. send_to_peers env pl ps n')"

definition handle_consensus_outbound_msg ::
    "('ns, 'kv) env \<Rightarrow> cmsg \<Rightarrow> ('ns, 'kv) p2p_node \<Rightarrow> unit result \<times> ('ns, 'kv) p2p_node" where
  "handle_consensus_outbound_msg env msg n0 =
     (let n = log_metrics [Metric_inc (Sent_consensus_messages (packet_type_label (variant msg)))] n0 in
      case omit_status msg of
        Some status \<Rightarrow>
          send_to_peers env (payload msg)
            (map fst (filter (\<lambda>(_, state). state \<noteq> status) (peer_states (n_peers n)))) n
      | None \<Rightarrow>
          (case target_peer msg of
             Inl e \<Rightarrow> (Inl e, n)
           | Inr t \<Rightarrow> send_consensus_msg_to_net env (msg_dont_relay_to msg) t (payload msg) n))"

section \<open>Messages from the network to consensus\<close>

text \<open>\<open>u32::deserial(&payload[..4])\<close>, then \<open>&payload[4..]\<close>\<close>

definition genesis_index_of :: "('ns, 'kv) env \<Rightarrow> bytes \<Rightarrow> (u32 \<times> bytes) result" where
  "genesis_index_of env pl =
     (if length pl < 4 then Inl (Panic ''range end index 4 out of range'')
      else (case e_u32_deserial env (take 4 pl) of Inl e \<Rightarrow> Inl e | Inr g \<Rightarrow> Inr (g, drop 4 pl)))"

text \<open>The call into the library for a message of each type.\<close>

definition deliver ::
    "('ns, 'kv) env \<Rightarrow> ('c, 'cb) consensus_lib \<Rightarrow> remote_peer_id \<Rightarrow> int \<Rightarrow> packet_type \<Rightarrow> bytes \<Rightarrow> 'c \<Rightarrow>
     (ffi_response \<times> 'cb option) result \<times> 'c" where
  "deliver env lib src limit ty pl st =
     (if ty = Transaction
      then (let (r, st') = send_transaction lib pl st in
            (case r of Inl e \<Rightarrow> Inl e | Inr (_, resp) \<Rightarrow> Inr (resp, None), st'))
      else (case genesis_index_of env pl of
          Inl e \<Rightarrow> (Inl e, st)
        | Inr (g, body) \<Rightarrow>
            if ty = Block then receive_block lib g body st
            else (let (r, st') =
                    (if ty = FinalizationMessage then send_finalization lib g body st
                     else if ty = FinalizationRecord then send_finalization_record lib g body st
                     else receive_catch_up_status lib g body src limit st) in
                  (case r of Inl e \<Rightarrow> Inl e | Inr resp \<Rightarrow> Inr (resp, None), st'))))"

definition send_msg_to_consensus ::
    "('ns, 'kv) env \<Rightarrow> ('c, 'cb) consensus_lib \<Rightarrow> remote_peer_id \<Rightarrow> cmsg \<Rightarrow> ('ns, 'kv) p2p_node \<times> 'c \<Rightarrow>
     (ffi_response \<times> 'cb option) result \<times> ('ns, 'kv) p2p_node \<times> 'c" where
  "send_msg_to_consensus env lib src msg = (\<lambda>(n, st).
     (if payload msg = [] then (Inl (Panic ''range start index 1 out of range''), n, st)
      else (let (r, st') = deliver env lib src (nc_catch_up_batch_limit (n_config n)) (variant msg)
                  (drop 1 (payload msg)) st in
            case r of
              Inl e \<Rightarrow> (Inl e, n, st')
            | Inr (resp, cb) \<Rightarrow>
                (Inr (resp, cb),
                 if is_acceptable resp then n
                 else n\<lparr>n_bad_events := snd (inc_invalid_messages src (n_bad_events n))\<rparr>, st'))))"

definition update_peer_states ::
    "('ns, 'kv) env \<Rightarrow> cmsg \<Rightarrow> remote_peer_id \<Rightarrow> ffi_response \<Rightarrow> ('ns, 'kv) p2p_node \<Rightarrow>
     unit result \<times> ('ns, 'kv) p2p_node" where
  "update_peer_states env request source res n =
     (let n1 = n\<lparr>n_peers := peers_feedback (variant request) (distribution_mode_of request) res source (n_peers n)\<rparr> in
      if variant request = CatchUpStatus then
        (if res = InvalidResult \<or> res = DeserializationError
         then (Inr (), register_conn_change env (ExpulsionByToken (to_token source)) n1) else (Inr (), n1))
      else if variant request \<in> {Block, FinalizationRecord, FinalizationMessage} then
        (if distribution_mode_of request = Direct_mode \<and> is_successful res
         then send_to_peers env (payload request)
                (map fst (filter (\<lambda>(p, state). p \<noteq> source \<and> state \<noteq> Pending) (peer_states (n_peers n1)))) n1
         else (Inr (), n1))
      else (Inr (), n1))"

definition drop_rebroadcast :: "('ns, 'kv) env \<Rightarrow> ('ns, 'kv) p2p_node \<Rightarrow> bool result" where
  "drop_rebroadcast env n = (case nc_drop_rebroadcast_probability (n_config n) of
     Some probability \<Rightarrow> e_bernoulli env probability | None \<Rightarrow> Inr False)"

definition rebroadcast ::
    "('ns, 'kv) env \<Rightarrow> bool \<Rightarrow> cmsg \<Rightarrow> ffi_response \<Rightarrow> ('ns, 'kv) p2p_node \<Rightarrow> unit result \<times> ('ns, 'kv) p2p_node" where
  "rebroadcast env drop_message request res n =
     (if \<not> drop_message \<and> distribution_mode_of request = Broadcast_mode \<and>
        packet_type_is_rebroadcastable (variant request) \<and> is_rebroadcastable res (variant request)
      then send_consensus_msg_to_net env (msg_dont_relay_to request) None (payload request) n
      else (Inr (), n))"

definition handle_consensus_inbound_msg ::
    "('ns, 'kv) env \<Rightarrow> ('c, 'cb) consensus_lib \<Rightarrow> cmsg \<Rightarrow> ('ns, 'kv) p2p_node \<times> 'c \<Rightarrow>
     unit result \<times> ('ns, 'kv) p2p_node \<times> 'c" where
  "handle_consensus_inbound_msg env lib request = (\<lambda>(n, st).
     (case drop_rebroadcast env n of
        Inl e \<Rightarrow> (Inl e, n, st)
      | Inr drop_message \<Rightarrow>
          (case source_peer request of
             Inl e \<Rightarrow> (Inl e, n, st)
           | Inr source \<Rightarrow>
               (case send_msg_to_consensus env lib source request (n, st) of
                  (Inl e, n1, st1) \<Rightarrow> (Inl e, n1, st1)
                | (Inr (res, finalizer), n1, st1) \<Rightarrow>
                    (case update_peer_states env request source res n1 of
                       (Inl e, n2) \<Rightarrow> (Inl e, n2, st1)
                     | (Inr _, n2) \<Rightarrow>
                         (case rebroadcast env drop_message request res
                                 (log_metrics [Metric_inc (Received_consensus_messages
                                    (packet_type_label (variant request)) (ffi_response_label res))] n2) of
                            (Inl e, n3) \<Rightarrow> (Inl e, n3, st1)
                          | (Inr _, n3) \<Rightarrow>
                              (case finalizer of
                                 None \<Rightarrow> (Inr (), n3, st1)
                               | Some callback \<Rightarrow>
                                   (let (r, st2) = execute_block lib callback st1 in
                                    (case r of Inl e \<Rightarrow> Inl e | Inr _ \<Rightarrow> Inr (), n3, st2))))))))) "

section \<open>The catch-up list\<close>

definition update_peer_list :: "('ns, 'kv) p2p_node \<Rightarrow> unit result \<times> ('ns, 'kv) p2p_node" where
  "update_peer_list n = (case get_node_peer_tokens n of
     Inl e \<Rightarrow> (Inl e, n)
   | Inr ids \<Rightarrow> (let (r, pl) = peers_refresh ids (n_peers n) in (r, n\<lparr>n_peers := pl\<rparr>)))"

definition try_catch_up ::
    "('ns, 'kv) env \<Rightarrow> bytes \<Rightarrow> ('ns, 'kv) p2p_node \<Rightarrow> unit result \<times> ('ns, 'kv) p2p_node" where
  "try_catch_up env status n = (case next_pending (n_peers n) of
     (None, pl) \<Rightarrow> (Inr (), n\<lparr>n_peers := pl\<rparr>)
   | (Some p, pl) \<Rightarrow>
       bind_res (send_direct_message env p (nc_default_network (n_config n)) status
                   (n\<lparr>n_peers := pl\<lparr>catch_up_stamp := e_now env\<rparr>\<rparr>)) (\<lambda>sent n1.
         (Inr (), if sent > 0 then n1
                  else n1\<lparr>n_peers := (n_peers n1)
                         \<lparr>catch_up_peer := None, peer_states := hm_remove p (peer_states (n_peers n1))\<rparr>\<rparr>)))"

definition check_peer_states ::
    "('ns, 'kv) env \<Rightarrow> bytes \<Rightarrow> ('ns, 'kv) p2p_node \<Rightarrow> unit result \<times> ('ns, 'kv) p2p_node" where
  "check_peer_states env status n0 =
     (let n = (if rg_trigger_catchup (n_regenesis n0)
               then n0\<lparr>n_regenesis := (n_regenesis n0)\<lparr>rg_trigger_catchup := False\<rparr>,
                       n_peers := mark_all_pending (n_peers n0)\<rparr>
               else n0) in
      case catch_up_peer (n_peers n) of
        Some p \<Rightarrow>
          if hm_get (connections n) (to_token p) \<noteq> None then
            (if e_now env > catch_up_stamp (n_peers n) + MAX_CATCH_UP_TIME
             then (Inr (), register_conn_change env (RemovalByToken (to_token p)) n) else (Inr (), n))
          else
            try_catch_up env status (n\<lparr>n_peers := (n_peers n)
              \<lparr>catch_up_peer := None, peer_states := hm_remove p (peer_states (n_peers n))\<rparr>\<rparr>)
      | None \<Rightarrow> try_catch_up env status n)"

end
