(* ===== verification/Maintenance.thy ===== *)
theory Maintenance
  imports Consensus_Bridge
begin

text \<open>
  The rest of \<open>p2p/maintenance.rs\<close>: creating a node, the poll thread and the changes of connections
  that it carries out.

  \<^item> An iteration of the poll loop gets its input from outside as a \<open>poll_input\<close>: the events, what
    the listening socket offers, and one environment for every call it makes.
  \<^item> \<open>startup\<close> holds the answers of the operating system and of the packages while a node is created;
    parsing an IP address is the argument \<open>parse_ip\<close>.
\<close>

section \<open>Creating a node\<close>

definition get_ip_if_suitable :: "ip_addr \<Rightarrow> ip_addr option" where
  "get_ip_if_suitable i = (case i of
     V4 x \<Rightarrow>
       (let is_loopback = drop_bit 24 x = 127;
            is_link_local = drop_bit 16 x = 169 * 256 + 254;
            is_multicast = 224 \<le> drop_bit 24 x \<and> drop_bit 24 x \<le> 239;
            is_broadcast = x = - 1 in
        if \<not> is_loopback \<and> \<not> is_link_local \<and> \<not> is_multicast \<and> \<not> is_broadcast then Some (V4 x) else None)
   | V6 _ \<Rightarrow> None)"

definition LOCALHOST :: ip_addr where
  "LOCALHOST = V4 0x7F000001"

definition get_ip :: "ip_addr list result \<Rightarrow> ip_addr option" where
  "get_ip interfaces =
     (let ip = (case interfaces of
            Inl e \<Rightarrow> LOCALHOST
          | Inr as \<Rightarrow> fold (\<lambda>a ip. case get_ip_if_suitable a of Some b \<Rightarrow> b | None \<Rightarrow> ip) as LOCALHOST) in
      if ip = LOCALHOST then None else Some ip)"

record 'kv startup =
  su_interfaces :: "ip_addr list result"
  su_random_id :: p2p_node_id
  su_seeds :: "nat \<Rightarrow> u64"
  su_poll :: "unit result"
  su_bind :: "socket_addr \<Rightarrow> unit result"
  su_clone :: "unit result"
  su_register :: "unit result"
  su_kvs :: "string \<Rightarrow> 'kv result"

text \<open>The connection handler of a new node, in the node that owns it.\<close>

definition connection_handler_new ::
    "('ns, 'kv) env \<Rightarrow> (nat \<Rightarrow> u64) \<Rightarrow> config \<Rightarrow> p2p_peer \<Rightarrow> node_config \<Rightarrow> socket_addr hset \<Rightarrow> regenesis \<Rightarrow>
     metric_log \<Rightarrow> throughput \<Rightarrow> 'kv \<Rightarrow> ('ns, 'kv) p2p_node" where
  "connection_handler_new env seeds conf sp nc given rg stats tp kvs =
     \<lparr>self_peer = sp, n_config = nc, given_addresses = given, n_regenesis = rg,
      next_token = 1, n_buckets = buckets_default, conn_candidates = [], connections = [],
      conn_changes = chan_bounded (e_changes env) (unat (cc_hard_connection_limit (connection conf))),
      soft_bans = [], n_networks = hs_extend [] (map NetworkId (cm_network_ids (common conf))),
      n_dedup = dedup_queues_new (e_dedup env) seeds (cc_deduplication_hashing_algorithm (connection conf))
        (cc_dedup_size_long (connection conf)) (cc_dedup_size_short (connection conf)),
      last_bootstrap = 0, last_peer_update = 0, total_received = 0, total_sent = 0,
      n_stats = stats, n_throughput = tp, n_kvs = kvs, n_peers = peer_list_default,
      n_bad_events = bad_events_default, callback_queue = consensus_queues_default (e_cmsgs env)\<rparr>"

text \<open>Errors of clearing the stores are logged.\<close>

definition clear_on_start :: "('ns, 'kv) env \<Rightarrow> ('ns, 'kv) p2p_node \<Rightarrow> ('ns, 'kv) p2p_node" where
  "clear_on_start env n =
     (let n1 = (if nc_clear_bans (n_config n) then snd (clear_bans env n) else n) in
      if nc_clear_persisted_peers (n_config n) then snd (clear_persisted_peers env n1) else n1)"

definition p2p_node_new ::
    "('ns, 'kv) env \<Rightarrow> 'kv startup \<Rightarrow> (string \<Rightarrow> ip_addr result) \<Rightarrow> p2p_node_id option \<Rightarrow> config \<Rightarrow> peer_type \<Rightarrow>
     metric_log \<Rightarrow> throughput \<Rightarrow> regenesis \<Rightarrow> ('ns, 'kv) p2p_node result" where
  "p2p_node_new env su parse_ip supplied_id conf pt stats tp rg =
     (let cm = common conf in
      case (case cm_listen_address cm of
              Some addy \<Rightarrow> (case parse_ip addy of Inl e \<Rightarrow> Inl e | Inr i \<Rightarrow> Inr (socket_addr_new i (cm_listen_port cm)))
            | None \<Rightarrow> Inr (socket_addr_new (V4 0) (cm_listen_port cm))) of
        Inl e \<Rightarrow> Inl e
      | Inr listen \<Rightarrow>
     (case (case cm_listen_address cm of
              Some addy \<Rightarrow> parse_ip addy
            | None \<Rightarrow> (case get_ip (su_interfaces su) of
                Some i \<Rightarrow> Inr i | None \<Rightarrow> Inl (Bail ''Could not compute my own ip.''))) of
        Inl e \<Rightarrow> Inl e
      | Inr ip \<Rightarrow>
     (let i = (case supplied_id of Some i \<Rightarrow> i | None \<Rightarrow> su_random_id su) in
      case su_poll su of Inl e \<Rightarrow> Inl e | Inr _ \<Rightarrow>
     (case su_bind su listen of Inl e \<Rightarrow> Inl e | Inr _ \<Rightarrow>
     (case su_clone su of Inl e \<Rightarrow> Inl e | Inr _ \<Rightarrow>
     (case su_register su of Inl e \<Rightarrow> Inl e | Inr _ \<Rightarrow>
     (let own_peer_port = (case cm_external_port cm of Some p \<Rightarrow> p | None \<Rightarrow> cm_listen_port cm);
          sp = \<lparr>pp_id = i, pp_addr = socket_addr_new ip own_peer_port, pp_peer_type = pt\<rparr> in
      case parse_config_nodes (e_resolve env) (cc_connect_to (connection conf)) [] of
        Inl e \<Rightarrow> Inl e
      | Inr given \<Rightarrow>
     (case node_config_of conf pt of
        Inl e \<Rightarrow> Inl e
      | Inr nc \<Rightarrow>
     (case su_kvs su (nc_data_dir_path nc) of
        Inl e \<Rightarrow> Inl e
      | Inr kvs \<Rightarrow>
      Inr (clear_on_start env (connection_handler_new env (su_seeds su) conf sp nc given rg stats tp kvs)))))))))))"

section \<open>Changes of connections\<close>

definition promote ::
    "('ns, 'kv) env \<Rightarrow> token \<Rightarrow> ('ns, 'kv) p2p_node \<Rightarrow> unit result \<times> ('ns, 'kv) p2p_node" where
  "promote env tok n = (case hm_get (conn_candidates n) tok of
     None \<Rightarrow> (Inr (), n)
   | Some c \<Rightarrow>
       (let n1 = n\<lparr>conn_candidates := hm_remove tok (conn_candidates n)\<rparr>;
            a = external_addr (c_remote_peer c) in
        if \<not> is_connected a n1 then
          log_error (persist_peer env a
            (bump_last_peer_update env (n1\<lparr>connections := hm_insert (conn_token c) c (connections n1)\<rparr>)))
        else (Inr (), log_metrics (connection_drop c) n1)))"

fun connect_new_peers ::
    "('ns, 'kv) env \<Rightarrow> nat \<Rightarrow> nat \<Rightarrow> p2p_peer list \<Rightarrow> ('ns, 'kv) p2p_node \<Rightarrow> unit result \<times> ('ns, 'kv) p2p_node" where
  "connect_new_peers env new_peers curr_peer_count [] n = (Inr (), n)"
| "connect_new_peers env new_peers curr_peer_count (p # ps) n =
     (if new_peers + curr_peer_count \<ge> unat (nc_desired_nodes_count (n_config n)) then (Inr (), n)
      else (case connect env Node (pp_addr p) (Some (pp_id p)) True n of
          (Inr _, n') \<Rightarrow> connect_new_peers env (new_peers + 1) curr_peer_count ps n'
        | (Inl (Panic e), n') \<Rightarrow> (Inl (Panic e), n')
        | (Inl _, n') \<Rightarrow> connect_new_peers env new_peers curr_peer_count ps n'))"

fun remove_persisted_peers ::
    "('ns, 'kv) env \<Rightarrow> remote_peer list \<Rightarrow> ('ns, 'kv) p2p_node \<Rightarrow> unit result \<times> ('ns, 'kv) p2p_node" where
  "remove_persisted_peers env [] n = (Inr (), n)"
| "remove_persisted_peers env (p # ps) n =
     bind_res (log_error (remove_persisted_peer env (external_addr p) n)) (\<lambda>_ n'. remove_persisted_peers env ps n')"

definition process_conn_change ::
    "('ns, 'kv) env \<Rightarrow> conn_change \<Rightarrow> ('ns, 'kv) p2p_node \<Rightarrow> unit result \<times> ('ns, 'kv) p2p_node" where
  "process_conn_change env ch n = (case ch of
     NewConn a pt given \<Rightarrow>
       (case connect env pt a None (\<not> given) n of
          (Inl (Panic p), n') \<Rightarrow> (Inl (Panic p), n')
        | (Inl _, n') \<Rightarrow> (Inr (), n')
        | (Inr _, n') \<Rightarrow> (Inr (), if given then n'\<lparr>given_addresses := hs_insert a (given_addresses n')\<rparr> else n'))
   | Promotion tok \<Rightarrow> promote env tok n
   | NewPeers peers \<Rightarrow>
       (case get_peer_stats (Some Node) n of
          Inl e \<Rightarrow> (Inl e, n)
        | Inr current \<Rightarrow> connect_new_peers env 0 (length current) (e_shuffle env peers) n)
   | ExpulsionByToken tok \<Rightarrow>
       (case remove_connection env tok n of
          (None, n') \<Rightarrow> (Inr (), n')
        | (Some (is_conn, rp), n') \<Rightarrow>
            (let n1 = soft_ban env (Ban_ip (sa_ip (addr rp))) SOFT_BAN_DURATION_SECS n' in
             if is_conn then log_error (remove_persisted_peer env (external_addr rp) n1) else (Inr (), n1)))
   | RemovalByToken tok \<Rightarrow>
       (case remove_connection env tok n of
          (None, n') \<Rightarrow> (Inr (), n')
        | (Some (is_conn, rp), n') \<Rightarrow>
            if is_conn then log_error (remove_persisted_peer env (external_addr rp) n') else (Inr (), n'))
   | RemoveAllByTokens toks \<Rightarrow>
       (let ((_, removed), n') = remove_connections env toks n in remove_persisted_peers env removed n'))"

text \<open>\<open>for conn_change in changes.try_iter()\<close>: one environment per change.\<close>

partial_function (option) process_conn_changes ::
    "(nat \<Rightarrow> ('ns, 'kv) env) \<Rightarrow> nat \<Rightarrow> ('ns, 'kv) p2p_node \<Rightarrow> (unit result \<times> ('ns, 'kv) p2p_node) option" where
  "process_conn_changes envs i n =
     (case chan_try_recv (e_changes (envs i)) (conn_changes n) of
        (None, c) \<Rightarrow> Some (Inr (), n\<lparr>conn_changes := c\<rparr>)
      | (Some ch, c) \<Rightarrow>
          (case process_conn_change (envs i) ch (n\<lparr>conn_changes := c\<rparr>) of
             (Inl e, n') \<Rightarrow> Some (Inl e, n')
           | (Inr _, n') \<Rightarrow> process_conn_changes envs (Suc i) n'))"

section \<open>The poll loop\<close>

datatype listen_event = Accepted socket socket_addr | Would_block | Listen_error string

text \<open>The result says whether attempts are left, and how many were handled.  A script that has ended
  offers no more attempts.\<close>

fun accept_loop ::
    "nat \<Rightarrow> nat \<Rightarrow> (listen_event \<times> ('ns, 'kv) env) list \<Rightarrow> ('ns, 'kv) p2p_node \<Rightarrow>
     bool \<times> nat \<times> ('ns, 'kv) p2p_node" where
  "accept_loop max_num_requests attempt_number [] n =
     (\<not> attempt_number < max_num_requests, attempt_number, n)"
| "accept_loop max_num_requests attempt_number ((ev, env) # evs) n =
     (if \<not> attempt_number < max_num_requests then (True, attempt_number, n)
      else (case ev of
          Accepted sock a \<Rightarrow>
            (case accept env sock a n of
               (Inl (TooManyConnections _), n') \<Rightarrow> (True, attempt_number, n')
             | (_, n') \<Rightarrow> accept_loop max_num_requests (attempt_number + 1) evs n')
        | Would_block \<Rightarrow> (False, attempt_number, n)
        | Listen_error e \<Rightarrow> accept_loop max_num_requests (attempt_number + 1) evs n))"

definition SELF_TOKEN :: token where
  "SELF_TOKEN = Token 0"

record poll_state =
  log_time :: nat
  last_buckets_cleaned :: nat
  last_peer_list_update :: u64
  iterations_since_housekeeping :: nat
  unprocessed_attempts :: bool

record ('ns, 'kv) poll_input =
  pi_poll :: "poll_event list result"
  pi_listen :: "(listen_event \<times> ('ns, 'kv) env) list"
  pi_changes :: "nat \<Rightarrow> ('ns, 'kv) env"
  pi_peers :: "('ns, 'kv) env"
  pi_status :: "bytes option"
  pi_sockets :: "('ns, 'kv) env"
  pi_housekeeping :: "('ns, 'kv) env"
  pi_cleanup :: "('ns, 'kv) env"

definition accept_new ::
    "('ns, 'kv) poll_input \<Rightarrow> poll_event list \<Rightarrow> poll_state \<Rightarrow> ('ns, 'kv) p2p_node \<Rightarrow>
     poll_state \<times> ('ns, 'kv) p2p_node" where
  "accept_new inp events ps n =
     (if unprocessed_attempts ps \<or> (\<exists>ev \<in> set events. ev_token ev = SELF_TOKEN) then
        (let (left, _, n') = accept_loop (unat (nc_conn_requests_batch_limit (n_config n))) 0 (pi_listen inp) n in
         (ps\<lparr>unprocessed_attempts := left\<rparr>, n'))
      else (ps, n))"

text \<open>With consensus, \<open>pi_status\<close> is the message of \<open>get_catch_up_status\<close>.\<close>

definition check_catch_up ::
    "('ns, 'kv) poll_input \<Rightarrow> poll_state \<Rightarrow> ('ns, 'kv) p2p_node \<Rightarrow>
     unit result \<times> poll_state \<times> ('ns, 'kv) p2p_node" where
  "check_catch_up inp ps n = (case pi_status inp of
     None \<Rightarrow> (Inr (), ps, n)
   | Some status \<Rightarrow>
       (let new_last_peer_update = last_peer_update n;
            (r, ps', n') =
              (if new_last_peer_update > last_peer_list_update ps
               then (let (r, n') = update_peer_list n in
                     (r, ps\<lparr>last_peer_list_update := new_last_peer_update\<rparr>, n'))
               else (Inr (), ps, n)) in
        case r of
          Inl e \<Rightarrow> (Inl e, ps', n')
        | Inr _ \<Rightarrow> (let (r', n'') = check_peer_states (pi_peers inp) status n' in (r', ps', n''))))"

definition housekeeping ::
    "('ns, 'kv) env \<Rightarrow> ('ns, 'kv) p2p_node \<Rightarrow> unit result \<times> ('ns, 'kv) p2p_node" where
  "housekeeping env n =
     bind_res (connection_housekeeping env n) (\<lambda>attempted_bootstrap n1.
       (let n2 = (if node_type n1 \<noteq> Bootstrapper then measure_connection_latencies env n1 else n1) in
        case get_peer_stats None n2 of
          Inl e \<Rightarrow> (Inl e, n2)
        | Inr stats \<Rightarrow> log_error (measure_throughput env (check_peers env stats attempted_bootstrap n2))))"

definition periodic_housekeeping ::
    "('ns, 'kv) env \<Rightarrow> poll_state \<Rightarrow> ('ns, 'kv) p2p_node \<Rightarrow> unit result \<times> poll_state \<times> ('ns, 'kv) p2p_node" where
  "periodic_housekeeping env ps n =
     (if iterations_since_housekeeping ps \<ge> 10 then
        (if e_instant env - log_time ps \<ge> unat (nc_housekeeping_interval (n_config n)) * 1000
         then (let (r, n') = housekeeping env n in
               (r, ps\<lparr>log_time := e_instant env, iterations_since_housekeeping := 0\<rparr>, n'))
         else (Inr (), ps, n))
      else (Inr (), ps\<lparr>iterations_since_housekeeping := iterations_since_housekeeping ps + 1\<rparr>, n))"

definition periodic_cleanup ::
    "('ns, 'kv) env \<Rightarrow> poll_state \<Rightarrow> ('ns, 'kv) p2p_node \<Rightarrow> unit result \<times> poll_state \<times> ('ns, 'kv) p2p_node" where
  "periodic_cleanup env ps n =
     (if is_bucket_cleanup_enabled n \<and>
         e_instant env - last_buckets_cleaned ps \<ge> unat (nc_bucket_cleanup_interval (n_config n))
      then (let (r, n') = apply_buckets (clean_buckets (e_now env) (nc_timeout_bucket_entry_period (n_config n))) n in
            (r, ps\<lparr>last_buckets_cleaned := e_instant env\<rparr>, n'))
      else (Inr (), ps, n))"

definition poll_iteration ::
    "('ns, 'kv) poll_input \<Rightarrow> poll_state \<times> ('ns, 'kv) p2p_node \<Rightarrow>
     (unit result \<times> poll_state \<times> ('ns, 'kv) p2p_node) option" where
  "poll_iteration inp = (\<lambda>(ps, n).
     (case pi_poll inp of
        Inl e \<Rightarrow> Some (Inr (), ps, n)
      | Inr events \<Rightarrow>
          (let (ps1, n1) = accept_new inp events ps n in
           case process_conn_changes (pi_changes inp) 0 n1 of
             None \<Rightarrow> None
           | Some (Inl e, n2) \<Rightarrow> Some (Inl e, ps1, n2)
           | Some (Inr _, n2) \<Rightarrow>
          (case check_catch_up inp ps1 n2 of
             (Inl e, s) \<Rightarrow> Some (Inl e, s)
           | (Inr _, ps3, n3) \<Rightarrow>
          (case process_network_events (pi_sockets inp) events n3 of
             None \<Rightarrow> None
           | Some (Inl e, n4) \<Rightarrow> Some (Inl e, ps3, n4)
           | Some (Inr _, n4) \<Rightarrow>
               Some (bind_res (periodic_housekeeping (pi_housekeeping inp) ps3 n4)
                 (\<lambda>_ (ps5, n5). periodic_cleanup (pi_cleanup inp) ps5 n5)))))))"

definition close_connections :: "('ns, 'kv) p2p_node \<Rightarrow> ('ns, 'kv) p2p_node" where
  "close_connections n =
     log_metrics (drop_all (hm_values (conn_candidates n)) @ drop_all (hm_values (connections n)))
       (n\<lparr>conn_candidates := [], connections := [], n_peers := peers_clear (n_peers n)\<rparr>)"

text \<open>\<open>poll_loop\<close> runs while there is input; its flag says whether the thread has ended.\<close>

fun poll_loop ::
    "('ns, 'kv) poll_input list \<Rightarrow> poll_state \<times> ('ns, 'kv) p2p_node \<Rightarrow>
     (unit result \<times> bool \<times> poll_state \<times> ('ns, 'kv) p2p_node) option" where
  "poll_loop inps (ps, n) =
     (if is_network_stopped n then Some (Inr (), True, ps, close_connections n)
      else (case inps of
          [] \<Rightarrow> Some (Inr (), False, ps, n)
        | inp # rest \<Rightarrow>
            (case poll_iteration inp (ps, n) of
               None \<Rightarrow> None
             | Some (Inl e, s) \<Rightarrow> Some (Inl e, True, s)
             | Some (Inr _, s) \<Rightarrow> poll_loop rest s)))"

declare poll_loop.simps [simp del]

definition node_close ::
    "('ns, 'kv) env \<Rightarrow> ('ns, 'kv) p2p_node \<Rightarrow> (unit result \<times> ('ns, 'kv) p2p_node) option" where
  "node_close env n = map_option (\<lambda>(r, q). (r, (stop_network n)\<lparr>callback_queue := q\<rparr>))
     (consensus_queues_stop (e_cmsgs env) (callback_queue (stop_network n)))"

end
