(* ===== verification/Low_Level_Safety.thy ===== *)
theory Low_Level_Safety
  imports Read_Progress
begin

text \<open>
  The low-level connection never panics: no slice of the socket buffer is out of range, whatever
  arrives, also after an error.  The noise package is assumed to report errors as values and to
  refuse messages that are too short for the keys and the authentication tags they must contain.
\<close>

section \<open>Results without a panic\<close>

definition no_panic :: "'a result \<Rightarrow> bool" where
  "no_panic r \<longleftrightarrow> (\<forall>p. r \<noteq> Inl (Panic p))"

lemma no_panic_simps [simp]:
  "no_panic (Inr x)" "no_panic (Inl (Bail b))" "no_panic (Inl (Io_error b))" "\<not> no_panic (Inl (Panic p))"
  "no_panic (case r of Inl e \<Rightarrow> Inl e | Inr x \<Rightarrow> Inr (f x)) = no_panic r"
  by (auto simp: no_panic_def split: sum.split)

lemma no_panic_Inl: "no_panic (Inl e :: 'a result) \<Longrightarrow> no_panic (Inl e :: 'b result)"
  by (auto simp: no_panic_def)

lemma no_panic_Inr: "Inr x = r \<Longrightarrow> no_panic r"
  by auto

section \<open>The noise package\<close>

definition noise_safe :: "'ns noise_ops \<Rightarrow> bool" where
  "noise_safe ops \<longleftrightarrow> noise_in_place ops \<and>
     (\<forall>m ns. no_panic (fst (ns_recv_message ops m ns)) \<and> no_panic (fst (ns_send_message ops m ns))) \<and>
     (\<forall>m ns p ns'. ns_recv_message ops m ns = (Inr p, ns') \<longrightarrow>
        ns_MAC_LENGTH ops \<le> length m \<and>
        (ns_get_message_count ops ns = 0 \<and> \<not> ns_is_initiator ops ns \<longrightarrow> ns_DHLEN ops + 16 \<le> length m) \<and>
        (ns_get_message_count ops ns = 1 \<and> ns_is_initiator ops ns \<longrightarrow>
           ns_DHLEN ops * 2 + ns_MAC_LENGTH ops * 2 \<le> length m) \<and>
        (ns_get_message_count ops ns = 2 \<and> \<not> ns_is_initiator ops ns \<longrightarrow>
           ns_DHLEN ops + ns_MAC_LENGTH ops * 2 \<le> length m))"

lemma noise_safe_in_place: "noise_safe ops \<Longrightarrow> noise_in_place ops"
  by (simp add: noise_safe_def)

lemma noise_safe_results:
  assumes "noise_safe ops"
  shows "ns_recv_message ops m ns = (r, ns') \<Longrightarrow> no_panic r"
    and "ns_send_message ops m ns = (r, ns') \<Longrightarrow> no_panic r"
  using assms [unfolded noise_safe_def] by (metis fst_conv)+

lemma noise_safe_lengths:
  assumes "noise_safe ops" "ns_recv_message ops m ns = (Inr p, ns')"
  shows "ns_MAC_LENGTH ops \<le> length m"
    and "ns_get_message_count ops ns = 0 \<Longrightarrow> \<not> ns_is_initiator ops ns \<Longrightarrow> ns_DHLEN ops + 16 \<le> length m"
    and "ns_get_message_count ops ns = 1 \<Longrightarrow> ns_is_initiator ops ns \<Longrightarrow>
      ns_DHLEN ops * 2 + ns_MAC_LENGTH ops * 2 \<le> length m"
    and "ns_get_message_count ops ns = 2 \<Longrightarrow> \<not> ns_is_initiator ops ns \<Longrightarrow>
      ns_DHLEN ops + ns_MAC_LENGTH ops * 2 \<le> length m"
  using assms [unfolded noise_safe_def] by blast+

section \<open>Writing\<close>

text \<open>The buffer holds what is written at once.\<close>

definition ll_room :: "'ns low_level \<Rightarrow> bool" where
  "ll_room ll \<longleftrightarrow> 4096 \<le> length (sb_buf (socket_buffer ll)) \<and> write_size ll \<le> length (sb_buf (socket_buffer ll))"

text \<open>An operation that neither panics nor touches the input.\<close>

definition quiet :: "'a result \<Rightarrow> 'ns low_level \<Rightarrow> 'ns low_level \<Rightarrow> bool" where
  "quiet r ll ll' \<longleftrightarrow> no_panic r \<and> same_input ll ll' \<and> write_size ll' = write_size ll"

lemma quiet_room: "quiet r ll ll' \<Longrightarrow> ll_room ll \<Longrightarrow> ll_room ll'"
  by (simp add: quiet_def same_input_def ll_room_def)

lemma quiet_trans: "quiet r a b \<Longrightarrow> quiet q b c \<Longrightarrow> quiet q a c"
  by (auto simp: quiet_def intro: same_input_trans)

lemma flush_once_quiet:
  assumes "ll_room ll" "flush_socket_once ops ll = (r, ll')"
  shows "quiet r ll ll'"
proof -
  have "no_panic r \<and> write_size ll' = write_size ll"
    using assms by (auto simp: flush_socket_once_def ll_room_def Let_def sock_write_def min_def
        split: if_splits io.splits prod.splits list.splits write_event.splits)
  with flush_once_input [OF assms(2)] show ?thesis by (simp add: quiet_def)
qed

lemma flush_loop_quiet:
  assumes "ll_room ll" "flush_loop ops ll = (r, ll')"
  shows "quiet r ll ll'"
  using assms
proof (induction ops ll arbitrary: r ll' rule: flush_loop.induct)
  case (1 ops ll)
  obtain r1 ll1 where once: "flush_socket_once ops ll = (r1, ll1)" by fastforce
  note q = flush_once_quiet [OF "1.prems"(1) once]
  show ?case
  proof (cases "\<exists>n. output_queue ll \<noteq> [] \<and> r1 = Inr n \<and> n \<noteq> 0")
    case True
    then obtain n where n: "output_queue ll \<noteq> []" "r1 = Inr n" "n \<noteq> 0" by blast
    with "1.prems"(2) once have "flush_loop ops ll1 = (r, ll')"
      by (simp add: flush_loop.simps [of ops ll])
    from "1.IH" [OF n(1) once [symmetric] n(2,3) quiet_room [OF q "1.prems"(1)] this] q
    show ?thesis by (blast intro: quiet_trans)
  next
    case False
    with "1.prems"(2) once q show ?thesis
      by (auto simp: flush_loop.simps [of ops ll] quiet_def split: if_splits sum.splits dest: no_panic_Inl)
  qed
qed

lemma flush_socket_quiet: "ll_room ll \<Longrightarrow> flush_socket ops ll = (r, ll') \<Longrightarrow> quiet r ll ll'"
  by (auto simp: flush_socket_def quiet_def dest: flush_loop_quiet [unfolded quiet_def] split: if_splits)

lemma encrypt_chunk_quiet:
  "noise_safe ops \<Longrightarrow> encrypt_chunk ops chunk ll = (r, ll') \<Longrightarrow> quiet r ll ll'"
  by (auto simp: encrypt_chunk_def quiet_def same_input_def split: prod.splits sum.splits
      dest: noise_safe_results no_panic_Inl)

lemma encrypt_loop_quiet:
  assumes "noise_safe ops" "ll_room ll" "encrypt_loop ops input ll = (r, ll')"
  shows "quiet r ll ll'"
  using assms
proof (induction ops input ll arbitrary: r ll' rule: encrypt_loop.induct)
  case (1 ops input ll)
  obtain r1 ll1 where c: "encrypt_chunk ops (take NOISE_MAX_PAYLOAD_LEN input) ll = (r1, ll1)" by fastforce
  obtain r2 ll2 where f: "flush_socket_once ops ll1 = (r2, ll2)" by fastforce
  note q1 = encrypt_chunk_quiet [OF "1.prems"(1) c]
  note q2 = flush_once_quiet [OF quiet_room [OF q1 "1.prems"(2)] f]
  note room = quiet_room [OF q1 "1.prems"(2)] quiet_room [OF quiet_trans [OF q1 q2] "1.prems"(2)]
  show ?case
  proof (cases "input = []")
    case True
    with "1.prems"(3) show ?thesis by (auto simp: encrypt_loop.simps quiet_def)
  next
    case ne: False
    show ?thesis
    proof (cases r1)
      case (Inl e)
      with "1.prems"(3) ne c q1 show ?thesis
        by (auto simp: encrypt_loop.simps [of ops input] quiet_def dest: no_panic_Inl)
    next
      case (Inr u)
      note IH = "1.IH" [OF ne c [symmetric] Inr]
      consider "length (output_queue ll1) < write_size ll1" | e where "length (output_queue ll1) \<ge> write_size ll1" "r2 = Inl e"
        | v where "length (output_queue ll1) \<ge> write_size ll1" "r2 = Inr v" by (cases r2) force+
      then show ?thesis
      proof cases
        case 1
        with "1.prems"(1,3) ne c Inr IH(2) room q1 show ?thesis
          by (auto simp: encrypt_loop.simps [of ops input] intro: quiet_trans)
      next
        case 2
        with "1.prems"(3) ne c Inr f quiet_trans [OF q1 q2] show ?thesis
          by (auto simp: encrypt_loop.simps [of ops input] quiet_def dest: no_panic_Inl)
      next
        case 3
        with "1.prems"(1,3) ne c Inr f IH(1) room quiet_trans [OF q1 q2] show ?thesis
          by (auto simp: encrypt_loop.simps [of ops input] intro: quiet_trans)
      qed
    qed
  qed
qed

lemma write_to_socket_quiet:
  assumes "noise_safe ops" "ll_room ll" "write_to_socket ops input ll = (r, ll')"
  shows "quiet r ll ll'"
proof -
  let ?ll = "ll\<lparr>output_queue := output_queue ll @ u32_to_be_bytes (word_of_nat (encrypted_len ops (length input)))\<rparr>"
  have "quiet (Inr ()) ll ?ll" by (simp add: quiet_def same_input_def)
  with encrypt_loop_quiet [OF assms(1), of ?ll input r ll'] assms(2,3) quiet_room show ?thesis
    by (auto simp: write_to_socket_def encrypt_and_enqueue_def intro: quiet_trans)
qed

section \<open>The handshake\<close>

lemma send_xx_quiet:
  assumes "noise_safe ops" "ll_room ll" "send_xx_msg ops p pl s ll = (r, ll')"
  shows "quiet r ll ll'"
proof -
  obtain x ns where x: "ns_send_message ops (replicate p 0 @ pl @ replicate s 0) (noise_session ll) = (x, ns)"
    by fastforce
  show ?thesis
  proof (cases x)
    case (Inl e)
    with assms(3) x noise_safe_results(2) [OF assms(1) x] show ?thesis
      by (auto simp: send_xx_msg_def quiet_def same_input_def dest: no_panic_Inl)
  next
    case (Inr msg)
    let ?ll = "ll\<lparr>noise_session := ns, output_queue := output_queue ll @
      u32_to_be_bytes (word_of_nat (p + length pl + s)) @ msg\<rparr>"
    have "quiet (Inr ()) ll ?ll" by (simp add: quiet_def same_input_def)
    with flush_socket_quiet [of ?ll ops r ll'] assms(2,3) x Inr quiet_room show ?thesis
      by (auto simp: send_xx_msg_def intro: quiet_trans)
  qed
qed

text \<open>Receiving a message of the handshake: the slice is in range, and what was received is as long as
  the noise package promises.\<close>

lemma recv_xx_safe:
  assumes "noise_safe ops" "ll_wf ll" "len \<le> sb_remaining (socket_buffer ll)"
    and "recv_xx_msg ops len ll = (r, ll')"
  shows "quiet r ll ll'"
    and "r = Inr u \<Longrightarrow> \<exists>m p ns. length m = len \<and> ns_recv_message ops m (noise_session ll) = (Inr p, ns) \<and>
      sb_slice len (socket_buffer ll') = Inr p \<and> length p = len"
proof -
  let ?sb = "socket_buffer ll"
  have sb: "sb_wf ?sb" using assms(2) by (simp add: ll_wf_def)
  define m where "m = take len (sb_unread ?sb)"
  have m: "sb_slice len ?sb = Inr m" "length m = len"
    using sb_slice_wf(1) [OF sb assms(3)] length_sb_unread [OF sb] assms(3) by (simp_all add: m_def)
  obtain x ns where x: "ns_recv_message ops m (noise_session ll) = (x, ns)" by fastforce
  note np = noise_safe_results(1) [OF assms(1) x]
  show "quiet r ll ll'"
    using assms(4) m x np recv_xx_input [OF noise_safe_in_place [OF assms(1)] assms(4)]
    by (auto simp: recv_xx_msg_def quiet_def split: sum.splits dest: no_panic_Inl)
  show "\<exists>m p ns. length m = len \<and> ns_recv_message ops m (noise_session ll) = (Inr p, ns) \<and>
      sb_slice len (socket_buffer ll') = Inr p \<and> length p = len" if "r = Inr u"
  proof -
    from that assms(4) m x obtain p where p: "x = Inr p"
      "ll' = ll\<lparr>noise_session := ns, socket_buffer := sb_write p ?sb\<rparr>"
      by (auto simp: recv_xx_msg_def split: sum.splits)
    have len: "length p = len"
      using noise_recv_length [OF noise_safe_in_place [OF assms(1)]] x p(1) m(2) by auto
    then have "sb_slice len (socket_buffer ll') = Inr p"
      using sb assms(3) by (auto simp: p(2) sb_slice_def sb_write_def sb_wf_def)
    with m(2) x p(1) len show ?thesis by blast
  qed
qed

lemma sb_payload_safe:
  "sb_slice len sb = Inr p \<Longrightarrow> skip \<le> drop_len \<Longrightarrow> drop_len \<le> len \<Longrightarrow> no_panic (sb_payload len skip drop_len sb)"
  by (simp add: sb_payload_def)

lemma handshake_msgs_quiet:
  assumes "noise_safe ops" "ll_wf ll" "ll_room ll" "len \<le> sb_remaining (socket_buffer ll)" "no_panic request"
  shows "ns_get_message_count ops (noise_session ll) = 0 \<Longrightarrow> \<not> ns_is_initiator ops (noise_session ll) \<Longrightarrow>
      process_msg_a ops request len ll = (r, ll') \<Longrightarrow> quiet r ll ll'"
    and "ns_get_message_count ops (noise_session ll) = 1 \<Longrightarrow> ns_is_initiator ops (noise_session ll) \<Longrightarrow>
      process_msg_b ops request len ll = (r, ll') \<Longrightarrow> quiet r ll ll'"
    and "ns_get_message_count ops (noise_session ll) = 2 \<Longrightarrow> \<not> ns_is_initiator ops (noise_session ll) \<Longrightarrow>
      process_msg_c ops len ll = (r, ll') \<Longrightarrow> quiet r ll ll'"
proof -
  obtain r1 ll1 where recv: "recv_xx_msg ops len ll = (r1, ll1)" by fastforce
  note q1 = recv_xx_safe(1) [OF assms(1,2,4) recv]
  note send = send_xx_quiet [OF assms(1) quiet_room [OF q1 assms(3)]]
  have lift: "quiet r ll ll2" if "ll1 = ll2" "no_panic r" for r :: "bytes result" and ll2
    using q1 that by (simp add: quiet_def)
  have sent: "quiet (Inl e :: bytes result) ll ll2" if "quiet (Inl e :: unit result) ll1 ll2" for e ll2
    using quiet_trans [OF q1 that] by (auto simp: quiet_def dest: no_panic_Inl)
  have sent': "quiet x ll ll2" if "quiet (Inr u :: unit result) ll1 ll2" "no_panic x" for u ll2 and x :: "bytes result"
    using quiet_trans [OF q1 that(1)] that(2) by (auto simp: quiet_def)
  note len = recv_xx_safe(2) [OF assms(1,2,4) recv]
  have err: "r1 = Inl e \<Longrightarrow> quiet (Inl e :: bytes result) ll ll1" for e
    using q1 by (auto simp: quiet_def dest: no_panic_Inl)
  show "quiet r ll ll'" if "ns_get_message_count ops (noise_session ll) = 0" "\<not> ns_is_initiator ops (noise_session ll)"
    "process_msg_a ops request len ll = (r, ll')"
  proof (cases r1)
    case (Inr u)
    have np: "no_panic (sb_payload len (ns_DHLEN ops) (ns_DHLEN ops + 16) (socket_buffer ll1))"
      using len [OF Inr] noise_safe_lengths(2) [OF assms(1) _ that(1,2)] by (auto intro: sb_payload_safe)
    from np that(3) recv Inr assms(5) show ?thesis
      by (cases "sb_payload len (ns_DHLEN ops) (ns_DHLEN ops + 16) (socket_buffer ll1)"; cases request)
        (auto simp: process_msg_a_def split: sum.splits prod.splits dest!: send
          intro: sent sent' lift no_panic_Inl no_panic_Inr)
  qed (use that(3) recv err in \<open>auto simp: process_msg_a_def\<close>)
  show "quiet r ll ll'" if "ns_get_message_count ops (noise_session ll) = 1" "ns_is_initiator ops (noise_session ll)"
    "process_msg_b ops request len ll = (r, ll')"
  proof (cases r1)
    case (Inr u)
    have np: "no_panic (sb_payload len (ns_DHLEN ops * 2 + ns_MAC_LENGTH ops)
        (ns_DHLEN ops * 2 + ns_MAC_LENGTH ops * 2) (socket_buffer ll1))"
      using len [OF Inr] noise_safe_lengths(3) [OF assms(1) _ that(1,2)] by (auto intro: sb_payload_safe)
    from np that(3) recv Inr assms(5) show ?thesis
      by (cases "sb_payload len (ns_DHLEN ops * 2 + ns_MAC_LENGTH ops)
            (ns_DHLEN ops * 2 + ns_MAC_LENGTH ops * 2) (socket_buffer ll1)"; cases request)
        (auto simp: process_msg_b_def sock_set_nodelay_def split: sum.splits prod.splits option.splits dest!: send
          intro: sent sent' lift no_panic_Inl no_panic_Inr)
  qed (use that(3) recv err in \<open>auto simp: process_msg_b_def\<close>)
  show "quiet r ll ll'" if "ns_get_message_count ops (noise_session ll) = 2" "\<not> ns_is_initiator ops (noise_session ll)"
    "process_msg_c ops len ll = (r, ll')"
  proof (cases r1)
    case (Inr u)
    have np: "no_panic (sb_payload len (ns_DHLEN ops + ns_MAC_LENGTH ops)
        (ns_DHLEN ops + ns_MAC_LENGTH ops * 2) (socket_buffer ll1))"
      using len [OF Inr] noise_safe_lengths(4) [OF assms(1) _ that(1,2)] by (auto intro: sb_payload_safe)
    from np that(3) recv Inr show ?thesis
      by (cases "sb_payload len (ns_DHLEN ops + ns_MAC_LENGTH ops)
            (ns_DHLEN ops + ns_MAC_LENGTH ops * 2) (socket_buffer ll1)")
        (auto simp: process_msg_c_def sock_set_nodelay_def split: sum.splits option.splits intro: lift no_panic_Inl no_panic_Inr)
  qed (use that(3) recv err in \<open>auto simp: process_msg_c_def\<close>)
qed

section \<open>Reading\<close>

text \<open>What every step of reading keeps, with or without an error.\<close>

definition ll_ok :: "'ns low_level \<Rightarrow> bool" where
  "ll_ok ll \<longleftrightarrow> ll_wf ll \<and> ll_room ll"

lemma ll_ok_new: "4096 \<le> rsize \<Longrightarrow> wsize \<le> rsize \<Longrightarrow> ll_ok (low_level_new ops l sock i rsize wsize)"
  using low_level_new_wf [of rsize ops l sock i wsize]
  by (simp add: ll_ok_def ll_room_def low_level_new_def socket_buffer_new_def)

lemma quiet_ok: "quiet r ll ll' \<Longrightarrow> ll_ok ll \<Longrightarrow> ll_ok ll'"
  by (auto simp: ll_ok_def quiet_room quiet_def same_input_wf)

lemma sb_shift_buf [simp]: "sb_buf (sb_shift n sb) = sb_buf sb"
  by (simp add: sb_shift_def Let_def)

lemma ll_ok_shift:
  assumes "ll_ok ll" "n \<le> sb_remaining (socket_buffer ll)"
  shows "ll_ok (ll\<lparr>socket_buffer := sb_shift n (socket_buffer ll)\<rparr>)"
  using assms sb_slice_wf(3) [of "socket_buffer ll" n] by (simp add: ll_ok_def ll_wf_def ll_room_def)

lemma ll_ok_reset: "ll_ok ll \<Longrightarrow> ll_ok (ll\<lparr>socket_buffer := sb_reset (socket_buffer ll)\<rparr>)"
  by (simp add: ll_ok_def ll_wf_def sb_wf_def sb_reset_def ll_room_def)

lemma ll_ok_incoming: "ll_ok ll \<Longrightarrow> im_wf im \<Longrightarrow> ll_ok (ll\<lparr>incoming_msg := im\<rparr>)"
  by (simp add: ll_ok_def ll_wf_def ll_room_def)

lemma decrypt_chunk_no_panic:
  assumes "noise_safe ops" "decrypt_chunk ops i s = (r, t)"
  shows "no_panic r"
  using assms(2) noise_safe_results(1) [OF assms(1)] noise_safe_lengths(1) [OF assms(1)]
  by (fastforce simp: decrypt_chunk_def Let_def split: prod.splits sum.splits if_splits dest: no_panic_Inl)

lemma decrypt_chunks_no_panic:
  assumes "noise_safe ops"
  shows "decrypt_chunks ops is s = (r, t) \<Longrightarrow> no_panic r"
  by (induction "is" arbitrary: s)
    (auto split: prod.splits sum.splits dest: decrypt_chunk_no_panic [OF assms] no_panic_Inl)

lemma decrypt_no_panic: "noise_safe ops \<Longrightarrow> decrypt ops ll = (r, ll') \<Longrightarrow> no_panic r"
  by (auto simp: decrypt_def decrypt_bytes_def Let_def split: prod.splits sum.splits
      dest: decrypt_chunks_no_panic no_panic_Inl)

lemma attempt_to_read_length_ok:
  assumes "ll_ok ll" "pending_bytes (incoming_msg ll) = 0" "attempt_to_read_length ops ll = (r, ll')"
  shows "ll_ok ll' \<and> no_panic r"
proof -
  let ?sb = "socket_buffer ll" and ?im = "incoming_msg ll"
  define n where "n = min (sb_remaining ?sb) (PAYLOAD_SIZE - length (size_bytes ?im))"
  have wf: "sb_wf ?sb" "im_wf ?im" using assms(1) by (simp_all add: ll_ok_def ll_wf_def)
  have n: "n \<le> sb_remaining ?sb" by (simp add: n_def)
  have len: "length (size_bytes ?im @ take n (sb_unread ?sb)) \<le> PAYLOAD_SIZE"
    using wf by (auto simp: n_def im_wf_def)
  have pos: "0 < PAYLOAD_SIZE" by (simp add: PAYLOAD_SIZE_def)
  have conv: "length bs = PAYLOAD_SIZE \<Longrightarrow> u32_from_be_bytes bs \<noteq> None" for bs
    by (simp add: PAYLOAD_SIZE_def u32_from_be_bytes_def)
  show ?thesis
    using assms sb_slice_wf(1) [OF wf(1) n] ll_ok_shift [OF assms(1) n] wf len pos
      conv [of "size_bytes ?im @ take n (sb_unread ?sb)"]
    by (auto simp: attempt_to_read_length_def n_def [symmetric] Let_def im_wf_def word_le_nat_alt word_less_nat_alt not_less
        ll_ok_def ll_wf_def ll_room_def split: if_splits option.splits)
qed

lemma process_incoming_msg_ok:
  assumes safe: "noise_safe ops" and ok: "ll_ok ll" and pend: "pending_bytes (incoming_msg ll) \<noteq> 0"
    and req: "no_panic request" and run: "process_incoming_msg ops request ll = (r, ll')"
  shows "ll_ok ll' \<and> no_panic r"
proof -
  let ?sb = "socket_buffer ll" and ?im = "incoming_msg ll"
  define n where "n = min (pending_bytes ?im) (sb_remaining ?sb)"
  have wf: "sb_wf ?sb" "im_wf ?im" using ok by (simp_all add: ll_ok_def ll_wf_def)
  have n: "n \<le> sb_remaining ?sb" "n \<le> pending_bytes ?im" by (simp_all add: n_def)
  note slice = sb_slice_wf [OF wf(1) n(1)]
  define im where "im = ?im\<lparr>in_message := in_message ?im @ take n (sb_unread ?sb), pending_bytes := pending_bytes ?im - n\<rparr>"
  have im: "im_wf im"
    using wf(2) pend length_sb_unread [OF wf(1)] n by (auto simp: im_def im_wf_def)
  define ll1 where "ll1 = ll\<lparr>incoming_msg := im\<rparr>"
  have ok1: "ll_ok ll1" by (simp add: ll1_def ll_ok_incoming [OF ok im])
  have n1: "n \<le> sb_remaining (socket_buffer ll1)" using n by (simp add: ll1_def)
  define ll2 where "ll2 = ll1\<lparr>socket_buffer := sb_shift n (socket_buffer ll1)\<rparr>"
  have ok2: "ll_ok ll2" unfolding ll2_def by (rule ll_ok_shift [OF ok1 n1])
  have post: "ll_is_post_handshake ops ll2 = ll_is_post_handshake ops ll1"
    by (simp add: ll2_def ll_is_post_handshake_eq)
  note unf = process_incoming_msg_def n_def [symmetric] Let_def im_def [symmetric] ll1_def [symmetric]
    ll2_def [symmetric]
  show ?thesis
  proof (cases "pending_bytes im = 0")
    case False
    with run slice(1) ok1 ok2 show ?thesis by (auto simp: unf split: if_splits)
  next
    case True
    show ?thesis
    proof (cases "ll_is_post_handshake ops ll1")
      case True
      obtain x ll3 where d: "decrypt ops ll2 = (x, ll3)" by fastforce
      have "ll_ok ll3"
        using d ll_ok_incoming [OF ok2, of "(incoming_msg ll2)\<lparr>in_message := []\<rparr>"] im \<open>pending_bytes im = 0\<close>
        by (auto simp: decrypt_def ll2_def ll1_def im_wf_def ll_ok_def ll_wf_def ll_room_def Let_def split: prod.splits)
      with run slice(1) True \<open>pending_bytes im = 0\<close> d decrypt_no_panic [OF safe d] post show ?thesis
        by (auto simp: unf split: sum.splits dest: no_panic_Inl)
    next
      case False
      have wf1: "ll_wf ll1" "ll_room ll1" using ok1 by (simp_all add: ll_ok_def)
      note msgs = handshake_msgs_quiet [OF safe wf1 n1 req]
      define x where "x = (if ns_get_message_count ops (noise_session ll1) = 0 \<and> \<not> ns_is_initiator ops (noise_session ll1)
          then process_msg_a ops request n ll1
          else if ns_get_message_count ops (noise_session ll1) = 1 \<and> ns_is_initiator ops (noise_session ll1)
          then process_msg_b ops request n ll1
          else if ns_get_message_count ops (noise_session ll1) = 2 \<and> \<not> ns_is_initiator ops (noise_session ll1)
          then process_msg_c ops n ll1 else (Inl (Bail ''invalid XX handshake''), ll1))"
      obtain y ll3 where y: "x = (y, ll3)" by fastforce
      have q: "quiet y ll1 ll3"
        using y msgs unfolding x_def by (auto simp: quiet_def split: if_splits)
      note ok3 = quiet_ok [OF q ok1]
      have eq: "process_incoming_msg ops request ll = (case x of
          (Inl e, ll3) \<Rightarrow> (Inl e, ll3)
        | (Inr pl, ll3) \<Rightarrow>
            (let count' = ns_get_message_count ops (noise_session ll3) in
             if \<not> ns_is_initiator ops (noise_session ll3) \<and> count' = 1 \<and> pl \<noteq> PSK
             then (Inl (Bail ''Invalid PSK''), ll3)
             else if \<not> ns_is_initiator ops (noise_session ll3) \<and> count' = 2
             then (Inr Incomplete, ll3\<lparr>socket_buffer := sb_reset (socket_buffer ll3)\<rparr>)
             else (Inr (Complete pl), ll3\<lparr>socket_buffer := sb_shift n (socket_buffer ll3)\<rparr>)))"
        using slice(1) False [unfolded ll1_def] \<open>pending_bytes im = 0\<close>
        by (simp add: process_incoming_msg_def n_def [symmetric] Let_def im_def [symmetric] x_def ll1_def)
      have n3: "n \<le> sb_remaining (socket_buffer ll3)" using q n1 by (simp add: quiet_def same_input_def)
      show ?thesis
      proof (cases y)
        case (Inl e)
        with run y ok3 q show ?thesis by (auto simp: eq quiet_def dest: no_panic_Inl)
      next
        case (Inr pl)
        with run y ok3 ll_ok_shift [OF ok3 n3] ll_ok_reset [OF ok3] show ?thesis
          by (auto simp: eq Let_def split: if_splits)
      qed
    qed
  qed
qed

lemma read_buffered_ok:
  assumes "noise_safe ops" "ll_ok ll" "no_panic request" "read_buffered ops request ll = (r, ll')"
  shows "ll_ok ll' \<and> no_panic r"
proof (cases "pending_bytes (incoming_msg ll) = 0")
  case False
  with assms process_incoming_msg_ok [OF assms(1,2) False assms(3)] show ?thesis by (simp add: read_buffered_def)
next
  case True
  obtain x ll1 where x: "attempt_to_read_length ops ll = (x, ll1)" by fastforce
  note ok = attempt_to_read_length_ok [OF assms(2) True x]
  show ?thesis
  proof (cases x)
    case (Inl e)
    with assms(4) True x ok show ?thesis by (auto simp: read_buffered_def dest: no_panic_Inl)
  next
    case (Inr u)
    with assms(4) True x ok process_incoming_msg_ok [OF assms(1) _ _ assms(3), of ll1 r ll'] show ?thesis
      by (auto simp: read_buffered_def split: if_splits)
  qed
qed

lemma read_from_socket_ok:
  assumes "noise_safe ops" "ll_ok ll" "no_panic request" "read_from_socket ops request ll = (r, ll')"
  shows "ll_ok ll' \<and> no_panic r"
proof -
  let ?sb = "socket_buffer ll"
  have sb: "sb_wf ?sb" using assms(2) by (simp add: ll_ok_def ll_wf_def)
  then have ne: "\<not> is_exhausted ?sb" by (auto simp: sb_wf_def is_exhausted_def)
  show ?thesis
  proof (cases "sb_remaining ?sb = 0")
    case False
    with ne assms read_buffered_ok [OF assms(1,2,3)] show ?thesis by (simp add: read_from_socket_def)
  next
    case True
    then have off: "sb_offset ?sb = 0" using sb by (simp add: sb_wf_def)
    obtain io sock where io: "sock_read (length (sb_buf ?sb)) (ll_socket ll) = (io, sock)"
      by (cases "sock_read (length (sb_buf ?sb)) (ll_socket ll)")
    have ok1: "ll_ok (ll\<lparr>ll_socket := sock\<rparr>)" using assms(2) by (simp add: ll_ok_def ll_wf_def ll_room_def)
    show ?thesis
    proof (cases "\<exists>b bs. io = Io_ok (b # bs)")
      case False
      with assms(4) ne True off io ok1 show ?thesis
        by (auto simp: read_from_socket_def Let_def split: io.splits list.splits)
    next
      case data: True
      then obtain b bs where bs: "io = Io_ok (b # bs)" by blast
      let ?ll2 = "ll\<lparr>ll_socket := sock, socket_buffer := (sb_write (b # bs) ?sb)\<lparr>sb_remaining := length (b # bs)\<rparr>\<rparr>"
      have "length (b # bs) \<le> length (sb_buf ?sb)" using io bs by (auto dest: sock_read_length)
      then have "ll_ok ?ll2" using assms(2) off by (auto simp: ll_ok_def ll_wf_def sb_wf_def sb_write_def ll_room_def)
      moreover have "read_buffered ops request ?ll2 = (r, ll')"
        using assms(4) ne True off io bs by (simp add: read_from_socket_def Let_def)
      ultimately show ?thesis using read_buffered_ok [OF assms(1) _ assms(3)] by blast
    qed
  qed
qed

end
