(* ===== verification/Handler_Safety.thy ===== *)
theory Handler_Safety
  imports Connectivity Low_Level_Safety
begin

text \<open>
  The handlers of a connection never panic, and of the changes of connections they request, a
  promotion is only ever requested by a connection for itself, after its handshake.
\<close>

section \<open>What the outside promises\<close>

text \<open>The packages and the operating system report errors as values, the channels are the documented
  ones, shuffling permutes, and the clock fits an \<open>i64\<close>.\<close>

definition env_ok :: "('ns, 'kv) env \<Rightarrow> bool" where
  "env_ok env \<longleftrightarrow> noise_safe (e_noise env) \<and> channel_lawful (e_changes env) \<and> channel_lawful (e_cmsgs env) \<and>
     no_panic (e_version env) \<and> (\<forall>t. no_panic (e_register env t)) \<and> (\<forall>a. no_panic (e_dial env a)) \<and>
     (\<forall>bs. no_panic (e_u8_deserial env bs)) \<and> (\<forall>a. no_panic (e_addr_to_json env a)) \<and>
     (\<forall>s kv. no_panic (e_kv_open env s kv)) \<and> (\<forall>s a kv. no_panic (fst (e_kv_transact env s a kv))) \<and>
     (\<forall>ps. mset (e_shuffle env ps) = mset ps) \<and> - (2 ^ 63) \<le> e_millis env \<and> e_millis env < 2 ^ 63"

lemma env_okD:
  assumes "env_ok env"
  shows "noise_safe (e_noise env)" "channel_lawful (e_changes env)" "channel_lawful (e_cmsgs env)"
    "no_panic (e_version env)" "no_panic (e_register env t)" "no_panic (e_dial env a)"
    "no_panic (e_u8_deserial env bs)" "no_panic (e_addr_to_json env a)" "no_panic (e_kv_open env st kv)"
    "no_panic (fst (e_kv_transact env st act kv))" "- (2 ^ 63) \<le> e_millis env" "e_millis env < 2 ^ 63"
    "mset (e_shuffle env ps) = mset ps"
  using assms by (simp_all add: env_ok_def)

lemma channel_lawful_send:
  "channel_lawful ops \<Longrightarrow> chan_try_send ops x c =
     (if length (chan_items c) < chan_capacity c then (Inr (), c\<lparr>chan_items := chan_items c @ [x]\<rparr>) else (Inl Full, c))"
  by (simp add: channel_lawful_def)

lemma channel_lawful_recv:
  "channel_lawful ops \<Longrightarrow> chan_try_recv ops c =
     (case chan_items c of [] \<Rightarrow> (None, c) | x # xs \<Rightarrow> (Some x, c\<lparr>chan_items := xs\<rparr>))"
  by (simp add: channel_lawful_def)

abbreviation changes :: "('ns, 'kv) p2p_node \<Rightarrow> conn_change list" where
  "changes n \<equiv> chan_items (conn_changes n)"

lemma register_changes:
  assumes "env_ok env"
  shows "\<exists>new. changes (register_conn_change env ch n) = changes n @ new \<and> set new \<subseteq> {ch}"
proof -
  have "changes (register_conn_change env ch n) = changes n \<or> changes (register_conn_change env ch n) = changes n @ [ch]"
    by (simp add: register_conn_change_def channel_lawful_send [OF env_okD(2) [OF assms]])
  then show ?thesis
    by (rule disjE) (rule exI [of _ "[]"], simp, rule exI [of _ "[ch]"], simp)
qed

section \<open>Handlers\<close>

definition changes_by :: "('ns, 'kv) conn_node \<Rightarrow> ('ns, 'kv) conn_node \<Rightarrow> bool" where
  "changes_by s t \<longleftrightarrow> (\<exists>new. changes (snd t) = changes (snd s) @ new \<and>
     (\<forall>tok. Promotion tok \<in> set new \<longrightarrow> tok = conn_token (fst t) \<and> is_post_handshake (fst t)))"

definition handler_safe :: "'a result \<Rightarrow> ('ns, 'kv) conn_node \<Rightarrow> ('ns, 'kv) conn_node \<Rightarrow> bool" where
  "handler_safe r s t \<longleftrightarrow> no_panic r \<and> (buckets_inv (n_buckets (snd s)) \<longrightarrow> buckets_inv (n_buckets (snd t))) \<and>
     n_throughput (snd t) = n_throughput (snd s) \<and> changes_by s t"

lemma changes_by_same: "changes (snd t) = changes (snd s) \<Longrightarrow> changes_by s t"
  by (simp add: changes_by_def)

lemma changes_by_trans:
  assumes "changes_by s t" "changes_by t u" "local_id (c_remote_peer (fst u)) = local_id (c_remote_peer (fst t))"
    "is_post_handshake (fst t) \<longrightarrow> is_post_handshake (fst u)"
  shows "changes_by s u"
proof -
  from assms(1,2) obtain x y where "changes (snd u) = changes (snd s) @ x @ y"
    "\<forall>tok. Promotion tok \<in> set x \<longrightarrow> tok = conn_token (fst t) \<and> is_post_handshake (fst t)"
    "\<forall>tok. Promotion tok \<in> set y \<longrightarrow> tok = conn_token (fst u) \<and> is_post_handshake (fst u)"
    unfolding changes_by_def by fastforce
  with assms(3,4) show ?thesis unfolding changes_by_def by (intro exI [of _ "x @ y"]) (auto simp: conn_token_def)
qed

lemma handler_safe_same:
  "no_panic r \<Longrightarrow> n_buckets (snd t) = n_buckets (snd s) \<Longrightarrow> n_throughput (snd t) = n_throughput (snd s) \<Longrightarrow>
   conn_changes (snd t) = conn_changes (snd s) \<Longrightarrow> handler_safe r s t"
  by (simp add: handler_safe_def changes_by_same)

lemma handler_safe_trans:
  assumes "handler_safe r s t" "handler_safe q t u" "local_id (c_remote_peer (fst u)) = local_id (c_remote_peer (fst t))"
    "is_post_handshake (fst t) \<longrightarrow> is_post_handshake (fst u)"
  shows "handler_safe q s u"
  using assms changes_by_trans [of s t u] by (simp add: handler_safe_def)

lemma handler_safe_register:
  assumes "env_ok env" "\<And>tok. ch = Promotion tok \<Longrightarrow> tok = conn_token c \<and> is_post_handshake c"
  shows "handler_safe (Inr x) (c, n) (c, register_conn_change env ch n)"
proof -
  from register_changes [OF assms(1), of ch n] obtain new where
    "changes (register_conn_change env ch n) = changes n @ new" "set new \<subseteq> {ch}" by blast
  with assms(2) have "changes_by (c, n) (c, register_conn_change env ch n)" by (auto simp: changes_by_def)
  then show ?thesis by (simp add: handler_safe_def register_conn_change_def)
qed

lemma bucket_ops_safe:
  assumes "buckets_inv bs"
  shows "\<exists>l bs'. insert_into_bucket now rp nets bs = Inr (l, bs') \<and> buckets_inv bs'"
    and "\<exists>l bs'. update_network_ids now rp nets bs = Inr (l, bs') \<and> buckets_inv bs'"
    and "\<exists>l bs'. clean_buckets now period bs = Inr (l, bs') \<and> buckets_inv bs'"
  using bucket_op_run_inv [OF assms] bucket_op_run.simps by metis+

text \<open>Operations on the buckets that keep their invariant.\<close>

definition bucket_safe :: "(buckets \<Rightarrow> (metric_log \<times> buckets) result) \<Rightarrow> bool" where
  "bucket_safe f \<longleftrightarrow> (\<forall>bs. buckets_inv bs \<longrightarrow> (\<exists>l bs'. f bs = Inr (l, bs') \<and> buckets_inv bs'))"

lemma bucket_safe_ops [simp]:
  "bucket_safe (insert_into_bucket now rp nets)" "bucket_safe (update_network_ids now rp nets)"
  "bucket_safe (clean_buckets now period)"
  using bucket_ops_safe by (simp_all add: bucket_safe_def)

lemma apply_buckets_safe:
  assumes "buckets_inv (n_buckets n)" "apply_buckets f n = (r, n')" "bucket_safe f"
  shows "handler_safe r (c, n) (c', n') \<and> r = Inr ()"
proof -
  from assms(1,3) obtain l bs where "f (n_buckets n) = Inr (l, bs)" "buckets_inv bs" by (auto simp: bucket_safe_def)
  with assms(2) show ?thesis
    by (auto simp: apply_buckets_def log_metrics_def handler_safe_def intro: changes_by_same)
qed

lemma populate_safe:
  assumes "buckets_inv (n_buckets (snd s))" "populate_remote_end_networks env rp nets s = (r, t)"
  shows "handler_safe r s t \<and> r = Inr ()"
proof -
  obtain c n where s: "s = (c, n)" by fastforce
  let ?c = "c\<lparr>c_networks := hs_extend (c_networks c) nets\<rparr>"
  obtain x n' where x: "apply_buckets (insert_into_bucket (e_now env) rp nets) n = (x, n')" by fastforce
  from apply_buckets_safe [OF _ x, of c ?c] assms(1) s
  have safe: "handler_safe x (c, n) (?c, n')" "x = Inr ()" by auto
  show ?thesis
  proof (cases "node_type n = Bootstrapper \<and> peer_type (c_remote_peer c) \<noteq> Bootstrapper")
    case True
    with assms(2) s x safe show ?thesis
      by (auto simp: populate_remote_end_networks_def Let_def)
  next
    case False
    with assms(2) s show ?thesis
      by (auto simp: populate_remote_end_networks_def Let_def intro: handler_safe_same split: if_splits)
  qed
qed

lemma promote_safe:
  assumes "env_ok env" "buckets_inv (n_buckets (snd s))"
    and "promote_to_post_handshake env i port nets wv s = (r, t)"
  shows "handler_safe r s t"
proof -
  obtain c n where s: "s = (c, n)" by fastforce
  define c1 where "c1 = c\<lparr>c_remote_peer := (c_remote_peer c)\<lparr>self_id := Some i, external_port := port\<rparr>\<rparr>"
  define n1 where "n1 = log_metrics [Metric_inc Connected_peers, Metric_inc Total_peers] n"
  define n2 where "n2 = (if peer_type (c_remote_peer c1) = Bootstrapper then update_last_bootstrap env n1 else n1)"
  obtain r1 s1 where p: "populate_remote_end_networks env (c_remote_peer c1) nets (c1, n2) = (r1, s1)"
    by (cases "populate_remote_end_networks env (c_remote_peer c1) nets (c1, n2)")
  have n2: "n_buckets n2 = n_buckets n" "n_throughput n2 = n_throughput n" "conn_changes n2 = conn_changes n"
    by (simp_all add: n2_def n1_def update_last_bootstrap_def log_metrics_def)
  have one: "handler_safe (Inr ()) s (c1, n2)" using n2 by (intro handler_safe_same) (simp_all add: s)
  from populate_safe [OF _ p] assms(2) n2 s have pop: "handler_safe r1 (c1, n2) s1" "r1 = Inr ()" by auto
  have frame: "handler_frame (c1, n2) s1" using populate_frame [OF p] by simp
  have post: "is_post_handshake (fst s1)"
    using frame by (auto simp: handler_frame_def c1_def is_post_handshake_def)
  let ?c3 = "(fst s1)\<lparr>c_wire_version := wv\<rparr>"
  have run: "r = Inr ()" "t = (?c3, register_conn_change env (Promotion (conn_token ?c3)) (snd s1))"
    using assms(3) p pop(2) unfolding promote_to_post_handshake_def s split_beta fst_conv snd_conv Let_def
      c1_def [symmetric] n1_def [symmetric] n2_def [symmetric] by simp_all
  have two: "handler_safe (Inr ()) s1 (?c3, snd s1)" by (intro handler_safe_same) simp_all
  have three: "handler_safe r (?c3, snd s1) t"
    unfolding run using post by (intro handler_safe_register [OF assms(1)]) (simp add: is_post_handshake_def)
  have "handler_safe r s1 t"
    by (rule handler_safe_trans [OF two three]) (simp_all add: run is_post_handshake_def)
  moreover have "handler_safe r1 s s1"
    by (rule handler_safe_trans [OF one pop(1)]) (use frame in \<open>simp_all add: handler_frame_def\<close>)
  ultimately show ?thesis
    by (auto simp: run is_post_handshake_def intro: handler_safe_trans)
qed

lemma networks_safe:
  assumes "buckets_inv (n_buckets (snd s))"
  shows "add_remote_end_network env i s = (r, t) \<Longrightarrow> handler_safe r s t"
    and "remove_remote_end_network env i s = (r, t) \<Longrightarrow> handler_safe r s t"
proof -
  obtain c n where s: "s = (c, n)" by fastforce
  have upd: "handler_safe r (c, n) (c', n')"
    if "apply_buckets (update_network_ids now rp nets) n = (r, n')" for now rp nets r n' c'
    using apply_buckets_safe [OF _ that] assms s by auto
  show "add_remote_end_network env i s = (r, t) \<Longrightarrow> handler_safe r s t"
    and "remove_remote_end_network env i s = (r, t) \<Longrightarrow> handler_safe r s t"
    by (auto simp: s add_remote_end_network_def remove_remote_end_network_def Let_def
        intro: handler_safe_same upd split: if_splits prod.splits)
qed

lemma serialize_total [simp]: "serialize env now m \<noteq> Inl e"
  by (simp add: serialize_def split_beta)

lemma peer_list_safe: "send_peer_list_resp env nets stats s = (r, t) \<Longrightarrow> handler_safe r s t"
  by (auto simp: send_peer_list_resp_def Let_def split: prod.splits option.splits sum.splits
      intro: handler_safe_same)

lemma packets_safe:
  assumes "env_ok env" "handle_incoming_packet env pac p n = (r, n')"
  shows "handler_safe r (c, n) (c, n')"
proof -
  have send: "fst (send_in_low_priority_message (e_cmsgs env) m q) \<noteq> Inl Disconnected"
    "fst (send_in_high_priority_message (e_cmsgs env) m q) \<noteq> Inl Disconnected" for m q
    by (simp_all add: send_in_low_priority_message_def send_in_high_priority_message_def send_msg_def
        channel_lawful_send [OF env_okD(3) [OF assms(1)]] split_beta)
  have queue: "handler_safe r (c, n) (c, n')" if "queue_result ty inc p down x n = (r, n')" "fst x \<noteq> Inl Disconnected"
    for ty inc p down x r n'
    using that by (auto simp: queue_result_def log_metrics_def Let_def intro: handler_safe_same
        split: sum.splits try_send_error.splits prod.splits)
  have u8: "no_panic (Inl e :: unit result)" if "e_u8_deserial env bs = Inl e" for bs e
    using env_okD(7) [OF assms(1), of bs] that by (auto dest: no_panic_Inl)
  show ?thesis
    using assms(2) send queue u8
    by (auto simp: handle_incoming_packet_def handle_pkt_out_def packet_type_try_from_def Let_def
        split: if_splits sum.splits intro: handler_safe_same)
qed

lemma handshake_safe:
  assumes "env_ok env" "buckets_inv (n_buckets (snd s))" "handle_handshake_req env h stats s = (r, t)"
  shows "handler_safe r s t"
proof (cases "handshake_checks h (rg_blocks (n_regenesis (snd s)))")
  case (Inl e)
  then have "no_panic (Inl e :: unit result)"
    by (auto simp: handshake_checks_def split: if_splits option.splits)
  with assms(3) Inl show ?thesis by (auto simp: handle_handshake_req_def intro: handler_safe_same)
next
  case (Inr wv)
  obtain r1 s1 where p: "promote_to_post_handshake env (remote_id h) (remote_port h) (hs_networks h) wv s = (r1, s1)"
    by (cases "promote_to_post_handshake env (remote_id h) (remote_port h) (hs_networks h) wv s")
  note safe = promote_safe [OF assms(1,2) p]
  have resp: "handler_safe q s u" if "send_peer_list_resp env nets stats s1 = (q, u)" for q nets u
    using handler_safe_trans [OF safe peer_list_safe [OF that]] peer_list_frame [OF that]
    by (simp add: handler_frame_def)
  show ?thesis
    using assms(3) Inr p safe by (cases r1) (auto simp: handle_handshake_req_def split: if_splits dest: resp)
qed

lemma incoming_message_safe:
  assumes "env_ok env" "buckets_inv (n_buckets (snd s))" "handle_incoming_message env msg stats s = (r, t)"
  shows "handler_safe r s t"
proof -
  obtain c n where s: "s = (c, n)" by fastforce
  have pong: "no_panic x \<and> (\<exists>st. c' = c\<lparr>c_stats := st\<rparr>)" if "handle_pong env c = (x, c')" for x c'
    using that by (auto simp: handle_pong_def notify_pong_def Let_def split: if_splits)
  have pong': "no_panic x" if "send_pong env c = (x, c')" for x c'
    using that by (auto simp: send_pong_def split: sum.splits)
  show ?thesis
    using assms
    by (auto simp: s handle_incoming_message_def
        intro: handler_safe_same handler_safe_register packets_safe dest: pong pong'
        intro: handshake_safe [OF assms(1)] peer_list_safe networks_safe
        split: network_payload.splits network_request.splits network_response.splits if_splits prod.splits)
qed

lemma count_received_safe: "handler_safe (Inr ()) s (count_received env bs s)"
  by (cases s) (auto simp: count_received_def log_metrics_def Let_def intro: handler_safe_same)

lemma is_packet_duplicate_no_panic: "is_packet_duplicate env pkt n = (r, n') \<Longrightarrow> no_panic r"
  by (auto simp: is_packet_duplicate_def packet_type_try_from_def Let_def
      split: list.splits sum.splits packet_destination.splits packet_type.splits prod.splits if_splits)

lemma process_message_safe:
  assumes "env_ok env" "buckets_inv (n_buckets (snd s))" "process_message env bs stats s = (r, t)"
  shows "handler_safe r s t"
proof -
  obtain c n where cn: "count_received env bs s = (c, n)" by (cases "count_received env bs s")
  note one = count_received_safe [of s env bs, unfolded cn]
  have inv: "buckets_inv (n_buckets n)" using one assms(2) by (simp add: handler_safe_def)
  have dup: "handler_safe x (c, n) (c, n') \<and> n_buckets n' = n_buckets n" if "is_packet_duplicate env pkt n = (x, n')" for pkt x n'
    using is_packet_duplicate_node [OF that] is_packet_duplicate_no_panic [OF that]
    by (auto intro: handler_safe_same)
  have des: "no_panic (Inl e :: unit result)" if "deserialize (e_fb env) (e_now env) bs = Inl e" for e
    using that deserialize_no_panic [of "e_fb env" "e_now env" bs] by (cases e) auto
  note msg = incoming_message_safe [OF assms(1)] and frame = incoming_message_frame
  have through: "handler_safe r (c, n) t"
    if "is_packet_duplicate env pkt n = (x, n')" "handle_incoming_message env m stats (c, n') = (r, t)" for pkt x n' m
    using handler_safe_trans [of x "(c, n)" "(c, n')" r t] dup [OF that(1)] msg [OF _ that(2)] frame [OF that(2)] inv
    by (simp add: handler_frame_def)
  have "handler_safe r (c, n) t"
  proof (cases "deserialize (e_fb env) (e_now env) bs")
    case (Inl e)
    with assms(3) des [OF Inl] show ?thesis by (auto simp: process_message_def cn intro: handler_safe_same)
  next
    case (Inr m)
    show ?thesis
    proof (cases "\<exists>pkt. net_payload m = NetworkPacket pkt")
      case False
      with assms(3) Inr msg [of "(c, n)" m stats] inv show ?thesis
        by (auto simp: process_message_def cn split: network_payload.splits)
    next
      case True
      then obtain pkt where pkt: "net_payload m = NetworkPacket pkt" by blast
      obtain x n' where x: "is_packet_duplicate env pkt n = (x, n')" by fastforce
      show ?thesis
        using assms(3) Inr pkt x dup [OF x] through [OF x]
        by (auto simp: process_message_def cn intro: handler_safe_same split: if_splits sum.splits bool.splits)
          (auto simp: handler_safe_def dest: no_panic_Inl)
    qed
  qed
  moreover have "handler_frame (c, n) t"
    using process_message_frame [OF assms(3)] count_received_frame(1) [of s env bs, unfolded cn]
      count_received_counted [of s env bs, unfolded cn]
    by (simp add: handler_frame_def only_counted_def is_post_handshake_def)
  ultimately show ?thesis
    using handler_safe_trans [OF one, of r t] by (simp add: handler_frame_def)
qed

section \<open>One connection\<close>

text \<open>A step of a connection that uses its socket: like a handler, but with another low-level state.\<close>

definition conn_step_ok :: "'a result \<Rightarrow> ('ns, 'kv) conn_node \<Rightarrow> ('ns, 'kv) conn_node \<Rightarrow> bool" where
  "conn_step_ok r s t \<longleftrightarrow> handler_safe r s t \<and> ll_ok (c_low_level (fst t)) \<and>
     handler_frame (fst s\<lparr>c_low_level := c_low_level (fst t)\<rparr>, snd s) t"

lemma conn_step_ok_trans:
  assumes "conn_step_ok r s t" "conn_step_ok q t u"
  shows "conn_step_ok q s u"
proof -
  have "handler_safe q s u"
    using assms by (intro handler_safe_trans [of r s t q u])
      (auto simp: conn_step_ok_def handler_frame_def is_post_handshake_def)
  with assms show ?thesis by (auto simp: conn_step_ok_def handler_frame_def is_post_handshake_def)
qed

lemma conn_step_ok_low_level:
  "ll_ok ll \<Longrightarrow> no_panic r \<Longrightarrow> conn_step_ok r (c, n) (c\<lparr>c_low_level := ll\<rparr>, n)"
  by (simp add: conn_step_ok_def handler_safe_same)

lemma conn_step_ok_handler:
  "handler_safe r s t \<Longrightarrow> handler_frame s t \<Longrightarrow> ll_ok (c_low_level (fst s)) \<Longrightarrow> conn_step_ok r s t"
  by (auto simp: conn_step_ok_def handler_frame_def is_post_handshake_def)

lemma conn_step_ok_result: "conn_step_ok r s t \<Longrightarrow> no_panic q \<Longrightarrow> conn_step_ok q s t"
  by (simp add: conn_step_ok_def handler_safe_def)

lemma conn_step_okD:
  assumes "conn_step_ok r s t"
  shows "no_panic r" "ll_ok (c_low_level (fst t))" "buckets_inv (n_buckets (snd s)) \<Longrightarrow> buckets_inv (n_buckets (snd t))"
  using assms by (simp_all add: conn_step_ok_def handler_safe_def)

lemma request_no_panic: "env_ok env \<Longrightarrow> no_panic (produce_handshake_request env n)"
  using env_okD(4) [of env]
  by (auto simp: produce_handshake_request_def no_panic_def split: sum.splits)

lemma read_stream_ok:
  assumes "env_ok env" "ll_ok (c_low_level (fst s))" "buckets_inv (n_buckets (snd s))"
  shows "\<exists>r t. read_stream env stats s = Some (r, t) \<and> conn_step_ok r s t"
  using assms(2,3)
proof (induction "c_low_level (fst s)" arbitrary: s rule: wf_induct_rule [OF wf_closer])
  case 1
  obtain c n where s: "s = (c, n)" by fastforce
  obtain x ll where x: "read_from_socket (e_noise env) (produce_handshake_request env n) (c_low_level c) = (x, ll)"
    by fastforce
  let ?s = "(c\<lparr>c_low_level := ll\<rparr>, n)"
  note unfold = read_stream.simps [of env stats "(c, n)"]
  from read_from_socket_ok [OF env_okD(1) [OF assms(1)] _ request_no_panic [OF assms(1)] x] "1.prems"(1) s
  have ok: "ll_ok ll" "no_panic x" by auto
  have one: "conn_step_ok q s ?s" if "no_panic q" for q :: "bool result"
    using ok(1) that by (simp add: s conn_step_ok_low_level)
  show ?case
  proof (cases x)
    case (Inl e)
    with x ok(2) one show ?thesis by (simp add: unfold s no_panic_def)
  next
    case (Inr y)
    have prog: "y = WouldBlock \<or> y = Closed \<or> (ll, c_low_level c) \<in> closer"
      using read_from_socket_progress [OF noise_safe_in_place [OF env_okD(1) [OF assms(1)]] _ x [unfolded Inr]]
        "1.prems"(1) s by (simp add: ll_ok_def)
    have again: "\<exists>r t. read_stream env stats s2 = Some (r, t) \<and> conn_step_ok r s t"
      if "conn_step_ok q ?s s2" "c_low_level (fst s2) = ll" "(ll, c_low_level c) \<in> closer" for q :: "unit result" and s2
    proof -
      have "buckets_inv (n_buckets (snd s2))" using conn_step_okD(3) [OF that(1)] "1.prems"(2) s by simp
      with "1.hyps" [of s2] that ok(1) s obtain r t where "read_stream env stats s2 = Some (r, t)" "conn_step_ok r s2 t"
        by auto
      with conn_step_ok_trans [OF conn_step_ok_trans [OF one [of "Inr True"] that(1)], of r t] show ?thesis by auto
    qed
    show ?thesis
    proof (cases y)
      case (Complete msg)
      obtain r1 s1 where p: "process_message env msg stats ?s = (r1, s1)"
        by (cases "process_message env msg stats ?s")
      have "handler_safe r1 ?s s1" using process_message_safe [OF assms(1) _ p] "1.prems"(2) s by simp
      with process_message_frame [OF p] ok(1) have step: "conn_step_ok r1 ?s s1" "c_low_level (fst s1) = ll"
        by (auto intro!: conn_step_ok_handler) (simp add: handler_frame_def)
      show ?thesis
      proof (cases r1)
        case e: (Inl e)
        have "conn_step_ok (Inl e :: bool result) s s1"
          using conn_step_ok_trans [OF one [of "Inr True"] step(1)] conn_step_okD(1) [OF step(1)]
          by (auto simp: e intro: conn_step_ok_result no_panic_Inl)
        with x Inr Complete p e show ?thesis by (simp add: unfold s)
      next
        case u: (Inr u)
        with x Inr Complete p again [OF step] prog show ?thesis by (simp add: unfold s)
      qed
    next
      case Incomplete
      have "conn_step_ok (Inr ()) ?s ?s" using ok(1) by (simp add: conn_step_ok_handler handler_safe_same)
      with x Inr again [of "Inr ()" ?s] prog Incomplete show ?thesis by (simp add: unfold s)
    qed (use x Inr one in \<open>simp_all add: unfold s\<close>)
  qed
qed

lemma conn_step_ok_refl: "ll_ok (c_low_level (fst s)) \<Longrightarrow> conn_step_ok (Inr x) s s"
  by (simp add: conn_step_ok_handler handler_safe_same)

lemma count_sent_ok: "ll_ok (c_low_level (fst s)) \<Longrightarrow> conn_step_ok (Inr ()) s (count_sent msg s)"
  by (cases s) (simp add: count_sent_def log_metrics_def handler_frame_def is_post_handshake_def
      conn_step_ok_def handler_safe_same)

lemma send_pending_ok:
  assumes "env_ok env" "ll_ok (c_low_level (fst s))" "send_pending_messages env s = (r, t)"
  shows "conn_step_ok r s t"
  using assms
proof (induction env s arbitrary: r t rule: send_pending_messages.induct)
  case (1 env s)
  obtain c n where s: "s = (c, n)" by fastforce
  obtain m q where m: "dequeue (c_pending c) = (m, q)" by fastforce
  show ?case
  proof (cases m)
    case None
    with "1.prems" s m show ?thesis
      by (auto simp: send_pending_messages.simps [of env "(c, n)"] conn_step_ok_refl)
  next
    case (Some msg)
    obtain x ll where x: "write_to_socket (e_noise env) msg (c_low_level c) = (x, ll)" by fastforce
    have q: "quiet x (c_low_level c) ll"
      using write_to_socket_quiet [OF env_okD(1) [OF "1.prems"(1)] _ x] "1.prems"(2) s by (simp add: ll_ok_def)
    have ll: "ll_ok ll" using quiet_ok [OF q] "1.prems"(2) s by simp
    let ?s = "(c\<lparr>c_pending := q, c_low_level := ll\<rparr>, n)"
    have one: "conn_step_ok y s ?s" if "no_panic y" for y :: "unit result"
      using ll that by (auto simp: s conn_step_ok_def handler_frame_def is_post_handshake_def intro: handler_safe_same)
    show ?thesis
    proof (cases x)
      case (Inl e)
      with "1.prems"(3) s m Some x q one [of "Inl e"] show ?thesis
        by (auto simp: send_pending_messages.simps [of env "(c, n)"] quiet_def)
    next
      case (Inr u)
      have "send_pending_messages env (count_sent msg ?s) = (r, t)"
        using "1.prems"(3) s m Some x Inr by (simp add: send_pending_messages.simps [of env "(c, n)"])
      moreover have "ll_ok (c_low_level (fst (count_sent msg ?s)))" using ll by (simp add: count_sent_def)
      ultimately have "conn_step_ok r (count_sent msg ?s) t"
        using "1.IH" "1.prems"(1) s m Some x Inr by simp
      with conn_step_ok_trans [OF one [of "Inr ()"] conn_step_ok_trans [OF count_sent_ok, of ?s]] ll show ?thesis by simp
    qed
  qed
qed

lemma send_and_flush_ok:
  assumes "env_ok env" "ll_ok (c_low_level (fst s))" "send_and_flush env s = (r, t)"
  shows "conn_step_ok r s t"
proof -
  obtain x c n where x: "send_pending_messages env s = (x, c, n)" by (metis prod.collapse)
  note one = send_pending_ok [OF assms(1,2) x]
  obtain y ll where y: "flush_socket (e_noise env) (c_low_level c) = (y, ll)" by fastforce
  have "ll_ok (c_low_level c)" using conn_step_okD(2) [OF one] by simp
  then have q: "quiet y (c_low_level c) ll" "ll_ok ll"
    using flush_socket_quiet [OF _ y] quiet_ok by (auto simp: ll_ok_def)
  have two: "conn_step_ok y (c, n) (c\<lparr>c_low_level := ll\<rparr>, n)"
    using q by (intro conn_step_ok_low_level) (simp_all add: quiet_def)
  show ?thesis
    using assms(3) x y one conn_step_ok_trans [OF one two]
    by (cases x) (auto simp: send_and_flush_def)
qed

lemma conn_failed_ok:
  assumes "env_ok env" "ll_ok (c_low_level (fst s))" "no_panic (Inl e :: unit result)"
  shows "\<exists>t. conn_failed env e s = (Inr (), t) \<and> conn_step_ok (Inr ()) s t"
  using assms(2,3)
  by (cases s; cases e)
    (auto simp: conn_failed_def intro!: conn_step_ok_handler handler_safe_register [OF assms(1)] small_handlers_frame)

lemma register_ok:
  assumes "env_ok env" "ll_ok (c_low_level c)" "\<And>tok. ch \<noteq> Promotion tok"
  shows "conn_step_ok (Inr ()) (c, n) (c, register_conn_change env ch n)"
  using assms by (auto intro!: conn_step_ok_handler handler_safe_register small_handlers_frame)

lemma backstop_ok:
  assumes "env_ok env" "ll_ok (c_low_level (fst s))"
  shows "conn_step_ok (Inr ()) s (backstop env events s)"
  using assms by (cases s) (auto simp: backstop_def conn_step_ok_refl intro: register_ok)

lemma process_connection_ok:
  assumes env: "env_ok env" and "ll_ok (c_low_level c)" "buckets_inv (n_buckets n)"
  shows "\<exists>t. process_connection env events stats (c, n) = Some (Inr (), t) \<and> conn_step_ok (Inr ()) (c, n) t"
proof -
  define c1 where "c1 = (if \<exists>ev \<in> set events. ev_token ev = conn_token c \<and> ev_writable ev
      then c\<lparr>c_low_level := notify_writable (c_low_level c)\<rparr> else c)"
  have ll1: "ll_ok (c_low_level c1)"
    using assms(2) by (auto simp: c1_def notify_writable_def ll_initialize_def Let_def ll_ok_def ll_wf_def ll_room_def)
  have zero: "conn_step_ok (Inr ()) (c, n) (c1, n)"
    using ll1 by (auto simp: c1_def conn_step_ok_def intro: handler_safe_same)
  obtain x s where x: "send_and_flush env (c1, n) = (x, s)" by (cases "send_and_flush env (c1, n)")
  note one = conn_step_ok_trans [OF zero send_and_flush_ok [OF env _ x]]
  from one ll1 have one: "conn_step_ok x (c, n) s" by simp
  note ok = conn_step_okD [OF one]
  have fail: "\<exists>t. conn_failed env e u = (Inr (), t) \<and> conn_step_ok (Inr ()) (c, n) t"
    if "conn_step_ok (Inl e :: 'z result) (c, n) u" for e u
    using conn_failed_ok [OF env conn_step_okD(2) [OF that] no_panic_Inl [OF conn_step_okD(1) [OF that]]]
      conn_step_ok_trans [OF that] by blast
  define rd where "rd \<longleftrightarrow> (\<exists>ev \<in> set events. ev_token ev = conn_token c \<and> ev_readable ev)"
  have eq: "process_connection env events stats (c, n) = (case x of
      Inl e \<Rightarrow> Some (conn_failed env e s)
    | Inr _ \<Rightarrow>
        if rd then
          (case read_stream env stats s of
             None \<Rightarrow> None
           | Some (Inl e, s') \<Rightarrow> Some (conn_failed env e s')
           | Some (Inr still_open, s') \<Rightarrow>
               if still_open then Some (Inr (), backstop env events s')
               else Some (Inr (), fst s', register_conn_change env (RemovalByToken (conn_token (fst s'))) (snd s')))
        else Some (Inr (), backstop env events s))"
    unfolding process_connection_def split_conv Let_def c1_def [symmetric] x rd_def by (cases x) simp_all
  show ?thesis
  proof (cases x)
    case (Inl e)
    with fail [of e s] one show ?thesis by (simp add: eq)
  next
    case (Inr u)
    have stop: "conn_step_ok (Inr ()) (c, n) (backstop env events v)" if "conn_step_ok q (c, n) v" for v and q :: "'y result"
      by (rule conn_step_ok_trans [OF that backstop_ok [OF env conn_step_okD(2) [OF that]]])
    show ?thesis
    proof (cases rd)
      case False
      with Inr stop [OF one] show ?thesis by (cases "backstop env events s") (simp add: eq)
    next
      case True
      from read_stream_ok [OF env ok(2) ok(3), of stats] assms(3) obtain y t where
        y: "read_stream env stats s = Some (y, t)" "conn_step_ok y s t" by auto
      note two = conn_step_ok_trans [OF one y(2)]
      have reg: "conn_step_ok (Inr ()) (c, n) (fst t, register_conn_change env (RemovalByToken (conn_token (fst t))) (snd t))"
        using register_ok [OF env conn_step_okD(2) [OF two], of "RemovalByToken (conn_token (fst t))" "snd t"]
        by (intro conn_step_ok_trans [OF two, of "Inr ()"]) simp
      show ?thesis
      proof (cases y)
        case e: (Inl e)
        with Inr True y(1) two fail [of e t] show ?thesis by (simp add: eq)
      next
        case b: (Inr still_open)
        with Inr True y(1) stop [OF two] reg show ?thesis
          by (cases "backstop env events t"; cases still_open) (simp_all add: eq)
      qed
    qed
  qed
qed

section \<open>All connections\<close>

text \<open>What happens to a connection while sockets are served, and to the rest of the node.\<close>

definition conn_kept :: "'ns connection \<Rightarrow> 'ns connection \<Rightarrow> bool" where
  "conn_kept c c' \<longleftrightarrow> local_id (c_remote_peer c') = local_id (c_remote_peer c) \<and>
     addr (c_remote_peer c') = addr (c_remote_peer c) \<and> peer_type (c_remote_peer c') = peer_type (c_remote_peer c) \<and>
     (is_post_handshake c \<longrightarrow> is_post_handshake c') \<and> ll_ok (c_low_level c')"

definition node_kept :: "('ns, 'kv) p2p_node \<Rightarrow> ('ns, 'kv) p2p_node \<Rightarrow> bool" where
  "node_kept n n' \<longleftrightarrow> connections n' = connections n \<and> conn_candidates n' = conn_candidates n \<and>
     next_token n' = next_token n \<and> soft_bans n' = soft_bans n \<and> self_peer n' = self_peer n \<and>
     n_config n' = n_config n \<and> given_addresses n' = given_addresses n \<and> n_peers n' = n_peers n \<and>
     n_throughput n' = n_throughput n \<and> n_kvs n' = n_kvs n \<and> n_regenesis n' = n_regenesis n \<and>
     (buckets_inv (n_buckets n) \<longrightarrow> buckets_inv (n_buckets n'))"

lemma node_kept_trans: "node_kept a b \<Longrightarrow> node_kept b c \<Longrightarrow> node_kept a c"
  by (simp add: node_kept_def)

lemma conn_step_ok_kept:
  assumes "conn_step_ok r (c, n) (c', n')"
  shows "conn_kept c c'" "node_kept n n'" "changes_by (c, n) (c', n')"
  using assms by (auto simp: conn_step_ok_def conn_kept_def node_kept_def handler_frame_def handler_safe_def
      is_post_handshake_def)

text \<open>The requests that connections add: a promotion is for a connection of the list after its
  handshake.\<close>

definition changes_from :: "'ns connection list \<Rightarrow> ('ns, 'kv) p2p_node \<Rightarrow> ('ns, 'kv) p2p_node \<Rightarrow> bool" where
  "changes_from cs n n' \<longleftrightarrow> (\<exists>new. changes n' = changes n @ new \<and>
     (\<forall>tok. Promotion tok \<in> set new \<longrightarrow> (\<exists>c \<in> set cs. tok = conn_token c \<and> is_post_handshake c)))"

lemma process_connections_ok:
  assumes "env_ok env" "\<forall>c \<in> set (hm_values cs). ll_ok (c_low_level c)" "buckets_inv (n_buckets n)"
  shows "\<exists>cs' n'. process_connections env events stats cs n = Some (Inr (), cs', n') \<and>
    list_all2 (\<lambda>(t, c) (t', c'). t' = t \<and> conn_kept c c') cs cs' \<and> node_kept n n' \<and>
    changes_from (hm_values cs') n n'"
  using assms(2,3)
proof (induction cs arbitrary: n)
  case Nil
  then show ?case by (simp add: node_kept_def changes_from_def)
next
  case (Cons tc cs)
  obtain t c where tc: "tc = (t, c)" by fastforce
  from process_connection_ok [OF assms(1), of c n events stats] Cons.prems tc obtain c' n1 where
    p: "process_connection env events stats (c, n) = Some (Inr (), c', n1)" and
    step: "conn_step_ok (Inr ()) (c, n) (c', n1)" by auto
  note kept = conn_step_ok_kept [OF step]
  from kept(2) Cons.prems have "buckets_inv (n_buckets n1)" by (simp add: node_kept_def)
  with Cons.IH [of n1] Cons.prems obtain cs' n' where
    q: "process_connections env events stats cs n1 = Some (Inr (), cs', n')"
    and rest: "list_all2 (\<lambda>(t, c) (t', c'). t' = t \<and> conn_kept c c') cs cs'" "node_kept n1 n'"
      "changes_from (hm_values cs') n1 n'" by auto
  from kept(3) obtain x where x: "changes n1 = changes n @ x"
    "\<forall>tok. Promotion tok \<in> set x \<longrightarrow> tok = conn_token c' \<and> is_post_handshake c'" by (auto simp: changes_by_def)
  from rest(3) obtain y where y: "changes n' = changes n1 @ y"
    "\<forall>tok. Promotion tok \<in> set y \<longrightarrow> (\<exists>c \<in> set (hm_values cs'). tok = conn_token c \<and> is_post_handshake c)"
    by (auto simp: changes_from_def)
  have "changes_from (c' # hm_values cs') n n'"
    unfolding changes_from_def using x y by (intro exI [of _ "x @ y"]) auto
  with p q tc kept rest node_kept_trans [OF kept(2) rest(2)] show ?case by simp
qed

end
