(* ===== verification/Node_Invariant.thy ===== *)
theory Node_Invariant
  imports Maintenance Handler_Safety
begin

text \<open>
  The invariant of a node and the operations of the poll thread that keep it: every connection is
  stored under its own token, no token is used twice, every connection that is no longer a candidate
  has completed its handshake, and the buckets and the catch-up list are consistent.  From it follows
  that no operation of the poll thread panics.
\<close>

section \<open>The invariant\<close>

definition collections_inv :: "'ns connections \<Rightarrow> 'ns connections \<Rightarrow> conn_change list \<Rightarrow> usize \<Rightarrow> bool" where
  "collections_inv cands conns chs next \<longleftrightarrow> hm_wf (cands @ conns) \<and>
     (\<forall>t c. (t, c) \<in> set cands \<union> set conns \<longrightarrow> conn_token c = t \<and> token_val t < next \<and> ll_ok (c_low_level c)) \<and>
     (\<forall>t c. (t, c) \<in> set conns \<longrightarrow> is_post_handshake c) \<and>
     (\<forall>t. Promotion t \<in> set chs \<longrightarrow> token_val t < next \<and> (\<forall>c. (t, c) \<in> set cands \<longrightarrow> is_post_handshake c))"

definition config_inv :: "node_config \<Rightarrow> bool" where
  "config_inv nc \<longleftrightarrow> 4096 \<le> nc_socket_read_size nc \<and> nc_socket_write_size nc \<le> nc_socket_read_size nc"

definition node_inv :: "('ns, 'kv) p2p_node \<Rightarrow> bool" where
  "node_inv n \<longleftrightarrow> collections_inv (conn_candidates n) (connections n) (changes n) (next_token n) \<and>
     buckets_inv (n_buckets n) \<and> peer_list_inv (n_peers n) \<and> config_inv (n_config n) \<and>
     - (2 ^ 63) \<le> tp_timestamp (n_throughput n) \<and> tp_timestamp (n_throughput n) < 2 ^ 63"

text \<open>An operation on the node outside the sockets: it does not panic, keeps the invariant, leaves the
  requested changes alone, and uses at most \<open>k\<close> tokens.\<close>

definition op_ok :: "nat \<Rightarrow> 'a result \<Rightarrow> ('ns, 'kv) p2p_node \<Rightarrow> ('ns, 'kv) p2p_node \<Rightarrow> bool" where
  "op_ok k r n n' \<longleftrightarrow> no_panic r \<and> node_inv n' \<and> unat (next_token n') \<le> unat (next_token n) + k \<and>
     conn_changes n' = conn_changes n \<and> length (given_addresses n') \<le> length (given_addresses n) + k"

definition tokens_left :: "nat \<Rightarrow> ('ns, 'kv) p2p_node \<Rightarrow> bool" where
  "tokens_left k n \<longleftrightarrow> unat (next_token n) + k < 2 ^ 64"

lemma op_okD:
  assumes "op_ok k r n n'"
  shows "no_panic r" "node_inv n'" "conn_changes n' = conn_changes n"
    "length (given_addresses n') \<le> length (given_addresses n) + k"
    "tokens_left (k + j) n \<Longrightarrow> tokens_left j n'"
  using assms by (auto simp: op_ok_def tokens_left_def)

lemma op_ok_trans: "op_ok j r n n1 \<Longrightarrow> op_ok k q n1 n2 \<Longrightarrow> op_ok (j + k) q n n2"
  by (auto simp: op_ok_def)

lemma op_ok_mono: "op_ok j r n n' \<Longrightarrow> j \<le> k \<Longrightarrow> op_ok k r n n'"
  by (auto simp: op_ok_def)

lemma op_ok_result: "op_ok k r n n' \<Longrightarrow> no_panic q \<Longrightarrow> op_ok k q n n'"
  by (auto simp: op_ok_def)

lemma op_ok_refl: "node_inv n \<Longrightarrow> no_panic r \<Longrightarrow> op_ok k r n n"
  by (simp add: op_ok_def)

text \<open>Changes of other fields.\<close>

lemma node_inv_simps [simp]:
  "node_inv (log_metrics l n) = node_inv n" "node_inv (bump_last_peer_update env n) = node_inv n"
  "node_inv (n\<lparr>soft_bans := x\<rparr>) = node_inv n" "node_inv (n\<lparr>n_kvs := kv\<rparr>) = node_inv n"
  "node_inv (n\<lparr>given_addresses := g\<rparr>) = node_inv n" "node_inv (n\<lparr>n_bad_events := e\<rparr>) = node_inv n"
  "node_inv (n\<lparr>n_regenesis := rg\<rparr>) = node_inv n" "node_inv (n\<lparr>callback_queue := q\<rparr>) = node_inv n"
  by (simp_all add: node_inv_def log_metrics_def bump_last_peer_update_def)

lemma node_fields_simps [simp]:
  "next_token (log_metrics l n) = next_token n" "next_token (bump_last_peer_update env n) = next_token n"
  "conn_changes (log_metrics l n) = conn_changes n" "conn_changes (bump_last_peer_update env n) = conn_changes n"
  "given_addresses (log_metrics l n) = given_addresses n"
  "given_addresses (bump_last_peer_update env n) = given_addresses n"
  "connections (log_metrics l n) = connections n" "conn_candidates (log_metrics l n) = conn_candidates n"
  "connections (bump_last_peer_update env n) = connections n"
  "conn_candidates (bump_last_peer_update env n) = conn_candidates n"
  "n_config (log_metrics l n) = n_config n" "self_peer (log_metrics l n) = self_peer n"
  by (simp_all add: log_metrics_def bump_last_peer_update_def)

lemma kvs_update_ok:
  assumes "env_ok env" "node_inv n" "no_panic act" "kvs_update env msg store act n = (r, n')"
  shows "op_ok k r n n'"
proof -
  have "no_panic r \<and> (\<exists>kv. n' = n\<lparr>n_kvs := kv\<rparr>)"
    using assms(3,4) env_okD(9) [OF assms(1), of store "n_kvs n"] env_okD(10) [OF assms(1), of store _ "n_kvs n"]
    by (auto simp: kvs_update_def no_panic_def intro: exI [of _ "n_kvs n"]
        split: if_splits sum.splits prod.splits) (metis fst_conv)+
  with assms(2) show ?thesis by (auto simp: op_ok_def)
qed

lemma log_error_ok: "op_ok k r n n' \<Longrightarrow> log_error (r, n') = (Inr (), n')"
  by (auto simp: log_error_def op_ok_def no_panic_def split: sum.split rust_error.split)

lemma persisted_ok:
  assumes "env_ok env" "node_inv n"
  shows "\<exists>n'. log_error (persist_peer env a n) = (Inr (), n') \<and> op_ok 0 (Inr ()) n n'"
    and "\<exists>n'. log_error (remove_persisted_peer env a n) = (Inr (), n') \<and> op_ok 0 (Inr ()) n n'"
proof -
  have act: "no_panic (case e_addr_to_json env a of Inl e \<Rightarrow> Inl e | Inr buf \<Rightarrow> Inr (f buf))" for f :: "bytes \<Rightarrow> kv_action"
    using env_okD(8) [OF assms(1)] by simp
  have upd: "\<exists>n'. log_error (kvs_update env msg store act n) = (Inr (), n') \<and> op_ok 0 (Inr ()) n n'"
    if "no_panic act" for msg store act
    using kvs_update_ok [OF assms that] log_error_ok op_ok_result [of 0 _ n _ "Inr ()"]
    by (cases "kvs_update env msg store act n") fastforce
  show "\<exists>n'. log_error (persist_peer env a n) = (Inr (), n') \<and> op_ok 0 (Inr ()) n n'"
    and "\<exists>n'. log_error (remove_persisted_peer env a n) = (Inr (), n') \<and> op_ok 0 (Inr ()) n n'"
    unfolding persist_peer_def remove_persisted_peer_def by (rule upd [OF act])+
qed

lemma collections_invD:
  assumes "collections_inv cands conns chs next"
  shows "hm_wf cands" "hm_wf conns" "fst ` set cands \<inter> fst ` set conns = {}"
    "(t, c) \<in> set cands \<union> set conns \<Longrightarrow> conn_token c = t"
    "(t, c) \<in> set cands \<union> set conns \<Longrightarrow> token_val t < next"
    "(t, c) \<in> set cands \<union> set conns \<Longrightarrow> ll_ok (c_low_level c)"
    "(t, c) \<in> set conns \<Longrightarrow> is_post_handshake c"
    "Promotion t \<in> set chs \<Longrightarrow> token_val t < next"
    "Promotion t \<in> set chs \<Longrightarrow> (t, c) \<in> set cands \<Longrightarrow> is_post_handshake c"
proof -
  note parts = assms [unfolded collections_inv_def]
  show "hm_wf cands" "hm_wf conns" "fst ` set cands \<inter> fst ` set conns = {}"
    using parts [THEN conjunct1] by auto
  show "(t, c) \<in> set cands \<union> set conns \<Longrightarrow> conn_token c = t" "(t, c) \<in> set cands \<union> set conns \<Longrightarrow> token_val t < next"
    "(t, c) \<in> set cands \<union> set conns \<Longrightarrow> ll_ok (c_low_level c)"
    using parts [THEN conjunct2, THEN conjunct1] by auto
  show "(t, c) \<in> set conns \<Longrightarrow> is_post_handshake c"
    using parts [THEN conjunct2, THEN conjunct2, THEN conjunct1] by auto
  show "Promotion t \<in> set chs \<Longrightarrow> token_val t < next"
    "Promotion t \<in> set chs \<Longrightarrow> (t, c) \<in> set cands \<Longrightarrow> is_post_handshake c"
    using parts [THEN conjunct2, THEN conjunct2, THEN conjunct2] by auto
qed

lemma collections_invI:
  assumes "hm_wf cands" "hm_wf conns" "fst ` set cands \<inter> fst ` set conns = {}"
    and "\<And>t c. (t, c) \<in> set cands \<union> set conns \<Longrightarrow>
      conn_token c = t \<and> token_val t < next \<and> ll_ok (c_low_level c)"
    and "\<And>t c. (t, c) \<in> set conns \<Longrightarrow> is_post_handshake c"
    and "\<And>t. Promotion t \<in> set chs \<Longrightarrow> token_val t < next"
    and "\<And>t c. Promotion t \<in> set chs \<Longrightarrow> (t, c) \<in> set cands \<Longrightarrow> is_post_handshake c"
  shows "collections_inv cands conns chs next"
  unfolding collections_inv_def using assms by auto

section \<open>Statistics\<close>

lemma get_peer_stats_total:
  assumes "node_inv n"
  shows "\<exists>ss. get_peer_stats pt n = Inr ss"
proof -
  have "collect_results (map connection_peer_stats cs) \<noteq> Inl e" if "\<forall>c \<in> set cs. is_post_handshake c"
    for e and cs :: "'a connection list"
    using that by (induction cs) (auto simp: connection_peer_stats_def is_post_handshake_def split: sum.splits option.splits)
  moreover have "\<forall>c \<in> set (hm_values (connections n)). is_post_handshake c"
    using assms by (auto simp: node_inv_def collections_inv_def)
  then have "\<forall>c \<in> set (filter P (hm_values (connections n))). is_post_handshake c" for P by auto
  ultimately have "get_peer_stats pt n \<noteq> Inl e" for e unfolding get_peer_stats_def by blast
  then show ?thesis by (cases "get_peer_stats pt n") auto
qed

section \<open>New connections\<close>

lemma update_new: "k \<notin> fst ` set m \<Longrightarrow> AList.update k v m = m @ [(k, v)]"
  by (induction m) auto

lemma next_token_less:
  assumes "tokens_left 1 n"
  shows "next_token n < next_token n + 1" "t < next_token n \<Longrightarrow> t < next_token n + 1"
    "unat (next_token n + 1) = unat (next_token n) + 1"
proof -
  show u: "unat (next_token n + 1) = unat (next_token n) + 1"
    using assms by (simp add: tokens_left_def unat_word_ariths)
  show "next_token n < next_token n + 1" by (simp add: word_less_nat_alt u)
  show "t < next_token n \<Longrightarrow> t < next_token n + 1" by (simp add: word_less_nat_alt u)
qed

lemma collections_inv_mono:
  "collections_inv cands conns chs next \<Longrightarrow> next \<le> next' \<Longrightarrow> collections_inv cands conns chs next'"
  unfolding collections_inv_def by (fast intro: order.strict_trans2)

lemma collections_inv_add:
  assumes "collections_inv cands conns chs next" "conn_token c = Token next" "ll_ok (c_low_level c)" "next < next'"
  shows "collections_inv (hm_insert (conn_token c) c cands) conns chs next'"
proof -
  note inv = collections_invD [OF assms(1)]
  have fresh: "Token next \<notin> fst ` set cands" "Token next \<notin> fst ` set conns" "Promotion (Token next) \<notin> set chs"
    using inv(5) [of "Token next"] inv(8) [of "Token next"] by fastforce+
  have less: "(t, d) \<in> set cands \<union> set conns \<Longrightarrow> token_val t < next'" "Promotion t \<in> set chs \<Longrightarrow> token_val t < next'" for t d
    using inv(5) [of t d] inv(8) [of t] assms(4) by (auto elim: order.strict_trans)
  have new: "hm_insert (conn_token c) c cands = cands @ [(Token next, c)]"
    using fresh(1) by (simp add: assms(2) update_new)
  show ?thesis
    unfolding new
  proof (rule collections_invI)
    show "conn_token d = t \<and> token_val t < next' \<and> ll_ok (c_low_level d)"
      if "(t, d) \<in> set (cands @ [(Token next, c)]) \<union> set conns" for t d
      using that inv(4,6) [of t d] less(1) [of t d] assms(2-4) by auto
    show "is_post_handshake d" if "Promotion t \<in> set chs" "(t, d) \<in> set (cands @ [(Token next, c)])" for t d
      using that inv(9) [of t d] fresh(3) by auto
  qed (use inv(1,2,3,7) less(2) fresh in auto)
qed

lemma node_inv_use_token:
  "node_inv n \<Longrightarrow> tokens_left 1 n \<Longrightarrow> node_inv (n\<lparr>next_token := next_token n + 1\<rparr>)"
  using next_token_less(1) [of n] by (auto simp: node_inv_def intro: collections_inv_mono)

lemma node_inv_add_candidate:
  assumes "node_inv n" "tokens_left 1 n" "conn_token c = Token (next_token n)" "ll_ok (c_low_level c)"
  shows "node_inv (n\<lparr>next_token := next_token n + 1, conn_candidates := hm_insert (conn_token c) c (conn_candidates n)\<rparr>)"
  using assms(1) collections_inv_add [OF _ assms(3,4) next_token_less(1) [OF assms(2)]]
  by (simp add: node_inv_def)

lemma connection_new_ok:
  assumes "env_ok env" "config_inv (n_config n)" "connection_new env n sock tok rp i = r"
  shows "no_panic r" "r = Inr c \<Longrightarrow> ll_ok (c_low_level c) \<and> c_remote_peer c = rp"
proof -
  show "no_panic r"
    using assms(3) env_okD(5) [OF assms(1), of tok]
    by (auto simp: connection_new_def Let_def no_panic_def split: sum.splits)
  show "r = Inr c \<Longrightarrow> ll_ok (c_low_level c) \<and> c_remote_peer c = rp"
    using assms(2,3) by (auto simp: connection_new_def config_inv_def Let_def intro: ll_ok_new split: sum.splits)
qed

lemma accept_ok:
  assumes "env_ok env" "node_inv n" "tokens_left 1 n" "accept env sock a n = (r, n')"
  shows "op_ok 1 (Inr ()) n n'"
proof -
  define m where "m = log_metrics [Metric_inc Connections_received] n"
  have m: "node_inv m" "tokens_left 1 m" "op_ok 1 (Inr ()) n m"
    using assms(2,3) by (simp_all add: m_def tokens_left_def op_ok_def)
  define m1 where "m1 = m\<lparr>next_token := next_token m + 1\<rparr>"
  define rp where "rp = \<lparr>self_id = None, addr = a, local_id = remote_peer_id_from_token (Token (next_token m)),
      external_port = sa_port a, peer_type = Node\<rparr>"
  obtain x where x: "connection_new env m1 sock (Token (next_token m)) rp False = x" by blast
  have cfg: "config_inv (n_config m1)" using m(1) by (simp add: m1_def node_inv_def)
  note new = connection_new_ok [OF assms(1) cfg x]
  have used: "op_ok 1 (Inr ()) n m1"
    using m(1,2) node_inv_use_token [OF m(1,2)] next_token_less(3) [OF m(2)]
    by (simp add: op_ok_def m1_def) (simp add: m_def)
  have added: "op_ok 1 (Inr ()) n (m1\<lparr>conn_candidates := hm_insert (conn_token c) c (conn_candidates m1)\<rparr>)"
    if "x = Inr c" for c
    using new(2) [OF that] node_inv_add_candidate [OF m(1,2), of c] next_token_less(3) [OF m(2)]
    by (simp add: op_ok_def m1_def rp_def conn_token_def) (simp add: m_def)
  have "n' = m \<or> n' = m1 \<or> (\<exists>c. x = Inr c \<and> n' = m1\<lparr>conn_candidates := hm_insert (conn_token c) c (conn_candidates m1)\<rparr>)"
    using assms(4) x unfolding accept_def m_def [symmetric] Let_def m1_def [symmetric] rp_def [symmetric]
    by (auto split: if_splits option.splits sum.splits)
  with m(3) used added show ?thesis by auto
qed

lemma max_peers_reached_total: "node_inv n \<Longrightarrow> \<exists>b. max_peers_reached pt respect n = Inr b"
  using get_peer_stats_total [of n "Some Node"] by (auto simp: max_peers_reached_def)

lemma op_ok_soft_ban: "op_ok k r n n' \<Longrightarrow> op_ok k r n (soft_ban env b secs n')"
  by (simp add: op_ok_def soft_ban_def)

lemma connect_ok:
  assumes "env_ok env" "node_inv n" "tokens_left 1 n" "connect env pt a i respect n = (r, n')"
  shows "op_ok 1 r n n'"
proof -
  obtain b where b: "max_peers_reached pt respect n = Inr b" using max_peers_reached_total [OF assms(2)] by blast
  define m where "m = log_metrics [Metric_inc Connections_received] n"
  have m: "node_inv m" "tokens_left 1 m" using assms(2,3) by (simp_all add: m_def tokens_left_def)
  define m1 where "m1 = m\<lparr>next_token := next_token m + 1\<rparr>"
  define rp where "rp = \<lparr>self_id = None, addr = a, local_id = remote_peer_id_from_token (Token (next_token m)),
      external_port = sa_port a, peer_type = pt\<rparr>"
  have cfg: "config_inv (n_config m1)" using m(1) by (simp add: m1_def node_inv_def)
  note new = connection_new_ok [OF assms(1) cfg refl]
  have used: "op_ok 1 q n m1" if "no_panic q" for q :: "unit result"
    using m(1,2) node_inv_use_token [OF m(1,2)] next_token_less(3) [OF m(2)] that
    by (simp add: op_ok_def m1_def) (simp add: m_def)
  have added: "op_ok 1 (Inr ()) n (m1\<lparr>conn_candidates := hm_insert (conn_token c) (c\<lparr>c_low_level := ll\<rparr>) (conn_candidates m1)\<rparr>)"
    if "c_remote_peer c = rp" "ll_ok ll" for c ll
    using that node_inv_add_candidate [OF m(1,2), of "c\<lparr>c_low_level := ll\<rparr>"] next_token_less(3) [OF m(2)]
    by (simp add: op_ok_def m1_def rp_def conn_token_def) (simp add: m_def)
  have dial: "no_panic (Inl e :: unit result)" if "e_dial env a = Inl e" for e
    using env_okD(6) [OF assms(1), of a] that by (auto dest: no_panic_Inl)
  have opened: "op_ok 1 q n n2"
    if "(case connection_new env m1 sock (Token (next_token m)) rp True of
           Inl e \<Rightarrow> (Inl e, m1)
         | Inr c \<Rightarrow>
             (case send_handshake_message_a (e_noise env) (c_low_level c) of
                (Inl e, ll) \<Rightarrow> (Inl e, m1)
              | (Inr _, ll) \<Rightarrow> (Inr (), m1\<lparr>conn_candidates :=
                   hm_insert (conn_token c) (c\<lparr>c_low_level := ll\<rparr>) (conn_candidates m1)\<rparr>))) = (q, n2)" for sock q n2
  proof (cases "connection_new env m1 sock (Token (next_token m)) rp True")
    case (Inl e)
    with that used new(1) [of sock "Token (next_token m)" rp True] show ?thesis by (auto dest: no_panic_Inl)
  next
    case (Inr c)
    with new(2) have c: "ll_ok (c_low_level c)" "c_remote_peer c = rp" by simp_all
    obtain y ll where y: "send_handshake_message_a (e_noise env) (c_low_level c) = (y, ll)" by fastforce
    have q: "quiet y (c_low_level c) ll"
      using send_xx_quiet [OF env_okD(1) [OF assms(1)]] y c(1) by (simp add: send_handshake_message_a_def ll_ok_def)
    with that Inr y used added [OF c(2) quiet_ok [OF q c(1)]] show ?thesis
      by (cases y) (auto simp: quiet_def dest: no_panic_Inl)
  qed
  have keep: "no_panic q \<Longrightarrow> op_ok 1 q n n" for q :: "unit result" by (rule op_ok_refl [OF assms(2)])
  have conflict: "no_panic (Inl e :: unit result)" if "connect_conflict one a cs = Some e" for one e and cs :: "'a connection list"
    using that by (induction one a cs rule: connect_conflict.induct) (auto split: if_splits)
  let ?cs = "hm_values (connections n) @ hm_values (conn_candidates n)"
  let ?one = "nc_disallow_multiple_peers_on_ip (n_config n)"
  show ?thesis
  proof (cases "b \<or> connect_conflict ?one a ?cs \<noteq> None")
    case True
    with assms(4) b keep conflict show ?thesis by (cases b) (auto simp: connect_def split: if_splits)
  next
    case False
    show ?thesis
    proof (cases "e_dial env a")
      case (Inl e)
      with assms(4) b False keep dial [OF Inl] show ?thesis
        by (auto simp: connect_def intro: op_ok_soft_ban split: if_splits)
    next
      case (Inr sock)
      with assms(4) b False keep opened [of sock r n'] show ?thesis
        unfolding connect_def m_def [symmetric] Let_def m1_def [symmetric] rp_def [symmetric]
        by (auto split: if_splits)
    qed
  qed
qed

lemma connect_given: "connect env pt a i respect n = (r, n') \<Longrightarrow> given_addresses n' = given_addresses n"
  by (auto simp: connect_def soft_ban_def Let_def split: sum.splits bool.splits if_splits option.splits prod.splits)

lemma log_error_connect:
  assumes "env_ok env" "node_inv n" "tokens_left 1 n"
  shows "\<exists>n'. log_error (connect env pt a i respect n) = (Inr (), n') \<and> op_ok 1 (Inr ()) n n'"
  using connect_ok [OF assms] log_error_ok op_ok_result [of 1 _ n _ "Inr ()"]
  by (cases "connect env pt a i respect n") fastforce

lemma connect_each_ok:
  assumes "env_ok env" "node_inv n" "tokens_left (length as) n"
  shows "\<exists>n'. connect_each env respect as n = (Inr (), n') \<and> op_ok (length as) (Inr ()) n n'"
  using assms(2,3)
proof (induction as arbitrary: n)
  case (Cons a as)
  have "tokens_left 1 n" using Cons.prems(2) by (simp add: tokens_left_def)
  from log_error_connect [OF assms(1) Cons.prems(1) this] obtain n1 where
    n1: "log_error (connect env Node a None respect n) = (Inr (), n1)" "op_ok 1 (Inr ()) n n1" by blast
  from Cons.IH [OF op_okD(2) [OF n1(2)] op_okD(5) [OF n1(2)]] Cons.prems(2) obtain n2 where
    "connect_each env respect as n1 = (Inr (), n2)" "op_ok (length as) (Inr ()) n1 n2" by auto
  with n1 op_ok_trans [OF n1(2)] show ?case by fastforce
qed (simp add: op_ok_refl)

lemma connect_new_peers_ok:
  assumes "env_ok env" "node_inv n" "tokens_left (length ps) n"
  shows "\<exists>n'. connect_new_peers env k cnt ps n = (Inr (), n') \<and> op_ok (length ps) (Inr ()) n n'"
  using assms(2,3)
proof (induction ps arbitrary: k n)
  case (Cons p ps)
  obtain r n1 where c: "connect env Node (pp_addr p) (Some (pp_id p)) True n = (r, n1)" by fastforce
  have "tokens_left 1 n" using Cons.prems(2) by (simp add: tokens_left_def)
  note ok = connect_ok [OF assms(1) Cons.prems(1) this c]
  have "\<exists>n'. connect_new_peers env k' cnt ps n1 = (Inr (), n') \<and> op_ok (length (p # ps)) (Inr ()) n n'" for k'
    using Cons.IH [OF op_okD(2) [OF ok] op_okD(5) [OF ok], of k'] Cons.prems(2) op_ok_trans [OF ok] by fastforce
  with c op_okD(1) [OF ok] Cons.prems(1) show ?case
    by (auto simp: op_ok_refl no_panic_def split: sum.splits rust_error.splits)
qed (simp add: op_ok_refl)

section \<open>Changes of connections\<close>

lemma collections_inv_subset:
  assumes "collections_inv cands conns chs next" "hm_wf cands'" "hm_wf conns'" "set cands' \<subseteq> set cands"
    "set conns' \<subseteq> set conns"
  shows "collections_inv cands' conns' chs next"
proof -
  note inv = collections_invD [OF assms(1)]
  show ?thesis
  proof (rule collections_invI [OF assms(2,3)])
    show "fst ` set cands' \<inter> fst ` set conns' = {}"
      using inv(3) image_mono [OF assms(4), of fst] image_mono [OF assms(5), of fst] by blast
    show "conn_token c = t \<and> token_val t < next \<and> ll_ok (c_low_level c)" if "(t, c) \<in> set cands' \<union> set conns'" for t c
      using that assms(4,5) inv(4,5,6) [of t c] by auto
    show "is_post_handshake c" if "(t, c) \<in> set conns'" for t c using that assms(5) inv(7) [of t c] by auto
    show "is_post_handshake c" if "Promotion t \<in> set chs" "(t, c) \<in> set cands'" for t c
      using that assms(4) inv(9) [of t c] by auto
  qed (rule inv(8))
qed

lemma collections_inv_changes:
  "collections_inv cands conns chs next \<Longrightarrow> set chs' \<subseteq> set chs \<Longrightarrow> collections_inv cands conns chs' next"
  by (auto simp: collections_inv_def)

lemma node_inv_subset:
  assumes "node_inv n" "hm_wf cands" "hm_wf conns" "set cands \<subseteq> set (conn_candidates n)" "set conns \<subseteq> set (connections n)"
  shows "node_inv (n\<lparr>conn_candidates := cands, connections := conns\<rparr>)"
  using assms(1) collections_inv_subset [OF _ assms(2-5)] by (simp add: node_inv_def)

lemma node_inv_wf:
  assumes "node_inv n"
  shows "hm_wf (conn_candidates n)" "hm_wf (connections n)"
  using assms collections_invD by (auto simp: node_inv_def)

lemma node_inv_remove:
  assumes "node_inv n"
  shows "node_inv (n\<lparr>conn_candidates := hm_remove t (conn_candidates n)\<rparr>)"
    "node_inv (n\<lparr>connections := hm_remove t (connections n)\<rparr>)"
    "node_inv (n\<lparr>conn_candidates := filter P (conn_candidates n)\<rparr>)"
    "node_inv (n\<lparr>connections := filter P (connections n)\<rparr>)"
  using node_inv_subset [OF assms, of "hm_remove t (conn_candidates n)" "connections n"]
    node_inv_subset [OF assms, of "conn_candidates n" "hm_remove t (connections n)"]
    node_inv_subset [OF assms, of "filter P (conn_candidates n)" "connections n"]
    node_inv_subset [OF assms, of "conn_candidates n" "filter P (connections n)"] node_inv_wf [OF assms]
  by (auto simp: set_delete)

lemma remove_connection_ok: "node_inv n \<Longrightarrow> remove_connection env tok n = (r, n') \<Longrightarrow> op_ok k (Inr ()) n n'"
  by (auto simp: remove_connection_def op_ok_def node_inv_remove split: option.splits)

lemma remove_loop_ok: "node_inv n \<Longrightarrow> remove_loop toks n = (b, ps, n') \<Longrightarrow> op_ok 0 (Inr ()) n n'"
proof (induction toks n arbitrary: b ps n' rule: remove_loop.induct)
  case (2 tok toks n)
  show ?case
  proof (cases "hm_get (conn_candidates n) tok")
    case (Some c)
    let ?n = "log_metrics (connection_drop c) (n\<lparr>conn_candidates := hm_remove tok (conn_candidates n)\<rparr>)"
    from "2.prems" Some obtain b1 ps1 where "remove_loop toks ?n = (b1, ps1, n')" by (auto split: prod.splits)
    from "2.IH"(3) [OF Some _ this] "2.prems"(1) have "op_ok 0 (Inr ()) ?n n'" by (simp add: node_inv_remove)
    then show ?thesis by (simp add: op_ok_def)
  next
    case None
    show ?thesis
    proof (cases "hm_get (connections n) tok")
      case (Some c)
      let ?n = "log_metrics (connection_drop c) (n\<lparr>connections := hm_remove tok (connections n)\<rparr>)"
      from "2.prems" None Some obtain b1 ps1 where "remove_loop toks ?n = (b1, ps1, n')" by (auto split: prod.splits)
      from "2.IH"(2) [OF None Some _ this] "2.prems"(1) have "op_ok 0 (Inr ()) ?n n'" by (simp add: node_inv_remove)
      then show ?thesis by (simp add: op_ok_def)
    next
      case n: None
      with "2.prems" "2.IH"(1) [OF None n] None show ?thesis by simp
    qed
  qed
qed (simp add: op_ok_refl)

lemma remove_connections_ok:
  "node_inv n \<Longrightarrow> remove_connections env toks n = (r, n') \<Longrightarrow> op_ok 0 (Inr ()) n n'"
  using remove_loop_ok [of n toks]
  by (auto simp: remove_connections_def Let_def op_ok_def split: prod.splits if_splits)

lemma remove_persisted_peers_ok:
  assumes "env_ok env" "node_inv n"
  shows "\<exists>n'. remove_persisted_peers env ps n = (Inr (), n') \<and> op_ok 0 (Inr ()) n n'"
  using assms(2)
proof (induction ps arbitrary: n)
  case (Cons p ps)
  from persisted_ok(2) [OF assms(1) Cons.prems, of "external_addr p"] obtain n1 where
    n1: "log_error (remove_persisted_peer env (external_addr p) n) = (Inr (), n1)" "op_ok 0 (Inr ()) n n1" by blast
  from Cons.IH [OF op_okD(2) [OF n1(2)]] n1 op_ok_trans [OF n1(2)] show ?case by fastforce
qed (simp add: op_ok_refl)

lemma promote_ok:
  assumes "env_ok env" "node_inv n" "\<And>c. (tok, c) \<in> set (conn_candidates n) \<Longrightarrow> is_post_handshake c"
  shows "\<exists>n'. promote env tok n = (Inr (), n') \<and> op_ok 0 (Inr ()) n n'"
proof (cases "hm_get (conn_candidates n) tok")
  case None
  with assms(2) show ?thesis by (simp add: promote_def op_ok_refl)
next
  case (Some c)
  then have mem: "(tok, c) \<in> set (conn_candidates n)" by (rule map_of_SomeD)
  let ?n1 = "n\<lparr>conn_candidates := hm_remove tok (conn_candidates n)\<rparr>"
  define n2 where "n2 = bump_last_peer_update env (?n1\<lparr>connections := hm_insert (conn_token c) c (connections ?n1)\<rparr>)"
  have inv: "collections_inv (conn_candidates n) (connections n) (changes n) (next_token n)"
    using assms(2) by (simp add: node_inv_def)
  note invD = collections_invD [OF inv]
  have tok: "conn_token c = tok" using invD(4) [of tok c] mem by simp
  have new: "tok \<notin> fst ` set (connections n)" using invD(3) mem by force
  have "collections_inv (hm_remove tok (conn_candidates n)) (connections n @ [(tok, c)]) (changes n) (next_token n)"
  proof (rule collections_invI)
    show "is_post_handshake d" if "(t, d) \<in> set (connections n @ [(tok, c)])" for t d
      using that invD(7) [of t d] assms(3) [OF mem] by auto
    show "conn_token d = t \<and> token_val t < next_token n \<and> ll_ok (c_low_level d)"
      if "(t, d) \<in> set (hm_remove tok (conn_candidates n)) \<union> set (connections n @ [(tok, c)])" for t d
      using that invD(4,5,6) [of t d] invD(5,6) [of tok c] mem tok by (auto simp: set_delete)
    show "is_post_handshake d" if "Promotion t \<in> set (changes n)" "(t, d) \<in> set (hm_remove tok (conn_candidates n))" for t d
      using that invD(9) [of t d] by (simp add: set_delete)
    show "fst ` set (hm_remove tok (conn_candidates n)) \<inter> fst ` set (connections n @ [(tok, c)]) = {}"
      using invD(3) new by (auto simp: set_delete)
  qed (use invD(1,2,8) new in simp_all)
  then have "op_ok 0 (Inr ()) n n2"
    using assms(2) new by (simp add: n2_def op_ok_def node_inv_def tok update_new bump_last_peer_update_def)
  moreover from persisted_ok(1) [OF assms(1) op_okD(2) [OF this]] obtain n3 where
    "log_error (persist_peer env (external_addr (c_remote_peer c)) n2) = (Inr (), n3)" "op_ok 0 (Inr ()) n2 n3" by blast
  moreover have "op_ok 0 (Inr ()) n (log_metrics l ?n1)" for l
    using assms(2) by (simp add: op_ok_def node_inv_remove)
  ultimately show ?thesis
    using op_ok_trans [of 0 "Inr ()" n n2 0 "Inr ()" n3] Some
    by (simp add: promote_def Let_def) (simp add: n2_def)
qed

primrec change_cost :: "conn_change \<Rightarrow> nat" where
  "change_cost (NewConn a pt given) = 1"
| "change_cost (NewPeers ps) = length ps"
| "change_cost (Promotion t) = 0"
| "change_cost (ExpulsionByToken t) = 0"
| "change_cost (RemovalByToken t) = 0"
| "change_cost (RemoveAllByTokens ts) = 0"

lemma process_conn_change_ok:
  assumes "env_ok env" "node_inv n" "tokens_left (change_cost ch) n"
    and "\<And>tok c. ch = Promotion tok \<Longrightarrow> (tok, c) \<in> set (conn_candidates n) \<Longrightarrow> is_post_handshake c"
  shows "\<exists>n'. process_conn_change env ch n = (Inr (), n') \<and> op_ok (change_cost ch) (Inr ()) n n'"
proof (cases ch)
  case (NewConn a pt given)
  obtain r n1 where c: "connect env pt a None (\<not> given) n = (r, n1)" by fastforce
  have ok: "op_ok 1 r n n1" using connect_ok [OF assms(1,2) _ c] assms(3) NewConn by simp
  then have "op_ok 1 (Inr ()) n (n1\<lparr>given_addresses := hs_insert a (given_addresses n1)\<rparr>)"
    using connect_given [OF c] length_hs_insert [of a "given_addresses n"] by (simp add: op_ok_def)
  with c NewConn ok show ?thesis
    by (auto simp: process_conn_change_def no_panic_def op_ok_def split: sum.splits rust_error.splits)
next
  case (NewPeers ps)
  from get_peer_stats_total [OF assms(2)] obtain ss where "get_peer_stats (Some Node) n = Inr ss" by blast
  moreover have "length (e_shuffle env ps) = length ps"
    using env_okD(13) [OF assms(1), of ps] by (metis size_mset)
  ultimately show ?thesis
    using connect_new_peers_ok [OF assms(1,2), of "e_shuffle env ps" 0 "length ss"] assms(3) NewPeers
    by (simp add: process_conn_change_def)
next
  case (Promotion tok)
  with promote_ok [OF assms(1,2)] assms(4) show ?thesis by (simp add: process_conn_change_def)
next
  case (ExpulsionByToken tok)
  obtain r n1 where r: "remove_connection env tok n = (r, n1)" by fastforce
  note ok = remove_connection_ok [OF assms(2) r, of 0]
  have "op_ok 0 (Inr ()) n (soft_ban env b secs n1)" for b secs using op_ok_soft_ban [OF ok] .
  with persisted_ok(2) [OF assms(1) op_okD(2) [OF this]] op_ok_trans [OF this] ok r ExpulsionByToken show ?thesis
    by (fastforce simp: process_conn_change_def Let_def split: option.splits)
next
  case (RemovalByToken tok)
  obtain r n1 where r: "remove_connection env tok n = (r, n1)" by fastforce
  note ok = remove_connection_ok [OF assms(2) r, of 0]
  with persisted_ok(2) [OF assms(1) op_okD(2) [OF ok]] op_ok_trans [OF ok] r RemovalByToken show ?thesis
    by (fastforce simp: process_conn_change_def Let_def split: option.splits)
next
  case (RemoveAllByTokens toks)
  obtain b ps n1 where r: "remove_connections env toks n = ((b, ps), n1)" by (metis prod.collapse)
  note ok = remove_connections_ok [OF assms(2) r]
  with remove_persisted_peers_ok [OF assms(1) op_okD(2) [OF ok], of ps] op_ok_trans [OF ok] r RemoveAllByTokens
  show ?thesis by (fastforce simp: process_conn_change_def Let_def)
qed

text \<open>The loop over the requested changes ends, with all of them carried out.\<close>

abbreviation changes_cost :: "('ns, 'kv) p2p_node \<Rightarrow> nat" where
  "changes_cost n \<equiv> sum_list (map change_cost (changes n))"

definition run_ok :: "nat \<Rightarrow> ('ns, 'kv) p2p_node \<Rightarrow> ('ns, 'kv) p2p_node \<Rightarrow> bool" where
  "run_ok k n n' \<longleftrightarrow> node_inv n' \<and> unat (next_token n') \<le> unat (next_token n) + k \<and>
     length (given_addresses n') \<le> length (given_addresses n) + k"

lemma run_ok_trans: "run_ok j n n1 \<Longrightarrow> run_ok k n1 n2 \<Longrightarrow> run_ok (j + k) n n2"
  by (auto simp: run_ok_def)

lemma op_ok_run: "op_ok k r n n' \<Longrightarrow> run_ok k n n'"
  by (simp add: op_ok_def run_ok_def)

lemma run_ok_tokens: "run_ok j n n' \<Longrightarrow> tokens_left (j + k) n \<Longrightarrow> tokens_left k n'"
  by (auto simp: run_ok_def tokens_left_def)

lemma process_conn_changes_ok:
  assumes "\<And>i. env_ok (envs i)" "node_inv n" "tokens_left (changes_cost n) n"
  shows "\<exists>n'. process_conn_changes envs i n = Some (Inr (), n') \<and> changes n' = [] \<and> run_ok (changes_cost n) n n'"
  using assms(2,3)
proof (induction "changes n" arbitrary: i n)
  case Nil
  then have "chan_try_recv (e_changes (envs i)) (conn_changes n) = (None, conn_changes n)"
    by (simp add: channel_lawful_recv [OF env_okD(2) [OF assms(1)]])
  with Nil show ?case by (simp add: process_conn_changes.simps [of envs i n] run_ok_def)
next
  case (Cons ch chs)
  let ?n = "n\<lparr>conn_changes := (conn_changes n)\<lparr>chan_items := chs\<rparr>\<rparr>"
  have recv: "chan_try_recv (e_changes (envs i)) (conn_changes n) = (Some ch, (conn_changes n)\<lparr>chan_items := chs\<rparr>)"
    using Cons.hyps(2) [symmetric] by (simp add: channel_lawful_recv [OF env_okD(2) [OF assms(1)]])
  have cost: "changes_cost n = change_cost ch + sum_list (map change_cost chs)"
    using Cons.hyps(2) [symmetric] by simp
  have inv: "node_inv ?n"
    using Cons.prems(1) Cons.hyps(2) [symmetric] by (auto simp: node_inv_def intro: collections_inv_changes)
  have "tokens_left (change_cost ch) ?n" using Cons.prems(2) cost by (simp add: tokens_left_def)
  moreover have "is_post_handshake c" if "ch = Promotion tok" "(tok, c) \<in> set (conn_candidates ?n)" for tok c
    using collections_invD(9) [of "conn_candidates n" "connections n" "changes n" "next_token n" tok c]
      Cons.prems(1) Cons.hyps(2) [symmetric] that by (simp add: node_inv_def)
  ultimately obtain n1 where n1: "process_conn_change (envs i) ch ?n = (Inr (), n1)"
    "op_ok (change_cost ch) (Inr ()) ?n n1"
    using process_conn_change_ok [OF assms(1) inv] by blast
  have ch1: "changes n1 = chs" using op_okD(3) [OF n1(2)] by simp
  have run1: "run_ok (change_cost ch) n n1" using op_ok_run [OF n1(2)] by (simp add: run_ok_def)
  have "tokens_left (changes_cost n1) n1"
    using run_ok_tokens [OF run1] Cons.prems(2) by (simp add: ch1 cost)
  with Cons.hyps(1) [of n1 "Suc i"] op_okD(2) [OF n1(2)] ch1 obtain n2 where
    "process_conn_changes envs (Suc i) n1 = Some (Inr (), n2)" "changes n2 = []" "run_ok (sum_list (map change_cost chs)) n1 n2"
    by auto
  with recv n1(1) run_ok_trans [OF run1] cost show ?case
    by (auto simp: process_conn_changes.simps [of envs i n])
qed

lemma accept_loop_ok:
  assumes "\<forall>(ev, env) \<in> set evs. env_ok env" "node_inv n" "tokens_left (length evs) n" "accept_loop m k evs n = (b, j, n')"
  shows "op_ok (length evs) (Inr ()) n n'"
  using assms
proof (induction evs arbitrary: k n b j n')
  case Nil
  then show ?case by (auto simp: op_ok_refl)
next
  case (Cons e evs)
  obtain ev env where e: "e = (ev, env)" by fastforce
  have env: "env_ok env" and rest: "\<forall>(ev, env) \<in> set evs. env_ok env" using Cons.prems(1) e by auto
  have t1: "tokens_left 1 n" "tokens_left (length evs) n" using Cons.prems(3) by (auto simp: tokens_left_def)
  show ?case
  proof (cases "k < m")
    case False
    with Cons.prems e show ?thesis by (auto simp: op_ok_refl)
  next
    case True
    show ?thesis
    proof (cases ev)
      case (Accepted sock a)
      obtain r n1 where r: "accept env sock a n = (r, n1)" by fastforce
      note ok = accept_ok [OF env Cons.prems(2) t1(1) r]
      have t2: "tokens_left (length evs) n1" using op_okD(5) [OF ok, of "length evs"] Cons.prems(3) by simp
      have "n' = n1 \<or> (\<exists>b j. accept_loop m (k + 1) evs n1 = (b, j, n'))"
        using Cons.prems(4) True Accepted r e by (auto split: sum.splits accept_failure.splits)
      with Cons.IH [OF rest op_okD(2) [OF ok] t2] op_ok_trans [OF ok] op_ok_mono [OF ok, of "length (e # evs)"]
      show ?thesis by fastforce
    next
      case Would_block
      with Cons.prems True e show ?thesis by (auto simp: op_ok_refl)
    next
      case (Listen_error x)
      with Cons.prems(4) True e have "accept_loop m (k + 1) evs n = (b, j, n')" by simp
      from Cons.IH [OF rest Cons.prems(2) t1(2) this] show ?thesis by (auto intro: op_ok_mono)
    qed
  qed
qed

lemma register_run_ok:
  assumes "env_ok env" "node_inv n" "\<And>tok. ch \<noteq> Promotion tok"
  shows "run_ok 0 n (register_conn_change env ch n) \<and> n_peers (register_conn_change env ch n) = n_peers n"
proof -
  let ?n = "register_conn_change env ch n"
  from register_changes [OF assms(1), of ch n] obtain new where "changes ?n = changes n @ new" "set new \<subseteq> {ch}" by blast
  then have "collections_inv (conn_candidates n) (connections n) (changes ?n) (next_token n)"
    using assms(2,3) by (auto simp: node_inv_def collections_inv_def)
  with assms(2) show ?thesis by (simp add: run_ok_def node_inv_def register_conn_change_def)
qed

section \<open>Sending\<close>

lemma node_inv_map_conns:
  assumes "node_inv n" "\<And>c. c_remote_peer (f c) = c_remote_peer c \<and> c_low_level (f c) = c_low_level c"
  shows "node_inv (n\<lparr>connections := map (\<lambda>(t, c). (t, f c)) (connections n)\<rparr>)"
proof -
  have keys: "map fst (map (\<lambda>(t, c). (t, f c)) (connections n)) = map fst (connections n)" by auto
  have keys': "fst ` set (map (\<lambda>(t, c). (t, f c)) (connections n)) = fst ` set (connections n)" by force
  have "collections_inv (conn_candidates n) (connections n) (changes n) (next_token n)"
    using assms(1) by (simp add: node_inv_def)
  note inv = collections_invD [OF this]
  have f: "conn_token (f c) = conn_token c" "is_post_handshake (f c) = is_post_handshake c" for c
    using assms(2) [of c] by (simp_all add: conn_token_def is_post_handshake_def)
  have "collections_inv (conn_candidates n) (map (\<lambda>(t, c). (t, f c)) (connections n)) (changes n) (next_token n)"
  proof (rule collections_invI)
    show "conn_token d = t \<and> token_val t < next_token n \<and> ll_ok (c_low_level d)"
      if "(t, d) \<in> set (conn_candidates n) \<union> set (map (\<lambda>(t, c). (t, f c)) (connections n))" for t d
      using that inv(4,5,6) [of t] assms(2) by (auto simp: f)
    show "is_post_handshake d" if "(t, d) \<in> set (map (\<lambda>(t, c). (t, f c)) (connections n))" for t d
      using that inv(7) by (auto simp: f)
  qed (use inv(1-3,8,9) keys keys' in auto)
  with assms(1) show ?thesis by (simp add: node_inv_def)
qed

lemma send_over_all_ok:
  "node_inv n \<Longrightarrow> send_over_all_connections bs flt n = (k, n') \<Longrightarrow> op_ok 0 (Inr ()) n n' \<and> n_peers n' = n_peers n"
  using node_inv_map_conns [of n "\<lambda>c. if flt c then async_send bs Normal c else c"]
  by (auto simp: send_over_all_connections_def op_ok_def async_send_def)

lemma get_node_peer_tokens_total: "node_inv n \<Longrightarrow> \<exists>ids. get_node_peer_tokens n = Inr ids"
  using get_peer_stats_total [of n "Some Node"] by (auto simp: get_node_peer_tokens_def)

lemma send_message_ok:
  assumes "node_inv n"
  shows "\<exists>sent n'. send_message_over_network env target dont i msg n = (Inr sent, n') \<and> op_ok 0 (Inr ()) n n' \<and>
    n_peers n' = n_peers n"
proof -
  define pkt where "pkt = \<lparr>destination = (case target of Some t \<Rightarrow> Direct t | None \<Rightarrow> Broadcast dont),
    packet_network_id = i, message = msg\<rparr>"
  obtain ids where ids: "get_node_peer_tokens n = Inr ids" using get_node_peer_tokens_total [OF assms] by blast
  have "\<exists>skip. peers_to_skip_of env (destination pkt) n = Inr skip"
    by (simp add: peers_to_skip_of_def ids Let_def split: packet_destination.split)
  then obtain skip where skip: "peers_to_skip_of env (destination pkt) n = Inr skip" by blast
  obtain bs where bs: "serialize (e_fb env) (e_now env) (netmsg (e_now env) (NetworkPacket pkt)) = Inr bs"
    using serialize_total by (metis sum.exhaust)
  define flt where "flt = (case destination pkt of
      Direct target \<Rightarrow> (\<lambda>c :: 'a connection. local_id (c_remote_peer c) = target)
    | Broadcast _ \<Rightarrow> (\<lambda>c. is_valid_broadcast_target c skip (packet_network_id pkt)))"
  obtain k n' where k: "send_over_all_connections bs flt n = (k, n')" by fastforce
  have "process_network_packet env pkt n = (Inr k, n')"
    using k unfolding flt_def process_network_packet_def skip bs Let_def by simp
  with send_over_all_ok [OF assms k] show ?thesis
    by (simp add: send_message_over_network_def pkt_def [symmetric])
qed

lemma send_direct_ok:
  "node_inv n \<Longrightarrow> \<exists>sent n'. send_direct_message env t i msg n = (Inr sent, n') \<and> op_ok 0 (Inr ()) n n' \<and> n_peers n' = n_peers n"
  unfolding send_direct_message_def by (rule send_message_ok)

section \<open>The catch-up list\<close>

lemma node_inv_peers: "node_inv n \<Longrightarrow> peer_list_inv pl \<Longrightarrow> node_inv (n\<lparr>n_peers := pl\<rparr>)"
  by (simp add: node_inv_def)

lemma node_invD_peers: "node_inv n \<Longrightarrow> peer_list_inv (n_peers n)"
  by (simp add: node_inv_def)

lemma op_ok_peers: "op_ok k r n n' \<Longrightarrow> peer_list_inv pl \<Longrightarrow> op_ok k r n (n'\<lparr>n_peers := pl\<rparr>)"
  by (simp add: op_ok_def node_inv_peers)

lemma update_peer_list_ok:
  assumes "node_inv n"
  shows "\<exists>ids n'. update_peer_list n = (Inr (), n') \<and> op_ok 0 (Inr ()) n n' \<and>
    get_node_peer_tokens n = Inr ids \<and> peers_refresh ids (n_peers n) = (Inr (), n_peers n')"
proof -
  obtain ids where ids: "get_node_peer_tokens n = Inr ids" using get_node_peer_tokens_total [OF assms] by blast
  obtain r pl where pl: "peers_refresh ids (n_peers n) = (r, pl)" by fastforce
  with peers_refresh_no_panic [OF node_invD_peers [OF assms], of ids] have "r = Inr ()" by simp
  with ids pl peers_refresh_inv [OF node_invD_peers [OF assms] pl] assms show ?thesis
    by (simp add: update_peer_list_def op_ok_peers op_ok_refl)
qed

lemma try_catch_up_ok:
  assumes "node_inv n" "catch_up_peer (n_peers n) = None"
  shows "\<exists>sent n'. try_catch_up env status n = (Inr (), n') \<and> op_ok 0 (Inr ()) n n' \<and>
    n_peers n' = peers_try_catch_up (e_now env) sent (n_peers n)"
proof -
  obtain x pl where x: "next_pending (n_peers n) = (x, pl)" by fastforce
  have pl: "peer_list_inv pl" by (rule next_pending_inv [OF node_invD_peers [OF assms(1)] assms(2) x])
  have inv: "peer_list_inv (peers_try_catch_up (e_now env) sent (n_peers n))" for sent
    by (rule peers_try_catch_up_inv [OF node_invD_peers [OF assms(1)] assms(2)])
  show ?thesis
  proof (cases x)
    case None
    with x pl assms(1) show ?thesis
      by (simp add: try_catch_up_def peers_try_catch_up_def op_ok_peers op_ok_refl)
  next
    case (Some p)
    let ?n = "n\<lparr>n_peers := pl\<lparr>catch_up_stamp := e_now env\<rparr>\<rparr>"
    have "node_inv ?n" using assms(1) pl by (simp add: node_inv_peers)
    from send_direct_ok [OF this, of env p "nc_default_network (n_config n)" status] obtain k n1 where
      k: "send_direct_message env p (nc_default_network (n_config n)) status ?n = (Inr k, n1)"
      "op_ok 0 (Inr ()) ?n n1" "n_peers n1 = pl\<lparr>catch_up_stamp := e_now env\<rparr>" by auto
    have ok: "op_ok 0 (Inr ()) n n1" using k(2) by (simp add: op_ok_def)
    show ?thesis
      using x Some k ok inv [of "\<lambda>_. k > 0"]
      by (intro exI [of _ "\<lambda>_. k > 0"])
        (auto simp: try_catch_up_def peers_try_catch_up_def Let_def op_ok_peers split: if_splits)
  qed
qed

lemma check_peer_states_ok:
  assumes "env_ok env" "node_inv n"
  shows "\<exists>n'. check_peer_states env status n = (Inr (), n') \<and> run_ok 0 n n' \<and>
    peers_step\<^sup>*\<^sup>* (n_peers n, Idle) (n_peers n', Idle)"
proof -
  define m where "m = (if rg_trigger_catchup (n_regenesis n)
      then n\<lparr>n_regenesis := (n_regenesis n)\<lparr>rg_trigger_catchup := False\<rparr>, n_peers := mark_all_pending (n_peers n)\<rparr>
      else n)"
  have inv: "node_inv m" and zero: "run_ok 0 n m"
    using assms(2) mark_all_pending_inv [OF node_invD_peers [OF assms(2)]]
    by (simp_all add: m_def node_inv_peers run_ok_def)
  have first: "peers_step\<^sup>*\<^sup>* (n_peers n, Idle) (n_peers m, Idle)"
    by (simp add: m_def r_into_rtranclp peers_step.regenesis)
  note pinv = node_invD_peers [OF inv]
  have last: ?thesis
    if "check_peer_states env status n = (Inr (), n')" "run_ok 0 m n'"
      "peers_step (n_peers m, Checked (catch_up_peer (n_peers m))) (n_peers n', Idle)" for n'
  proof -
    have "peers_step\<^sup>*\<^sup>* (n_peers m, Idle) (n_peers n', Idle)"
      using peers_step.snapshot [of "n_peers m"] that(3) by (meson converse_rtranclp_into_rtranclp r_into_rtranclp)
    with that first run_ok_trans [OF zero that(2)] show ?thesis by (auto intro: rtranclp_trans)
  qed
  show ?thesis
  proof (cases "catch_up_peer (n_peers m)")
    case None
    from try_catch_up_ok [OF inv None, of env status] obtain sent n' where n':
      "try_catch_up env status m = (Inr (), n')" "op_ok 0 (Inr ()) m n'"
      "n_peers n' = peers_try_catch_up (e_now env) sent (n_peers m)" by blast
    show ?thesis
      using n' None op_ok_run [OF n'(2)] peers_step.attempt [of "n_peers m"]
      by (intro last [of n']) (simp_all add: check_peer_states_def m_def [symmetric])
  next
    case (Some p)
    show ?thesis
    proof (cases "hm_get (connections m) (to_token p) = None")
      case True
      let ?pl = "(n_peers m)\<lparr>catch_up_peer := None, peer_states := hm_remove p (peer_states (n_peers m))\<rparr>"
      let ?m = "m\<lparr>n_peers := ?pl\<rparr>"
      have "peer_list_inv ?pl" using peer_list_inv_forget [OF pinv, of p] Some by simp
      then have "node_inv ?m" by (rule node_inv_peers [OF inv])
      from try_catch_up_ok [OF this, of env status] obtain sent n' where n':
        "try_catch_up env status ?m = (Inr (), n')" "op_ok 0 (Inr ()) ?m n'"
        "n_peers n' = peers_try_catch_up (e_now env) sent ?pl" by auto
      have "run_ok 0 m n'" using op_ok_run [OF n'(2)] by (simp add: run_ok_def)
      then show ?thesis
        using n' Some True peers_step.gone [of "n_peers m" p "e_now env" sent]
        by (intro last [of n']) (simp_all add: check_peer_states_def m_def [symmetric] peers_drop_catch_up_def)
    next
      case False
      let ?n = "register_conn_change env (RemovalByToken (to_token p)) m"
      have reg: "run_ok 0 m ?n \<and> n_peers ?n = n_peers m" using register_run_ok [OF assms(1) inv] by blast
      have "run_ok 0 m m" using inv by (simp add: run_ok_def)
      with reg Some False peers_step.keep [of "n_peers m" p] show ?thesis
        by (cases "e_now env > catch_up_stamp (n_peers m) + MAX_CATCH_UP_TIME")
          (rule last [of ?n] last [of m]; simp add: check_peer_states_def m_def [symmetric])+
    qed
  qed
qed

section \<open>Sockets\<close>

lemma collections_inv_kept:
  assumes inv: "collections_inv cands conns chs next"
    and kept: "list_all2 (\<lambda>(t, c) (t', c'). t' = t \<and> conn_kept c c') cands cands'"
      "list_all2 (\<lambda>(t, c) (t', c'). t' = t \<and> conn_kept c c') conns conns'"
    and new: "\<And>t. Promotion t \<in> set new \<Longrightarrow> \<exists>c \<in> snd ` (set cands' \<union> set conns'). t = conn_token c \<and> is_post_handshake c"
  shows "collections_inv cands' conns' (chs @ new) next"
proof -
  note invD = collections_invD [OF inv]
  have keys: "map fst xs' = map fst xs" if "list_all2 (\<lambda>(t, c) (t', c'). t' = t \<and> conn_kept c c') xs xs'"
    for xs xs' :: "'a connections"
    using that by (induction rule: list_all2_induct) auto
  have from_old: "\<exists>c. (t, c) \<in> set xs \<and> conn_kept c c'"
    if "list_all2 (\<lambda>(t, c) (t', c'). t' = t \<and> conn_kept c c') xs xs'" "(t, c') \<in> set xs'" for xs xs' :: "'a connections" and t c'
    using that by (induction rule: list_all2_induct) auto
  note k = keys [OF kept(1)] keys [OF kept(2)] and old = from_old [OF kept(1)] from_old [OF kept(2)]
  have sets: "fst ` set cands' = fst ` set cands" "fst ` set conns' = fst ` set conns"
    using k by (metis image_set)+
  have tok: "conn_token c' = t \<and> token_val t < next \<and> ll_ok (c_low_level c')"
    if "(t, c') \<in> set cands' \<union> set conns'" for t c'
  proof -
    from that old obtain c where "(t, c) \<in> set cands \<union> set conns" "conn_kept c c'" by blast
    with invD(4,5) [of t c] show ?thesis by (simp add: conn_kept_def conn_token_def)
  qed
  have post: "is_post_handshake c'" if "(t, c') \<in> set conns'" for t c'
    using old(2) [OF that] invD(7) by (auto simp: conn_kept_def)
  have wf: "hm_wf cands'" "hm_wf conns'" "fst ` set cands' \<inter> fst ` set conns' = {}"
    using invD(1-3) k sets by auto
  have promoted: "(t, c) \<in> set cands' \<union> set conns' \<and> is_post_handshake c \<and> token_val t < next"
    if "(s, c) \<in> set cands' \<union> set conns'" "t = conn_token c" "is_post_handshake c" for s t c
    using tok [OF that(1)] that by auto
  show ?thesis
  proof (rule collections_invI [OF wf tok post])
    show "token_val t < next" if "Promotion t \<in> set (chs @ new)" for t
      using that invD(8) [of t] new [of t] promoted by fastforce
    show "is_post_handshake d" if "Promotion t \<in> set (chs @ new)" "(t, d) \<in> set cands'" for t d
    proof (cases "Promotion t \<in> set chs")
      case True
      then show ?thesis using old(1) [OF that(2)] invD(9) by (auto simp: conn_kept_def)
    next
      case False
      with that(1) new [of t] obtain s c where c: "(s, c) \<in> set cands' \<union> set conns'" "t = conn_token c" "is_post_handshake c"
        by force
      from promoted [OF this] have mem: "(t, c) \<in> set cands' \<union> set conns'" by blast
      have "t \<notin> fst ` set conns'" using that(2) wf(3) by force
      with mem have "(t, c) \<in> set cands'" by force
      with that(2) wf(1) c(3) show ?thesis by (metis eq_key_imp_eq_value)
    qed
  qed
qed

lemma process_network_events_ok:
  assumes "env_ok env" "node_inv n"
  shows "\<exists>n'. process_network_events env events n = Some (Inr (), n') \<and> run_ok 0 n n' \<and> n_peers n' = n_peers n"
proof -
  obtain stats where stats: "get_peer_stats (Some Node) n = Inr stats" using get_peer_stats_total [OF assms(2)] by blast
  have inv: "collections_inv (conn_candidates n) (connections n) (changes n) (next_token n)" "buckets_inv (n_buckets n)"
    using assms(2) by (simp_all add: node_inv_def)
  have ll: "\<forall>c \<in> set (hm_values (conn_candidates n)). ll_ok (c_low_level c)"
    "\<forall>c \<in> set (hm_values (connections n)). ll_ok (c_low_level c)"
    using collections_invD(6) [OF inv(1)] by fastforce+
  from process_connections_ok [OF assms(1) ll(1) inv(2), of events stats] obtain cs n1 where
    one: "process_connections env events stats (conn_candidates n) n = Some (Inr (), cs, n1)"
    "list_all2 (\<lambda>(t, c) (t', c'). t' = t \<and> conn_kept c c') (conn_candidates n) cs" "node_kept n n1"
    "changes_from (hm_values cs) n n1" by blast
  let ?n1 = "n1\<lparr>conn_candidates := cs\<rparr>"
  have b1: "buckets_inv (n_buckets ?n1)" using one(3) inv(2) by (simp add: node_kept_def)
  from process_connections_ok [OF assms(1) ll(2) b1, of events stats] obtain ds n2 where
    two: "process_connections env events stats (connections n) ?n1 = Some (Inr (), ds, n2)"
    "list_all2 (\<lambda>(t, c) (t', c'). t' = t \<and> conn_kept c c') (connections n) ds" "node_kept ?n1 n2"
    "changes_from (hm_values ds) ?n1 n2" by blast
  from one(4) obtain x where x: "changes n1 = changes n @ x"
    "\<forall>tok. Promotion tok \<in> set x \<longrightarrow> (\<exists>c \<in> set (hm_values cs). tok = conn_token c \<and> is_post_handshake c)"
    by (auto simp: changes_from_def)
  from two(4) obtain y where y: "changes n2 = changes n1 @ y"
    "\<forall>tok. Promotion tok \<in> set y \<longrightarrow> (\<exists>c \<in> set (hm_values ds). tok = conn_token c \<and> is_post_handshake c)"
    by (auto simp: changes_from_def)
  have "collections_inv cs ds (changes n @ x @ y) (next_token n)"
    by (rule collections_inv_kept [OF inv(1) one(2) two(2)]) (use x(2) y(2) in auto)
  then have "run_ok 0 n (n2\<lparr>connections := ds\<rparr>)"
    using assms(2) one(3) two(3) x(1) y(1) by (simp add: run_ok_def node_inv_def node_kept_def)
  with stats one(1,3) two(1,3) show ?thesis by (simp add: process_network_events_def node_kept_def)
qed

section \<open>Housekeeping\<close>

lemma retain_ok:
  assumes "node_inv n"
  shows "op_ok 0 (Inr ()) n (retain_connections P n)" "op_ok 0 (Inr ()) n (retain_candidates P n)"
  using assms by (simp_all add: op_ok_def retain_connections_def retain_candidates_def node_inv_remove)

lemma remove_inactive_ok: "node_inv n \<Longrightarrow> op_ok 0 (Inr ()) n (remove_inactive env n)"
proof -
  assume inv: "node_inv n"
  define n1 where "n1 = retain_candidates (\<lambda>c. \<not> is_conn_without_handshake (e_now env) c) n"
  have n1: "op_ok 0 (Inr ()) n n1" unfolding n1_def by (rule retain_ok(2) [OF inv])
  have "op_ok 0 (Inr ()) n (retain_connections P n1)" for P
    using op_ok_trans [OF n1 retain_ok(1) [OF op_okD(2) [OF n1]]] by simp
  then show ?thesis
    by (simp add: remove_inactive_def Let_def n1_def [symmetric] op_ok_def)
qed

lemma drop_excess_peers_ok:
  assumes "node_inv n"
  shows "\<exists>n'. drop_excess_peers env n = (Inr (), n') \<and> op_ok 0 (Inr ()) n n'"
proof -
  obtain ss where "get_peer_stats (Some Node) n = Inr ss" using get_peer_stats_total [OF assms] by blast
  then show ?thesis
    using remove_connections_ok [OF assms, of env] op_ok_refl [OF assms, of "Inr ()" 0]
    by (auto simp: drop_excess_peers_def Let_def) (metis prod.collapse)
qed

lemma lift_soft_bans_ok: "node_inv n \<Longrightarrow> op_ok 0 (Inr ()) n (lift_soft_bans env n)"
  by (simp add: lift_soft_bans_def op_ok_def Let_def)

lemma length_fold_remove: "length (fold (\<lambda>c ret. hs_remove (f c) (hs_remove (g c) ret)) cs xs) \<le> length xs"
proof (induction cs arbitrary: xs)
  case (Cons c cs)
  have "length (hs_remove (f c) (hs_remove (g c) xs)) \<le> length xs"
    unfolding hs_remove_def by (meson le_trans length_filter_le)
  with Cons [of "hs_remove (f c) (hs_remove (g c) xs)"] show ?case by simp
qed simp

lemma unconnected_given_length: "length (unconnected_given_addresses n) \<le> length (given_addresses n)"
  by (simp add: unconnected_given_addresses_def length_fold_remove)

lemma attempt_bootstrap_ok:
  assumes "env_ok env" "node_inv n"
  shows "run_ok 0 n (attempt_bootstrap env n)"
proof -
  have "run_ok 0 n (fold (\<lambda>a. register_conn_change env (NewConn a Bootstrapper False)) as n)" for as
    using assms(2)
  proof (induction as arbitrary: n)
    case (Cons a as)
    have "run_ok 0 n (register_conn_change env (NewConn a Bootstrapper False) n)"
      using register_run_ok [OF assms(1) Cons.prems] by blast
    with Cons.IH [of "register_conn_change env (NewConn a Bootstrapper False) n"] run_ok_trans show ?case
      by (fastforce simp: run_ok_def)
  qed (simp add: run_ok_def)
  with assms(2) show ?thesis by (simp add: attempt_bootstrap_def run_ok_def split: sum.split)
qed

lemma connection_housekeeping_ok:
  assumes "env_ok env" "node_inv n" "tokens_left (length (given_addresses n)) n"
  shows "\<exists>b n'. connection_housekeeping env n = (Inr b, n') \<and> run_ok (length (given_addresses n)) n n'"
proof -
  note one = remove_inactive_ok [OF assms(2), of env]
  from drop_excess_peers_ok [OF op_okD(2) [OF one]] obtain n1 where
    n1: "drop_excess_peers env (remove_inactive env n) = (Inr (), n1)" "op_ok 0 (Inr ()) (remove_inactive env n) n1" by blast
  define n2 where "n2 = lift_soft_bans env n1"
  have ok2: "op_ok 0 (Inr ()) n n2"
    using op_ok_trans [OF op_ok_trans [OF one n1(2)] lift_soft_bans_ok [OF op_okD(2) [OF n1(2)]]]
    by (simp add: n2_def)
  have len: "length (unconnected_given_addresses n2) \<le> length (given_addresses n)"
    using unconnected_given_length [of n2] op_okD(4) [OF ok2] by simp
  then have "tokens_left (length (unconnected_given_addresses n2)) n2"
    using op_okD(5) [OF ok2, of "length (given_addresses n)"] assms(3) by (simp add: tokens_left_def)
  from connect_each_ok [OF assms(1) op_okD(2) [OF ok2] this, of False] obtain n3 where
    n3: "connect_each env False (unconnected_given_addresses n2) n2 = (Inr (), n3)"
    "op_ok (length (unconnected_given_addresses n2)) (Inr ()) n2 n3" by blast
  define n4 where "n4 = n3\<lparr>n_bad_events := bad_events_default\<rparr>"
  have "op_ok (length (given_addresses n)) (Inr ()) n n3"
    using op_ok_mono [OF op_ok_trans [OF ok2 n3(2)]] len by simp
  then have ok4: "run_ok (length (given_addresses n)) n n4" by (simp add: n4_def op_ok_def run_ok_def)
  then have "run_ok (length (given_addresses n)) n (attempt_bootstrap env n4)"
    using run_ok_trans [OF ok4 attempt_bootstrap_ok [OF assms(1)]] by (simp add: run_ok_def)
  with ok4 n1(1) n3(1) show ?thesis
    by (auto simp: connection_housekeeping_def n2_def [symmetric] n4_def [symmetric] Let_def)
qed

lemma latencies_ok: "node_inv n \<Longrightarrow> run_ok 0 n (measure_connection_latencies env n)"
  using node_inv_map_conns [of n "\<lambda>c. snd (send_ping env c)"]
  by (simp add: measure_connection_latencies_def run_ok_def send_ping_def async_send_def split: sum.split)

lemma check_peers_ok:
  assumes "env_ok env" "node_inv n"
  shows "run_ok 0 n (check_peers env stats b n)"
proof -
  have "run_ok 0 n (send_get_peers env n)"
    using send_over_all_ok [OF assms(2)] op_ok_run [of 0 "Inr ()" n] assms(2)
    by (auto simp: send_get_peers_def run_ok_def split: sum.split) (metis prod.collapse)+
  with attempt_bootstrap_ok [OF assms] assms(2) show ?thesis
    by (simp add: check_peers_def Let_def run_ok_def)
qed

lemma small_word_of_int:
  assumes "0 < d" "d < 2 ^ 64"
  shows "(word_of_int d :: u64) \<noteq> 0"
proof -
  have "uint (word_of_int d :: u64) = d" using assms by (simp add: uint_word_of_int)
  with assms(1) show ?thesis by (metis less_irrefl unsigned_0)
qed

lemma measure_throughput_ok:
  assumes "env_ok env" "node_inv n" "measure_throughput env n = (r, n')"
  shows "no_panic r \<and> run_ok 0 n n'"
proof -
  let ?d = "e_millis env - tp_timestamp (n_throughput n)"
  note clock = env_okD(11,12) [OF assms(1)]
  have "(word_of_int ?d :: u64) \<noteq> 0" if "tp_timestamp (n_throughput n) < e_millis env"
  proof -
    have "0 < ?d" "?d < 2 ^ 64" using that clock assms(2) by (simp_all add: node_inv_def)
    then show ?thesis by (rule small_word_of_int)
  qed
  then show ?thesis
    using assms(2,3) clock
    by (auto simp: measure_throughput_def calculate_average_throughput_def Let_def run_ok_def node_inv_def
        split: if_splits)
qed

lemma housekeeping_ok:
  assumes "env_ok env" "node_inv n" "tokens_left (length (given_addresses n)) n"
  shows "\<exists>n'. housekeeping env n = (Inr (), n') \<and> run_ok (length (given_addresses n)) n n'"
proof -
  from connection_housekeeping_ok [OF assms] obtain b n1 where
    n1: "connection_housekeeping env n = (Inr b, n1)" "run_ok (length (given_addresses n)) n n1" by blast
  define n2 where "n2 = (if node_type n1 \<noteq> Bootstrapper then measure_connection_latencies env n1 else n1)"
  have ok2: "run_ok 0 n1 n2" using n1(2) latencies_ok [of n1 env] by (simp add: n2_def run_ok_def)
  have inv2: "node_inv n2" using ok2 by (simp add: run_ok_def)
  obtain stats where stats: "get_peer_stats None n2 = Inr stats" using get_peer_stats_total [OF inv2] by blast
  note ok3 = check_peers_ok [OF assms(1) inv2, of stats b]
  obtain r n4 where n4: "measure_throughput env (check_peers env stats b n2) = (r, n4)" by fastforce
  note ok4 = measure_throughput_ok [OF assms(1) _ n4]
  have inv3: "node_inv (check_peers env stats b n2)" using ok3 by (simp add: run_ok_def)
  have "log_error (r, n4) = (Inr (), n4)"
    using ok4 [OF inv3] by (auto simp: log_error_def no_panic_def split: sum.split rust_error.split)
  moreover have "run_ok (length (given_addresses n)) n n4"
    using run_ok_trans [OF run_ok_trans [OF run_ok_trans [OF n1(2) ok2] ok3], of 0 n4] ok4 [OF inv3] by simp
  ultimately show ?thesis
    using n1(1) stats n4 by (simp add: housekeeping_def n2_def [symmetric] Let_def)
qed

end
