(* ===== verification/Peers_Frame.thy ===== *)
theory Peers_Frame
  imports Node_Invariant
begin

text \<open>
  The parts of the node that leave the catch-up list alone: all of them but the checks of the poll
  loop, the feedback from consensus and the shutdown.
\<close>

section \<open>What leaves the list alone\<close>

lemma log_metrics_peers [simp]: "n_peers (log_metrics l n) = n_peers n"
  by (simp add: log_metrics_def)

lemma small_steps_peers [simp]:
  "n_peers (bump_last_peer_update env n) = n_peers n" "n_peers (soft_ban env b secs n) = n_peers n"
  "n_peers (register_conn_change env ch n) = n_peers n" "n_peers (retain_connections P n) = n_peers n"
  "n_peers (retain_candidates P n) = n_peers n" "n_peers (lift_soft_bans env n) = n_peers n"
  "n_peers (measure_connection_latencies env n) = n_peers n" "n_peers (snd (measure_throughput env n)) = n_peers n"
  "n_peers (remove_inactive env n) = n_peers n"
  by (simp_all add: bump_last_peer_update_def soft_ban_def register_conn_change_def retain_connections_def
      retain_candidates_def lift_soft_bans_def measure_connection_latencies_def measure_throughput_def
      remove_inactive_def Let_def split: sum.split)

lemma log_error_snd [simp]: "snd (log_error x) = snd x"
  by (cases x) (auto simp: log_error_def split: sum.split rust_error.split)

lemma bind_res_peers:
  "n_peers (snd x) = p \<Longrightarrow> (\<And>a n'. n_peers n' = p \<Longrightarrow> n_peers (snd (f a n')) = p) \<Longrightarrow> n_peers (snd (bind_res x f)) = p"
  by (cases x; cases "fst x") auto

lemma accept_peers [simp]: "n_peers (snd (accept env sock a n)) = n_peers n"
  by (simp add: accept_def Let_def split: option.split sum.split)

lemma handshake_sent_peers [simp]:
  "n_peers (snd (case x of (Inl e, ll) \<Rightarrow> (Inl e, m) | (Inr _, ll) \<Rightarrow> (Inr (), m\<lparr>conn_candidates := f ll\<rparr>))) = n_peers m"
  by (simp split: prod.split sum.split)

lemma connect_peers [simp]: "n_peers (snd (connect env pt a i respect n)) = n_peers n"
proof (cases "max_peers_reached pt respect n")
  case (Inr b)
  then show ?thesis by (cases b) (simp_all add: connect_def Let_def split: option.split sum.split)
qed (simp add: connect_def)

lemma connect_each_peers [simp]: "n_peers (snd (connect_each env respect as n)) = n_peers n"
proof (induction as arbitrary: n)
  case (Cons a as)
  then show ?case by (auto intro!: bind_res_peers)
qed simp

lemma remove_connection_peers [simp]: "n_peers (snd (remove_connection env tok n)) = n_peers n"
  by (simp add: remove_connection_def split: option.split)

lemma remove_loop_peers: "n_peers (snd (snd (remove_loop toks n))) = n_peers n"
  by (induction toks n rule: remove_loop.induct) (simp_all add: case_prod_unfold Let_def split: option.split)

lemma remove_connections_peers [simp]: "n_peers (snd (remove_connections env toks n)) = n_peers n"
  using remove_loop_peers [of toks n] by (simp add: remove_connections_def Let_def case_prod_unfold)

lemma persisted_peers [simp]:
  "n_peers (snd (remove_persisted_peer env a n)) = n_peers n" "n_peers (snd (persist_peer env a n)) = n_peers n"
  by (simp_all add: remove_persisted_peer_def persist_peer_def)

lemma remove_persisted_peers_peers [simp]: "n_peers (snd (remove_persisted_peers env ps n)) = n_peers n"
proof (induction ps arbitrary: n)
  case (Cons p ps)
  then show ?case by (auto intro!: bind_res_peers)
qed simp

lemma promote_peers [simp]: "n_peers (snd (promote env tok n)) = n_peers n"
  by (simp add: promote_def Let_def split: option.split)

lemma connect_new_peers_peers [simp]: "n_peers (snd (connect_new_peers env k l ps n)) = n_peers n"
proof (induction ps arbitrary: k n)
  case (Cons p ps)
  obtain r n1 where c: "connect env Node (pp_addr p) (Some (pp_id p)) True n = (r, n1)" by fastforce
  then have "n_peers n1 = n_peers n" using connect_peers [of env Node "pp_addr p" "Some (pp_id p)" True n] by simp
  with Cons c show ?case by (auto split: sum.split rust_error.split)
qed simp

lemma process_conn_change_peers [simp]: "n_peers (snd (process_conn_change env ch n)) = n_peers n"
proof (cases ch)
  case (NewConn a pt given)
  obtain r n1 where c: "connect env pt a None (\<not> given) n = (r, n1)" by fastforce
  then have "n_peers n1 = n_peers n" using connect_peers [of env pt a None "\<not> given" n] by simp
  with NewConn c show ?thesis by (auto simp: process_conn_change_def split: sum.split rust_error.split)
next
  case (ExpulsionByToken tok)
  obtain r n1 where c: "remove_connection env tok n = (r, n1)" by fastforce
  then have "n_peers n1 = n_peers n" using remove_connection_peers [of env tok n] by simp
  with ExpulsionByToken c show ?thesis by (auto simp: process_conn_change_def Let_def split: option.split)
next
  case (RemovalByToken tok)
  obtain r n1 where c: "remove_connection env tok n = (r, n1)" by fastforce
  then have "n_peers n1 = n_peers n" using remove_connection_peers [of env tok n] by simp
  with RemovalByToken c show ?thesis by (auto simp: process_conn_change_def split: option.split)
next
  case (RemoveAllByTokens toks)
  obtain b ps n1 where c: "remove_connections env toks n = ((b, ps), n1)" by (metis prod.collapse)
  then have "n_peers n1 = n_peers n" using remove_connections_peers [of env toks n] by simp
  with RemoveAllByTokens c show ?thesis by (simp add: process_conn_change_def)
qed (simp_all add: process_conn_change_def split: sum.split)

lemma process_conn_changes_peers:
  assumes "process_conn_changes envs i n = Some res"
  shows "n_peers (snd res) = n_peers n"
proof (rule process_conn_changes.raw_induct [OF _ assms, where P = "\<lambda>envs i n res. n_peers (snd res) = n_peers n"])
  fix f :: "(nat \<Rightarrow> ('a, 'b) env) \<Rightarrow> nat \<Rightarrow> ('a, 'b) p2p_node \<Rightarrow> (unit result \<times> ('a, 'b) p2p_node) option"
    and envs i n res
  assume IH: "\<And>envs i n res. f envs i n = Some res \<Longrightarrow> n_peers (snd res) = n_peers n"
    and step: "(case chan_try_recv (e_changes (envs i)) (conn_changes n) of
        (None, c) \<Rightarrow> Some (Inr (), n\<lparr>conn_changes := c\<rparr>)
      | (Some ch, c) \<Rightarrow> (case process_conn_change (envs i) ch (n\<lparr>conn_changes := c\<rparr>) of
             (Inl e, n') \<Rightarrow> Some (Inl e, n') | (Inr _, n') \<Rightarrow> f envs (Suc i) n')) = Some res"
  obtain x c where x: "chan_try_recv (e_changes (envs i)) (conn_changes n) = (x, c)" by fastforce
  show "n_peers (snd res) = n_peers n"
  proof (cases x)
    case (Some ch)
    obtain r n' where r: "process_conn_change (envs i) ch (n\<lparr>conn_changes := c\<rparr>) = (r, n')" by fastforce
    then have "n_peers n' = n_peers n"
      using process_conn_change_peers [of "envs i" ch "n\<lparr>conn_changes := c\<rparr>"] by simp
    with step x Some r show ?thesis by (cases r) (auto dest: IH)
  qed (use step x in auto)
qed

lemma accept_loop_peers: "n_peers (snd (snd (accept_loop k i evs n))) = n_peers n"
proof (induction evs arbitrary: i n)
  case (Cons e evs)
  obtain ev env where e: "e = (ev, env)" by fastforce
  show ?case
  proof (cases ev)
    case (Accepted sock a)
    obtain r n1 where r: "accept env sock a n = (r, n1)" by fastforce
    then have "n_peers n1 = n_peers n" using accept_peers [of env sock a n] by simp
    with Cons e Accepted r show ?thesis by (simp split: sum.split accept_failure.split)
  qed (use Cons e in simp_all)
qed simp

lemma accept_new_peers [simp]: "n_peers (snd (accept_new inp events ps n)) = n_peers n"
  using accept_loop_peers [of "unat (nc_conn_requests_batch_limit (n_config n))" 0 "pi_listen inp" n]
  by (simp add: accept_new_def Let_def case_prod_unfold)

section \<open>Housekeeping and sending\<close>

lemma send_over_all_peers [simp]: "n_peers (snd (send_over_all_connections bs f n)) = n_peers n"
  by (simp add: send_over_all_connections_def)

lemma register_fold_peers [simp]: "n_peers (fold (\<lambda>a. register_conn_change env (f a)) as n) = n_peers n"
  by (induction as arbitrary: n) simp_all

lemma check_peers_peers [simp]: "n_peers (check_peers env stats b n) = n_peers n"
  by (simp add: check_peers_def attempt_bootstrap_def send_get_peers_def Let_def split: sum.split)

lemma drop_excess_peers_peers [simp]: "n_peers (snd (drop_excess_peers env n)) = n_peers n"
  by (simp add: drop_excess_peers_def Let_def split: sum.split)

lemma connection_housekeeping_peers [simp]: "n_peers (snd (connection_housekeeping env n)) = n_peers n"
  unfolding connection_housekeeping_def Let_def
  by (intro bind_res_peers) (simp_all add: attempt_bootstrap_def split: sum.split)

lemma housekeeping_peers [simp]: "n_peers (snd (housekeeping env n)) = n_peers n"
  unfolding housekeeping_def Let_def
  by (intro bind_res_peers) (simp_all split: sum.split)

section \<open>Steps of the list\<close>

lemma to_token_inj: "to_token p = to_token q \<longleftrightarrow> p = q"
  by (cases p; cases q) (simp add: to_token_def)

lemma collect_results_map_Inr:
  "collect_results (map f xs) = Inr ys \<Longrightarrow> (\<And>x y. f x = Inr y \<Longrightarrow> g y = h x) \<Longrightarrow> map g ys = map h xs"
  by (induction xs arbitrary: ys) (auto split: sum.splits, (case_tac "f a"; auto split: sum.splits)+)

text \<open>The identifiers of the peers are distinct, since the tokens are.\<close>

lemma node_peer_tokens_distinct:
  assumes "node_inv n" "get_node_peer_tokens n = Inr ids"
  shows "distinct ids"
proof -
  let ?cs = "filter (\<lambda>c. Some Node = None \<or> Some Node = Some (peer_type (c_remote_peer c))) (hm_values (connections n))"
  from assms(2) obtain ss where ss: "collect_results (map connection_peer_stats ?cs) = Inr ss" "ids = map ps_local_id ss"
    by (auto simp: get_node_peer_tokens_def get_peer_stats_def split: sum.splits)
  have "map ps_local_id ss = map (\<lambda>c. local_id (c_remote_peer c)) ?cs"
    by (rule collect_results_map_Inr [OF ss(1)]) (auto simp: connection_peer_stats_def peer_stats_new_def split: option.splits)
  moreover have tokens: "map conn_token (hm_values (connections n)) = map fst (connections n)"
    using assms(1) by (auto simp: node_inv_def collections_inv_def)
  have "distinct (map conn_token (hm_values (connections n)))"
    unfolding tokens using assms(1) by (simp add: node_inv_def collections_inv_def)
  then have "distinct (map conn_token ?cs)" by (rule distinct_map_filter)
  then have "distinct (map (\<lambda>c. local_id (c_remote_peer c)) ?cs)"
    by (simp add: distinct_map conn_token_def inj_on_def to_token_inj)
  ultimately show ?thesis using ss(2) by simp
qed

end
