(* ===== verification/Node_Runs.thy ===== *)
theory Node_Runs
  imports Peers_Frame
begin

text \<open>
  Runs of a node: iterations of the poll loop, interleaved with what the other threads do to the node.
  From its creation on, the invariant holds, and an iteration of the poll loop ends without a panic.

  An operation of another thread is one step, between two iterations.
\<close>

section \<open>One iteration\<close>

definition input_ok :: "('ns, 'kv) poll_input \<Rightarrow> bool" where
  "input_ok inp \<longleftrightarrow> (\<forall>(ev, env) \<in> set (pi_listen inp). env_ok env) \<and> (\<forall>i. env_ok (pi_changes inp i)) \<and>
     env_ok (pi_peers inp) \<and> env_ok (pi_sockets inp) \<and> env_ok (pi_housekeeping inp) \<and> env_ok (pi_cleanup inp)"

text \<open>A bound on the connections that one iteration may open.\<close>

definition iteration_cost :: "('ns, 'kv) poll_input \<Rightarrow> ('ns, 'kv) p2p_node \<Rightarrow> nat" where
  "iteration_cost inp n = 2 * (length (pi_listen inp) + changes_cost n) + length (given_addresses n)"

lemma accept_new_ok:
  assumes "input_ok inp" "node_inv n" "tokens_left (length (pi_listen inp)) n" "accept_new inp events ps n = (ps', n')"
  shows "op_ok (length (pi_listen inp)) (Inr ()) n n'"
proof -
  have "n' = n \<or> (\<exists>b k. accept_loop (unat (nc_conn_requests_batch_limit (n_config n))) 0 (pi_listen inp) n = (b, k, n'))"
    using assms(4) by (auto simp: accept_new_def split: if_splits prod.splits)
  with accept_loop_ok [OF _ assms(2,3)] assms(1,2) show ?thesis by (auto simp: input_ok_def op_ok_refl)
qed

lemma update_peer_list_step:
  assumes "node_inv n" "update_peer_list n = (r, n')"
  shows "peers_step (n_peers n, Idle) (n_peers n', Idle)"
proof -
  from update_peer_list_ok [OF assms(1)] assms(2) obtain ids where
    "get_node_peer_tokens n = Inr ids" "peers_refresh ids (n_peers n) = (Inr (), n_peers n')" by auto
  with peers_step.refresh node_peer_tokens_distinct [OF assms(1)] show ?thesis by blast
qed

lemma check_catch_up_ok:
  assumes "input_ok inp" "node_inv n"
  shows "\<exists>ps' n'. check_catch_up inp ps n = (Inr (), ps', n') \<and> run_ok 0 n n' \<and>
    peers_step\<^sup>*\<^sup>* (n_peers n, Idle) (n_peers n', Idle)"
proof (cases "pi_status inp")
  case None
  with assms(2) show ?thesis by (simp add: check_catch_up_def run_ok_def)
next
  case (Some status)
  from update_peer_list_ok [OF assms(2)] obtain n1 where
    n1: "update_peer_list n = (Inr (), n1)" "op_ok 0 (Inr ()) n n1" by blast
  have check: "\<exists>n'. check_peer_states (pi_peers inp) status m = (Inr (), n') \<and> run_ok 0 n n' \<and>
      peers_step\<^sup>*\<^sup>* (n_peers n, Idle) (n_peers n', Idle)"
    if m: "run_ok 0 n m" "peers_step\<^sup>*\<^sup>* (n_peers n, Idle) (n_peers m, Idle)" for m
  proof -
    have "env_ok (pi_peers inp)" "node_inv m" using assms(1) m(1) by (simp_all add: input_ok_def run_ok_def)
    from check_peer_states_ok [OF this, of status] obtain n' where
      n': "check_peer_states (pi_peers inp) status m = (Inr (), n')" "run_ok 0 m n'"
        "peers_step\<^sup>*\<^sup>* (n_peers m, Idle) (n_peers n', Idle)" by blast
    with run_ok_trans [OF m(1) n'(2)] rtranclp_trans [OF m(2) n'(3)] show ?thesis by auto
  qed
  have "run_ok 0 n n" using assms(2) by (simp add: run_ok_def)
  moreover have "peers_step\<^sup>*\<^sup>* (n_peers n, Idle) (n_peers n1, Idle)"
    using update_peer_list_step [OF assms(2) n1(1)] by (rule r_into_rtranclp)
  ultimately show ?thesis
    using check [of n] check [OF op_ok_run [OF n1(2)]] n1(1) Some
    by (auto simp: check_catch_up_def Let_def)
qed

lemma periodic_housekeeping_ok:
  assumes "env_ok env" "node_inv n" "tokens_left (length (given_addresses n)) n"
  shows "\<exists>ps' n'. periodic_housekeeping env ps n = (Inr (), ps', n') \<and> node_inv n' \<and> n_peers n' = n_peers n"
proof -
  from housekeeping_ok [OF assms] obtain n' where n': "housekeeping env n = (Inr (), n')" "run_ok (length (given_addresses n)) n n'"
    by blast
  moreover from n'(1) housekeeping_peers [of env n] have "n_peers n' = n_peers n" by simp
  ultimately show ?thesis using assms(2) by (auto simp: periodic_housekeeping_def run_ok_def)
qed

lemma periodic_cleanup_ok:
  assumes "node_inv n"
  shows "\<exists>ps' n'. periodic_cleanup env ps n = (Inr (), ps', n') \<and> node_inv n' \<and> n_peers n' = n_peers n"
proof -
  obtain l b where "clean_buckets (e_now env) (nc_timeout_bucket_entry_period (n_config n)) (n_buckets n) = Inr (l, b)"
    "buckets_inv b"
    using bucket_ops_safe(3) assms by (fastforce simp: node_inv_def)
  with assms show ?thesis by (simp add: periodic_cleanup_def apply_buckets_def) (simp add: node_inv_def)
qed

lemma poll_iteration_ok:
  assumes "input_ok inp" "node_inv n" "tokens_left (iteration_cost inp n) n"
  shows "\<exists>ps' n'. poll_iteration inp (ps, n) = Some (Inr (), ps', n') \<and> node_inv n' \<and>
    peers_step\<^sup>*\<^sup>* (n_peers n, Idle) (n_peers n', Idle)"
proof (cases "pi_poll inp")
  case (Inl e)
  with assms(2) show ?thesis by (simp add: poll_iteration_def)
next
  case (Inr events)
  define l where "l = length (pi_listen inp)"
  define k where "k = changes_cost n"
  have left: "tokens_left (l + k + (l + k + length (given_addresses n))) n"
    using assms(3) by (simp add: iteration_cost_def l_def k_def tokens_left_def)
  obtain ps1 n1 where a: "accept_new inp events ps n = (ps1, n1)" by fastforce
  have "op_ok l (Inr ()) n n1"
    unfolding l_def by (rule accept_new_ok [OF assms(1,2) _ a]) (use left in \<open>simp add: l_def tokens_left_def\<close>)
  then have ok1: "op_ok l (Inr ()) n n1" and ch1: "changes_cost n1 = k" by (simp_all add: op_ok_def k_def)
  have "tokens_left k n1" using op_okD(5) [OF ok1, of k] left by (simp add: tokens_left_def)
  with process_conn_changes_ok [of "pi_changes inp" n1 0] op_okD(2) [OF ok1] assms(1) ch1 obtain n2 where
    n2: "process_conn_changes (pi_changes inp) 0 n1 = Some (Inr (), n2)" "run_ok k n1 n2"
    by (auto simp: input_ok_def)
  from n2(2) have "node_inv n2" by (simp add: run_ok_def)
  from check_catch_up_ok [OF assms(1) this, of ps1] obtain ps3 n3 where
    n3: "check_catch_up inp ps1 n2 = (Inr (), ps3, n3)" "run_ok 0 n2 n3"
      "peers_step\<^sup>*\<^sup>* (n_peers n2, Idle) (n_peers n3, Idle)" by blast
  from process_network_events_ok [of "pi_sockets inp" n3 events] n3(2) assms(1) obtain n4 where
    n4: "process_network_events (pi_sockets inp) events n3 = Some (Inr (), n4)" "run_ok 0 n3 n4" "n_peers n4 = n_peers n3"
    by (auto simp: input_ok_def run_ok_def)
  have run: "run_ok (l + k) n n4"
    using run_ok_trans [OF run_ok_trans [OF run_ok_trans [OF op_ok_run [OF ok1] n2(2)] n3(2)] n4(2)] by simp
  have "tokens_left (length (given_addresses n4)) n4"
    using run_ok_tokens [OF run left] run by (simp add: tokens_left_def run_ok_def)
  with periodic_housekeeping_ok [of "pi_housekeeping inp" n4 ps3] run assms(1) obtain ps5 n5 where
    n5: "periodic_housekeeping (pi_housekeeping inp) ps3 n4 = (Inr (), ps5, n5)" "node_inv n5" "n_peers n5 = n_peers n4"
    by (auto simp: input_ok_def run_ok_def)
  from periodic_cleanup_ok [OF n5(2), of "pi_cleanup inp" ps5] obtain ps6 n6 where
    n6: "periodic_cleanup (pi_cleanup inp) ps5 n5 = (Inr (), ps6, n6)" "node_inv n6" "n_peers n6 = n_peers n5" by blast
  have "n_peers n1 = n_peers n" using accept_new_peers [of inp events ps n] a by simp
  with process_conn_changes_peers [OF n2(1)] n3(3) n4(3) n5(3) n6(3) have "peers_step\<^sup>*\<^sup>* (n_peers n, Idle) (n_peers n6, Idle)"
    by simp
  with Inr a n2(1) n3(1) n4(1) n5(1) n6 show ?thesis by (simp add: poll_iteration_def)
qed

section \<open>Other threads\<close>

lemma node_inv_send:
  assumes "node_inv n" "send_consensus_msg_to_net env dont t pl n = (r, n')"
  shows "node_inv n'"
proof -
  obtain d where "send_message_over_network env t d (nc_default_network (n_config n)) pl n =
      (case t of Some p \<Rightarrow> send_direct_message env p (nc_default_network (n_config n)) pl n
       | None \<Rightarrow> send_broadcast_message env dont (nc_default_network (n_config n)) pl n)"
    by (cases t) (auto simp: send_direct_message_def send_broadcast_message_def)
  with send_message_ok [OF assms(1), of env t d "nc_default_network (n_config n)" pl] assms(2) show ?thesis
    by (auto simp: send_consensus_msg_to_net_def Let_def op_ok_def)
qed

lemma send_to_peers_inv: "node_inv n \<Longrightarrow> send_to_peers env pl ps n = (r, n') \<Longrightarrow> node_inv n'"
proof (induction ps arbitrary: n)
  case (Cons p ps)
  obtain x n1 where x: "send_consensus_msg_to_net env [] (Some p) pl n = (x, n1)" by fastforce
  from Cons.IH [of n1] node_inv_send [OF Cons.prems(1) x] Cons.prems(2) x show ?case
    by (cases x) auto
qed simp

lemma outbound_msg_inv:
  assumes "node_inv n" "handle_consensus_outbound_msg env msg n = (r, n')"
  shows "node_inv n'"
proof -
  let ?n = "log_metrics [Metric_inc (Sent_consensus_messages (packet_type_label (variant msg)))] n"
  have inv: "node_inv ?n" using assms(1) by simp
  show ?thesis
    using assms(2) inv send_to_peers_inv [OF inv] node_inv_send [OF inv]
    by (auto simp: handle_consensus_outbound_msg_def Let_def split: option.splits sum.splits)
qed

lemma send_msg_to_consensus_node:
  "send_msg_to_consensus env lib src msg (n, st) = (r, n', st') \<Longrightarrow> \<exists>b. n' = n\<lparr>n_bad_events := b\<rparr>"
  by (auto simp: send_msg_to_consensus_def Let_def split: if_splits prod.splits sum.splits
      intro: exI [of _ "n_bad_events n"])

lemma update_peer_states_inv:
  assumes "env_ok env" "node_inv n" "update_peer_states env request src res n = (r, n')"
  shows "node_inv n'"
proof -
  let ?n = "n\<lparr>n_peers := peers_feedback (variant request) (distribution_mode_of request) res src (n_peers n)\<rparr>"
  have inv: "node_inv ?n" by (intro node_inv_peers assms(2) peers_feedback_inv node_invD_peers)
  with assms(3) register_run_ok [OF assms(1) inv] send_to_peers_inv [OF inv] show ?thesis
    by (auto simp: update_peer_states_def Let_def run_ok_def split: if_splits)
qed

lemma inbound_msg_inv:
  assumes "env_ok env" "node_inv n" "handle_consensus_inbound_msg env lib request (n, st) = (r, n', st')"
  shows "node_inv n'"
proof -
  obtain x n1 st1 where x: "\<And>src. source_peer request = Inr src \<Longrightarrow>
      send_msg_to_consensus env lib src request (n, st) = (x, n1, st1)"
    by (cases "source_peer request") (auto, metis prod.collapse)
  show ?thesis
  proof (cases "source_peer request")
    case (Inl e)
    with assms(2,3) show ?thesis by (auto simp: handle_consensus_inbound_msg_def split: sum.splits)
  next
    case (Inr src)
    note x = x [OF Inr]
    have inv1: "node_inv n1" using send_msg_to_consensus_node [OF x] assms(2) by auto
    have inv2: "node_inv n2" if "update_peer_states env request src res n1 = (y, n2)" for res y n2
      by (rule update_peer_states_inv [OF assms(1) inv1 that])
    have inv3: "node_inv n3" if "rebroadcast env b request res n2 = (y, n3)" "node_inv n2" for b res n2 y n3
      using that by (auto simp: rebroadcast_def intro: node_inv_send split: if_splits)
    show ?thesis
      using assms(2,3) Inr x inv1 inv2
      by (auto simp: handle_consensus_inbound_msg_def Let_def split: sum.splits prod.splits option.splits
          dest!: inv3)
  qed
qed

lemma kvs_update_inv: "node_inv n \<Longrightarrow> kvs_update env msg store act n = (r, n') \<Longrightarrow> node_inv n'"
  by (auto simp: kvs_update_def split: if_splits sum.splits prod.splits)

lemma register_inv: "env_ok env \<Longrightarrow> node_inv n \<Longrightarrow> (\<And>tok. ch \<noteq> Promotion tok) \<Longrightarrow> node_inv (register_conn_change env ch n)"
  using register_run_ok [of env n ch] by (simp add: run_ok_def)

lemma drops_inv:
  assumes "env_ok env" "node_inv n"
  shows "drop_by_id env i n = (b, n') \<Longrightarrow> node_inv n'"
    and "drop_by_ip_and_ban env ip n = (r, n') \<Longrightarrow> node_inv n'"
    and "drop_addr env a n = (b, n') \<Longrightarrow> node_inv n'"
    and "unban_node env p n = (u, n') \<Longrightarrow> node_inv n'"
proof -
  note reg = register_inv [OF assms(1)]
  show "drop_by_id env i n = (b, n') \<Longrightarrow> node_inv n'"
    using assms(2) by (auto simp: drop_by_id_def intro: reg split: option.splits)
  show "drop_addr env a n = (b, n') \<Longrightarrow> node_inv n'"
    using assms(2) by (auto simp: drop_addr_def Let_def intro!: reg split: option.splits)
  show "unban_node env p n = (u, n') \<Longrightarrow> node_inv n'"
    using kvs_update_inv [OF assms(2)] by (simp add: unban_node_def)
  obtain x n1 where x: "kvs_update env ''Couldn't ban a peer'' BAN_STORE_NAME
      (Inr (Kv_put (serial_ban env (Persisted_ip ip)))) n = (x, n1)" by fastforce
  show "drop_by_ip_and_ban env ip n = (r, n') \<Longrightarrow> node_inv n'"
    using x kvs_update_inv [OF assms(2) x] by (cases x) (auto simp: drop_by_ip_and_ban_def Let_def intro!: reg)
qed

section \<open>Runs\<close>

text \<open>The state: what the poll loop remembers, the node and the consensus library.  The messages that
  the consensus threads take from the queues, and that the library puts there, only change the queues.\<close>

inductive node_step ::
    "('c, 'cb) consensus_lib \<Rightarrow> poll_state \<times> ('ns, 'kv) p2p_node \<times> 'c \<Rightarrow> poll_state \<times> ('ns, 'kv) p2p_node \<times> 'c \<Rightarrow> bool"
  for lib :: "('c, 'cb) consensus_lib" where
  iteration: "input_ok inp \<Longrightarrow> tokens_left (iteration_cost inp n) n \<Longrightarrow> \<not> is_network_stopped n \<Longrightarrow>
    poll_iteration inp (ps, n) = Some (r, ps', n') \<Longrightarrow> node_step lib (ps, n, st) (ps', n', st)"
| outbound: "env_ok env \<Longrightarrow> handle_consensus_outbound_msg env msg n = (r, n') \<Longrightarrow>
    node_step lib (ps, n, st) (ps, n', st)"
| inbound: "env_ok env \<Longrightarrow> handle_consensus_inbound_msg env lib msg (n, st) = (r, n', st') \<Longrightarrow>
    node_step lib (ps, n, st) (ps, n', st')"
| queues: "node_step lib (ps, n, st) (ps, n\<lparr>callback_queue := q\<rparr>, st')"
| regenesis: "node_step lib (ps, n, st) (ps, n\<lparr>n_regenesis := regenesis_callback h (n_regenesis n)\<rparr>, st')"
| add_peer: "env_ok env \<Longrightarrow> node_step lib (ps, n, st) (ps, register_conn_change env (NewConn a pt given) n, st)"
| drop_peer: "env_ok env \<Longrightarrow> drop_by_id env i n = (b, n') \<Longrightarrow> node_step lib (ps, n, st) (ps, n', st)"
| ban_peer: "env_ok env \<Longrightarrow> drop_by_ip_and_ban env ip n = (rb, n') \<Longrightarrow> node_step lib (ps, n, st) (ps, n', st)"
| drop_address: "env_ok env \<Longrightarrow> drop_addr env a n = (b, n') \<Longrightarrow> node_step lib (ps, n, st) (ps, n', st)"
| unban_peer: "env_ok env \<Longrightarrow> unban_node env p n = (u, n') \<Longrightarrow> node_step lib (ps, n, st) (ps, n', st)"
| close: "node_close env n = Some (u, n') \<Longrightarrow> node_step lib (ps, n, st) (ps, n', st)"
| shutdown: "is_network_stopped n \<Longrightarrow> node_step lib (ps, n, st) (ps, close_connections n, st)"

lemma close_connections_inv: "node_inv n \<Longrightarrow> node_inv (close_connections n)"
  using collections_inv_subset [of "conn_candidates n" "connections n" "changes n" "next_token n" "[]" "[]"]
  by (simp add: close_connections_def node_inv_def peers_clear_inv log_metrics_def)

lemma node_step_inv: "node_step lib s t \<Longrightarrow> node_inv (fst (snd s)) \<Longrightarrow> node_inv (fst (snd t))"
proof (induction rule: node_step.induct)
  case (iteration inp n ps r ps' n' st)
  then show ?case using poll_iteration_ok [of inp n ps] by auto
next
  case (close env n u n' ps st)
  then show ?case by (auto simp: node_close_def stop_network_def)
qed (auto intro: outbound_msg_inv inbound_msg_inv register_inv drops_inv close_connections_inv)

section \<open>A new node\<close>

lemma p2p_node_new_InrD:
  assumes "p2p_node_new env su parse_ip i conf pt stats tp rg = Inr n"
  shows "\<exists>sp nc given kvs. node_config_of conf pt = Inr nc \<and>
    n = clear_on_start env (connection_handler_new env (su_seeds su) conf sp nc given rg stats tp kvs)"
  using assms by (auto simp: p2p_node_new_def Let_def split: sum.splits)

lemma new_node_inv:
  assumes "channel_lawful (e_changes env)" "parse_config conf = Inr conf'"
    and "p2p_node_new env su parse_ip i conf' pt stats tp rg = Inr n"
    and "- (2 ^ 63) \<le> tp_timestamp tp" "tp_timestamp tp < 2 ^ 63"
  shows "node_inv n"
proof -
  note acc = parse_config_InrD [OF assms(2)]
  from p2p_node_new_InrD [OF assms(3)] obtain sp nc given kvs m where nc: "node_config_of conf' pt = Inr nc"
    and m: "m = connection_handler_new env (su_seeds su) conf' sp nc given rg stats tp kvs"
    and n: "n = clear_on_start env m" by blast
  note nc = node_config_of_Inr [OF nc]
  have "config_inv nc" using acc nc by (simp add: config_inv_def)
  moreover have "chan_bounded (e_changes env) k = \<lparr>chan_items = [], chan_capacity = k\<rparr>" for k
    using assms(1) by (simp add: channel_lawful_def)
  moreover have "collections_inv [] [] [] 1" by (simp add: collections_inv_def)
  ultimately have inv: "node_inv m"
    unfolding m using assms(4,5)
    by (simp add: node_inv_def connection_handler_new_def buckets_inv_default peer_list_inv_default)
  have clear: "node_inv (snd (clear_bans env k))" "node_inv (snd (clear_persisted_peers env k))" if "node_inv k" for k
    using kvs_update_inv [OF that] unfolding clear_bans_def clear_persisted_peers_def by (metis prod.collapse)+
  show ?thesis unfolding n clear_on_start_def using inv clear by (simp add: Let_def)
qed

text \<open>A node as it comes from \<open>P2PNode::new\<close> with a configuration that passed the checks.\<close>

definition new_node :: "('ns, 'kv) p2p_node \<Rightarrow> bool" where
  "new_node n \<longleftrightarrow> (\<exists>env su parse_ip i conf conf' pt stats tp rg.
     channel_lawful (e_changes env) \<and> parse_config conf = Inr conf' \<and>
     - (2 ^ 63) \<le> tp_timestamp tp \<and> tp_timestamp tp < 2 ^ 63 \<and>
     p2p_node_new env su parse_ip i conf' pt stats tp rg = Inr n)"

interpretation node_sys: transition_system "\<lambda>s. new_node (fst (snd s))" "node_step lib" "\<lambda>s. node_inv (fst (snd s))"
  for lib :: "('c, 'cb) consensus_lib"
  by unfold_locales (auto simp: new_node_def intro: new_node_inv node_step_inv)

section \<open>An example\<close>

text \<open>A noise session that refuses short messages.\<close>

definition careful_noise :: "(bool \<times> nat) noise_ops" where
  "careful_noise = plain_noise\<lparr>ns_recv_message := (\<lambda>m ns.
     if length m < 96 then (Inl (Bail ''too short''), ns) else (Inr m, apsnd Suc ns))\<rparr>"

lemma careful_noise_safe: "noise_safe careful_noise"
  by (auto simp: noise_safe_def noise_in_place_def careful_noise_def plain_noise_def NOISE_AUTH_TAG_LEN_def
      split: if_splits)

definition safe_env :: "(bool \<times> nat, example_kv) env" where
  "safe_env = example_env\<lparr>e_noise := careful_noise\<rparr>"

lemma safe_env_ok: "env_ok safe_env"
  by (auto simp: env_ok_def safe_env_def example_env_def careful_noise_safe intro: list_channel_lawful
      split: list.split)

definition example_startup :: "example_kv startup" where
  "example_startup = \<lparr>su_interfaces = Inr [V4 0x0A000001], su_random_id = P2PNodeId 7, su_seeds = word_of_nat,
     su_poll = Inr (), su_bind = (\<lambda>_. Inr ()), su_clone = Inr (), su_register = Inr (), su_kvs = (\<lambda>_. Inr [])\<rparr>"

definition example_throughput :: throughput where
  "example_throughput = \<lparr>tp_received_bytes = 0, tp_sent_bytes = 0, tp_timestamp = 0, tp_avg_bps_in = 0, tp_avg_bps_out = 0\<rparr>"

definition fresh_node :: "(bool \<times> nat, example_kv) p2p_node result" where
  "fresh_node = p2p_node_new safe_env example_startup (\<lambda>_. Inl (Bail ''invalid IP address syntax'')) None
     default_config Node [] example_throughput (regenesis_from_blocks [])"

lemma fresh_node_new: "\<exists>n. fresh_node = Inr n \<and> new_node n \<and> next_token n = 1 \<and> given_addresses n = [] \<and>
    changes n = [] \<and> chan_capacity (conn_changes n) = 50 \<and> \<not> is_network_stopped n"
proof -
  obtain nc where nc: "node_config_of default_config Node = Inr nc" "nc_clear_bans nc = False" "nc_clear_persisted_peers nc = False"
    by (simp add: node_config_of_def default_config_def Let_def)
  let ?sp = "\<lparr>pp_id = P2PNodeId 7, pp_addr = socket_addr_new (V4 0x0A000001) 8888, pp_peer_type = Node\<rparr>"
  define n where "n = connection_handler_new safe_env word_of_nat default_config ?sp nc [] (regenesis_from_blocks [])
      [] example_throughput []"
  have "get_ip (su_interfaces example_startup) = Some (V4 0x0A000001)"
    by (simp add: get_ip_def example_startup_def get_ip_if_suitable_def LOCALHOST_def Let_def)
  moreover have "cm_listen_address (common default_config) = None" "cc_connect_to (connection default_config) = []"
    "cm_listen_port (common default_config) = 8888" "cm_external_port (common default_config) = None"
    by (simp_all add: default_config_def)
  moreover have "clear_on_start safe_env n = n"
    by (simp add: clear_on_start_def n_def connection_handler_new_def nc)
  ultimately have eq: "fresh_node = Inr n"
    unfolding fresh_node_def p2p_node_new_def
    by (simp add: Let_def nc(1) example_startup_def n_def)
  have "new_node n"
    unfolding new_node_def using eq [unfolded fresh_node_def] default_config_accepted
    by (intro exI [of _ safe_env] exI [of _ example_startup] exI [of _ "\<lambda>_. Inl (Bail ''invalid IP address syntax'')"]
        exI [of _ None] exI [of _ default_config] exI [of _ Node] exI [of _ "[]"] exI [of _ example_throughput]
        exI [of _ "regenesis_from_blocks []"])
      (simp add: example_throughput_def safe_env_def example_env_def list_channel_lawful)
  moreover have "next_token n = 1" "given_addresses n = []" "changes n = []" "chan_capacity (conn_changes n) = 50"
    "\<not> is_network_stopped n"
    by (simp_all add: n_def connection_handler_new_def safe_env_def example_env_def list_channel_ops_def
        default_config_def is_network_stopped_def regenesis_from_blocks_def)
  ultimately show ?thesis using eq by blast
qed

text \<open>A run: an operator asks for a connection to a given address, and the poll loop handles the request.\<close>

definition quiet_input :: "(bool \<times> nat, example_kv) poll_input" where
  "quiet_input = \<lparr>pi_poll = Inr [], pi_listen = [], pi_changes = (\<lambda>_. safe_env), pi_peers = safe_env, pi_status = Some [],
     pi_sockets = safe_env, pi_housekeeping = safe_env, pi_cleanup = safe_env\<rparr>"

definition idle_poll :: poll_state where
  "idle_poll = \<lparr>log_time = 0, last_buckets_cleaned = 0, last_peer_list_update = 0, iterations_since_housekeeping = 0,
     unprocessed_attempts = False\<rparr>"

definition given_peer :: conn_change where
  "given_peer = NewConn (socket_addr_new (V4 0x0A000002) 8888) Node True"

definition silent_lib :: "(unit, unit) consensus_lib" where
  "silent_lib = \<lparr>receiveBlock = (\<lambda>_ _ _. (0, None, ())), executeBlock = (\<lambda>_ _. (0, ())),
     receiveFinalizationMessage = (\<lambda>_ _ _. (0, ())), receiveFinalizationRecord = (\<lambda>_ _ _. (0, ())),
     receiveTransaction = (\<lambda>_ _. (0, [], ())), receiveCatchUpStatus = (\<lambda>_ _ _ _ _. (0, ())),
     getCatchUpStatus = (\<lambda>_. (0, []))\<rparr>"

lemma quiet_input_ok: "input_ok quiet_input"
  by (simp add: input_ok_def quiet_input_def safe_env_ok)

lemma example_run:
  "\<exists>n0 n1. fresh_node = Inr n0 \<and> new_node n0 \<and> \<not> is_network_stopped n1 \<and> changes n1 = [given_peer] \<and>
     tokens_left (iteration_cost quiet_input n1) n1 \<and>
     (node_step lib)\<^sup>*\<^sup>* (idle_poll, n0, ()) (idle_poll, n1, ())"
proof -
  from fresh_node_new obtain n0 where n0: "fresh_node = Inr n0" "new_node n0" "next_token n0 = 1"
    "given_addresses n0 = []" "changes n0 = []" "chan_capacity (conn_changes n0) = 50" "\<not> is_network_stopped n0" by blast
  let ?n = "register_conn_change safe_env given_peer n0"
  have ch: "changes ?n = [given_peer]" "next_token ?n = 1" "given_addresses ?n = []" "\<not> is_network_stopped ?n"
    using n0 by (simp_all add: register_conn_change_def safe_env_def example_env_def list_channel_ops_def
        is_network_stopped_def)
  moreover have "tokens_left (iteration_cost quiet_input ?n) ?n"
    using ch by (simp add: tokens_left_def iteration_cost_def quiet_input_def given_peer_def)
  moreover have "(node_step lib)\<^sup>*\<^sup>* (idle_poll, n0, ()) (idle_poll, ?n, ())"
    unfolding given_peer_def by (rule r_into_rtranclp, rule node_step.add_peer, rule safe_env_ok)
  ultimately show ?thesis using n0 by blast
qed

section \<open>The poll thread\<close>

text \<open>(C1) The thread that runs the poll loop neither panics nor hangs.  Take a node as \<open>P2PNode::new\<close> makes it from a
  configuration that \<open>parse_config\<close> accepts, and any run of it: iterations of the poll loop, messages
  handled by the consensus threads, peers added, dropped, banned and unbanned by operators, in any order.  In the state reached,
  the next iteration ends and reports no error, whatever the peers send, if the sockets, the store and
  the noise sessions do as documented and connection tokens do not run out.\<close>

theorem poll_thread_never_panics:
  assumes "new_node n0" "(node_step lib)\<^sup>*\<^sup>* (ps0, n0, st0) (ps, n, st)"
    and "input_ok inp" "tokens_left (iteration_cost inp n) n"
  shows "\<exists>ps' n'. poll_iteration inp (ps, n) = Some (Inr (), ps', n')"
  using node_sys.inv_reachable [OF _ assms(2)] assms poll_iteration_ok [of inp n ps] by auto

theorem poll_thread_never_panics_witness:
  "\<exists>n0 n1. new_node n0 \<and> (node_step silent_lib)\<^sup>*\<^sup>* (idle_poll, n0, ()) (idle_poll, n1, ()) \<and> changes n1 = [given_peer] \<and>
     input_ok quiet_input \<and> tokens_left (iteration_cost quiet_input n1) n1 \<and>
     (\<exists>ps n2. poll_iteration quiet_input (idle_poll, n1) = Some (Inr (), ps, n2))"
proof -
  from example_run [of silent_lib] obtain n0 n1 where n: "new_node n0" "changes n1 = [given_peer]"
    "(node_step silent_lib)\<^sup>*\<^sup>* (idle_poll, n0, ()) (idle_poll, n1, ())"
    "tokens_left (iteration_cost quiet_input n1) n1" by blast
  from poll_thread_never_panics [OF n(1,3) quiet_input_ok n(4)] n quiet_input_ok show ?thesis by blast
qed

text \<open>(C4) In every state that a run reaches, each connection in the table of connections has completed
  the handshake, is kept under its own token, and no token is used twice among candidates and connections.\<close>

theorem connections_authenticated:
  assumes "new_node n0" "(node_step lib)\<^sup>*\<^sup>* (ps0, n0, st0) (ps, n, st)"
  shows "(\<forall>t c. (t, c) \<in> set (connections n) \<longrightarrow> is_post_handshake c) \<and>
    (\<forall>t c. (t, c) \<in> set (conn_candidates n @ connections n) \<longrightarrow> conn_token c = t) \<and>
    distinct (map fst (conn_candidates n @ connections n))"
  using node_sys.inv_reachable [OF _ assms(2)] assms(1)
  by (auto simp: node_inv_def collections_inv_def)

theorem connections_authenticated_witness:
  "\<exists>n0 n1 ps n2. new_node n0 \<and> (node_step silent_lib)\<^sup>*\<^sup>* (idle_poll, n0, ()) (ps, n2, ()) \<and>
     poll_iteration quiet_input (idle_poll, n1) = Some (Inr (), ps, n2) \<and>
     (\<forall>t c. (t, c) \<in> set (connections n2) \<longrightarrow> is_post_handshake c) \<and>
     (\<forall>t c. (t, c) \<in> set (conn_candidates n2 @ connections n2) \<longrightarrow> conn_token c = t) \<and>
     distinct (map fst (conn_candidates n2 @ connections n2))"
proof -
  from example_run [of silent_lib] obtain n0 n1 where n: "new_node n0" "\<not> is_network_stopped n1"
    "tokens_left (iteration_cost quiet_input n1) n1"
    and run: "(node_step silent_lib)\<^sup>*\<^sup>* (idle_poll, n0, ()) (idle_poll, n1, ())" by blast
  have "node_inv n1" using node_sys.inv_reachable [OF _ run] n(1) by simp
  from poll_iteration_ok [OF quiet_input_ok this n(3)] obtain ps n2 where
    it: "poll_iteration quiet_input (idle_poll, n1) = Some (Inr (), ps, n2)" by blast
  have run2: "(node_step silent_lib)\<^sup>*\<^sup>* (idle_poll, n0, ()) (ps, n2, ())"
    using node_step.iteration [OF quiet_input_ok n(3,2) it] run by (rule rtranclp.rtrancl_into_rtrancl [rotated])
  from connections_authenticated [OF n(1) run2] n(1) it run2 show ?thesis by blast
qed

end
