(* ===== verification/Catch_Up_Runs.thy ===== *)
theory Catch_Up_Runs
  imports Node_Runs
begin

text \<open>
  The node implements the catch-up list: whatever a run of the node does, its list of peers moves by
  steps of the list's own transition system, so what holds of that system holds of the node.
\<close>

section \<open>Messages of consensus\<close>

lemma send_to_net_peers:
  assumes "node_inv n" "send_consensus_msg_to_net env dont t pl n = (r, n')"
  shows "n_peers n' = n_peers n"
  using assms(2) send_message_ok [OF assms(1)]
  by (auto simp: send_consensus_msg_to_net_def send_direct_message_def send_broadcast_message_def Let_def
      split: option.splits prod.splits) (metis prod.inject)+

lemma send_to_peers_peers: "node_inv n \<Longrightarrow> send_to_peers env pl ps n = (r, n') \<Longrightarrow> n_peers n' = n_peers n"
proof (induction ps arbitrary: n)
  case (Cons p ps)
  obtain x n1 where x: "send_consensus_msg_to_net env [] (Some p) pl n = (x, n1)" by fastforce
  from Cons.IH [of n1] node_inv_send [OF Cons.prems(1) x] send_to_net_peers [OF Cons.prems(1) x] Cons.prems(2) x
  show ?case by (cases x) auto
qed simp

lemma outbound_msg_peers:
  assumes "node_inv n" "handle_consensus_outbound_msg env msg n = (r, n')"
  shows "n_peers n' = n_peers n"
proof -
  let ?n = "log_metrics [Metric_inc (Sent_consensus_messages (packet_type_label (variant msg)))] n"
  have inv: "node_inv ?n" using assms(1) by simp
  show ?thesis
    using assms(2) send_to_peers_peers [OF inv] send_to_net_peers [OF inv]
    by (auto simp: handle_consensus_outbound_msg_def Let_def split: option.splits sum.splits)
qed

lemma update_peer_states_step:
  assumes "node_inv n" "update_peer_states env request src res n = (r, n')"
  shows "n_peers n' = peers_feedback (variant request) (distribution_mode_of request) res src (n_peers n)"
proof -
  let ?n = "n\<lparr>n_peers := peers_feedback (variant request) (distribution_mode_of request) res src (n_peers n)\<rparr>"
  have inv: "node_inv ?n" by (intro node_inv_peers assms(1) peers_feedback_inv node_invD_peers)
  with assms(2) send_to_peers_peers [OF inv] show ?thesis
    by (auto simp: update_peer_states_def Let_def split: if_splits)
qed

lemma inbound_msg_steps:
  assumes "env_ok env" "node_inv n" "handle_consensus_inbound_msg env lib request (n, st) = (r, n', st')"
  shows "peers_step\<^sup>*\<^sup>* (n_peers n, c) (n_peers n', c)"
proof (cases "source_peer request")
  case (Inl e)
  with assms(3) show ?thesis by (auto simp: handle_consensus_inbound_msg_def split: sum.splits)
next
  case (Inr src)
  obtain x n1 st1 where x: "send_msg_to_consensus env lib src request (n, st) = (x, n1, st1)" by (metis prod.collapse)
  have n1: "n_peers n1 = n_peers n" "node_inv n1" using send_msg_to_consensus_node [OF x] assms(2) by auto
  have keep: "n_peers n3 = n_peers n2" if "rebroadcast env b request res n2 = (y, n3)" "node_inv n2" for b res n2 y n3
    using that by (auto simp: rebroadcast_def dest: send_to_net_peers split: if_splits)
  have "n_peers n' = n_peers n \<or>
      (\<exists>res. n_peers n' = peers_feedback (variant request) (distribution_mode_of request) res src (n_peers n))"
  proof (cases x)
    case (Inl e)
    with assms(3) Inr x n1 show ?thesis by (auto simp: handle_consensus_inbound_msg_def split: sum.splits)
  next
    case x': (Inr p)
    obtain res fin where p: "p = (res, fin)" by fastforce
    obtain y n2 where y: "update_peer_states env request src res n1 = (y, n2)" by fastforce
    note n2 = update_peer_states_step [OF n1(2) y] update_peer_states_inv [OF assms(1) n1(2) y]
    from assms(3) Inr x x' p y n1 n2 show ?thesis
      by (auto simp: handle_consensus_inbound_msg_def Let_def split: sum.splits prod.splits option.splits dest!: keep)
  qed
  then show ?thesis by (elim disjE exE) (simp_all add: r_into_rtranclp peers_step.feedback)
qed

section \<open>Operators\<close>

lemma drops_peers:
  "drop_by_id env i n = (b, n') \<Longrightarrow> n_peers n' = n_peers n"
  "drop_by_ip_and_ban env ip n = (rb, n') \<Longrightarrow> n_peers n' = n_peers n"
  "drop_addr env a n = (b, n') \<Longrightarrow> n_peers n' = n_peers n"
  "unban_node env p n = (u, n') \<Longrightarrow> n_peers n' = n_peers n"
proof -
  show "drop_by_id env i n = (b, n') \<Longrightarrow> n_peers n' = n_peers n"
    by (auto simp: drop_by_id_def split: option.splits)
  show "drop_addr env a n = (b, n') \<Longrightarrow> n_peers n' = n_peers n"
    by (auto simp: drop_addr_def Let_def split: option.splits)
  show "unban_node env p n = (u, n') \<Longrightarrow> n_peers n' = n_peers n"
    using kvs_update_fields(11) by (metis snd_conv unban_node_def)
  obtain x n1 where x: "kvs_update env ''Couldn't ban a peer'' BAN_STORE_NAME
      (Inr (Kv_put (serial_ban env (Persisted_ip ip)))) n = (x, n1)" by fastforce
  then have "n_peers n1 = n_peers n" by (metis kvs_update_fields(11) snd_conv)
  with x show "drop_by_ip_and_ban env ip n = (rb, n') \<Longrightarrow> n_peers n' = n_peers n"
    by (cases x) (auto simp: drop_by_ip_and_ban_def Let_def)
qed

section \<open>Simulation\<close>

lemma node_step_peers:
  "node_step lib s t \<Longrightarrow> node_inv (fst (snd s)) \<Longrightarrow> peers_step\<^sup>*\<^sup>* (n_peers (fst (snd s)), Idle) (n_peers (fst (snd t)), Idle)"
proof (induction rule: node_step.induct)
  case (iteration inp n ps r ps' n' st)
  then show ?case using poll_iteration_ok [of inp n ps] by auto
next
  case (inbound env msg n st r n' st' ps)
  then show ?case by (auto intro: inbound_msg_steps)
next
  case (shutdown n ps st)
  then show ?case by (simp add: close_connections_def r_into_rtranclp peers_step.shutdown)
next
  case (close env n u n' ps st)
  then show ?case by (auto simp: node_close_def stop_network_def)
qed (auto dest: outbound_msg_peers drops_peers)

lemma new_node_peers: "new_node n \<Longrightarrow> n_peers n = peer_list_default"
  by (auto simp: new_node_def clear_on_start_def Let_def clear_bans_def clear_persisted_peers_def connection_handler_new_def
      dest!: p2p_node_new_InrD)

lemma node_steps_peers:
  assumes "(node_step lib)\<^sup>*\<^sup>* s t" "node_inv (fst (snd s))"
  shows "peers_step\<^sup>*\<^sup>* (n_peers (fst (snd s)), Idle) (n_peers (fst (snd t)), Idle)"
  using assms(1)
proof (induction rule: rtranclp_induct)
  case (step t u)
  have "node_inv (fst (snd t))" using node_sys.inv_steps [OF step.hyps(1)] assms(2) by simp
  with node_step_peers [OF step.hyps(2)] step.IH show ?case by (meson rtranclp_trans)
qed simp

text \<open>(C3) The node implements the catch-up list: along every run of a new node, its list of peers
  goes through a run of the list's own transition system, from the empty list.  The poll loop, the
  sockets, the consensus threads and the operators do nothing else to the list.\<close>

theorem node_implements_catch_up_list:
  assumes "new_node n0" "(node_step lib)\<^sup>*\<^sup>* (ps0, n0, st0) (ps, n, st)"
  shows "peers_step\<^sup>*\<^sup>* (peer_list_default, Idle) (n_peers n, Idle)"
  using node_steps_peers [OF assms(2)] node_sys.inv_init [of "(ps0, n0, st0)"] new_node_peers [OF assms(1)] assms(1) by simp

theorem node_implements_catch_up_list_witness:
  "\<exists>n0 n1. fresh_node = Inr n0 \<and> new_node n0 \<and> (node_step silent_lib)\<^sup>*\<^sup>* (idle_poll, n0, ()) (idle_poll, n1, ()) \<and> changes n1 = [given_peer] \<and>
     peers_step\<^sup>*\<^sup>* (peer_list_default, Idle) (n_peers n1, Idle)"
proof -
  from example_run [of silent_lib] obtain n0 n1 where n: "new_node n0" "changes n1 = [given_peer]"
    "(node_step silent_lib)\<^sup>*\<^sup>* (idle_poll, n0, ()) (idle_poll, n1, ())" "fresh_node = Inr n0" by blast
  from node_implements_catch_up_list [OF n(1,3)] n show ?thesis by blast
qed

end
