(* ===== verification/Node_Policy.thy ===== *)
theory Node_Policy
  imports Node_Runs
begin

text \<open>
  What the node does with its connections, on the whole: bans keep an address out, the limit on
  incoming connections holds, and excess peers are dropped.
\<close>

section \<open>Removing connections\<close>

lemma log_metrics_kvs [simp]: "n_kvs (log_metrics l n) = n_kvs n"
  by (simp add: log_metrics_def)

lemma retain_absent:
  "tok \<notin> fst ` set m \<Longrightarrow> hm_retain (\<lambda>t _. t \<notin> set toks) m = hm_retain (\<lambda>t _. t \<notin> set (tok # toks)) m"
  by (rule filter_cong) force+

lemma retain_delete: "hm_retain (\<lambda>t _. t \<notin> set toks) (hm_remove tok m) = hm_retain (\<lambda>t _. t \<notin> set (tok # toks)) m"
  by (simp add: AList.delete_eq) (rule filter_cong, auto)

lemma hm_get_None_iff: "hm_get m k = None \<longleftrightarrow> k \<notin> fst ` set m"
  by (fact map_of_eq_None_iff)

text \<open>Exactly the connections with the given tokens are removed.\<close>

lemma remove_loop_collections:
  assumes "hm_wf (conn_candidates n @ connections n)" "remove_loop toks n = (b, ps, n')"
  shows "conn_candidates n' = hm_retain (\<lambda>t _. t \<notin> set toks) (conn_candidates n) \<and>
    connections n' = hm_retain (\<lambda>t _. t \<notin> set toks) (connections n) \<and> n_kvs n' = n_kvs n"
  using assms
proof (induction toks n arbitrary: b ps n' rule: remove_loop.induct)
  case (1 n)
  then show ?case by simp
next
  case (2 tok toks n)
  have disj: "fst ` set (conn_candidates n) \<inter> fst ` set (connections n) = {}" using "2.prems"(1) by simp
  show ?case
  proof (cases "hm_get (conn_candidates n) tok")
    case (Some c)
    let ?n = "log_metrics (connection_drop c) (n\<lparr>conn_candidates := hm_remove tok (conn_candidates n)\<rparr>)"
    from Some have "tok \<in> fst ` set (conn_candidates n)" by (metis hm_get_None_iff option.distinct(1))
    with disj have gone: "tok \<notin> fst ` set (connections n)" by blast
    have wf: "hm_wf (conn_candidates ?n @ connections ?n)"
      using "2.prems"(1) by (auto simp: AList.delete_eq distinct_map_filter)
    from "2.prems"(2) Some obtain b1 where "remove_loop toks ?n = (b1, ps, n')" by (auto split: prod.splits)
    from "2.IH"(3) [OF Some wf this] show ?thesis
      using retain_delete [of toks tok] retain_absent [OF gone, of toks] by simp
  next
    case None
    note cand = this
    show ?thesis
    proof (cases "hm_get (connections n) tok")
      case (Some c)
      let ?n = "log_metrics (connection_drop c) (n\<lparr>connections := hm_remove tok (connections n)\<rparr>)"
      have gone: "tok \<notin> fst ` set (conn_candidates n)" using cand by (simp add: hm_get_None_iff)
      have wf: "hm_wf (conn_candidates ?n @ connections ?n)"
        using "2.prems"(1) by (auto simp: AList.delete_eq distinct_map_filter)
      from "2.prems"(2) cand Some obtain b1 ps1 where "remove_loop toks ?n = (b1, ps1, n')" by (auto split: prod.splits)
      from "2.IH"(2) [OF cand Some wf this] show ?thesis
        using retain_delete [of toks tok] retain_absent [OF gone, of toks] by simp
    next
      case none: None
      have gone: "tok \<notin> fst ` set (conn_candidates n)" "tok \<notin> fst ` set (connections n)"
        using cand none by (simp_all add: hm_get_None_iff)
      from "2.prems"(2) cand none have "remove_loop toks n = (b, ps, n')" by simp
      from "2.IH"(1) [OF cand none "2.prems"(1) this] show ?thesis
        using retain_absent [OF gone(1), of toks] retain_absent [OF gone(2), of toks] by simp
    qed
  qed
qed

lemma remove_connections_collections:
  assumes "hm_wf (conn_candidates n @ connections n)" "remove_connections env toks n = (r, n')"
  shows "conn_candidates n' = hm_retain (\<lambda>t _. t \<notin> set toks) (conn_candidates n)"
    and "connections n' = hm_retain (\<lambda>t _. t \<notin> set toks) (connections n)"
    and "n_kvs n' = n_kvs n"
proof -
  obtain b ps n1 where "remove_loop toks n = (b, ps, n1)" by (metis prod.collapse)
  from remove_loop_collections [OF assms(1) this] this assms(2)
  show "conn_candidates n' = hm_retain (\<lambda>t _. t \<notin> set toks) (conn_candidates n)"
    "connections n' = hm_retain (\<lambda>t _. t \<notin> set toks) (connections n)" "n_kvs n' = n_kvs n"
    by (auto simp: remove_connections_def Let_def bump_last_peer_update_def split: if_splits)
qed

section \<open>Bans\<close>

text \<open>Forgetting persisted peers leaves the connections and the bans alone.\<close>

lemma log_error_state: "snd (log_error (r, s)) = s"
  by (auto simp: log_error_def split: sum.split rust_error.split)

lemma remove_persisted_peer_keeps:
  assumes "kv_lawful keys env"
  shows "conn_candidates (snd (remove_persisted_peer env a n)) = conn_candidates n"
    and "connections (snd (remove_persisted_peer env a n)) = connections n"
    and "keys (n_kvs (snd (remove_persisted_peer env a n))) BAN_STORE_NAME = keys (n_kvs n) BAN_STORE_NAME"
proof -
  show "conn_candidates (snd (remove_persisted_peer env a n)) = conn_candidates n"
    "connections (snd (remove_persisted_peer env a n)) = connections n"
    by (simp_all add: remove_persisted_peer_def)
  show "keys (n_kvs (snd (remove_persisted_peer env a n))) BAN_STORE_NAME = keys (n_kvs n) BAN_STORE_NAME"
  proof (cases "e_addr_to_json env a")
    case (Inl e)
    then show ?thesis by (simp add: remove_persisted_peer_def kvs_update_def Let_def split: sum.split)
  next
    case (Inr key)
    obtain r n' where "kvs_update env ''Could not acquire lock over lmdb'' PEERS_STORE_NAME (Inr (Kv_delete key)) n = (r, n')"
      by fastforce
    with kvs_update_keys [OF assms this] Inr show ?thesis
      by (simp add: remove_persisted_peer_def BAN_STORE_NAME_def PEERS_STORE_NAME_def split: sum.splits)
  qed
qed

lemma remove_persisted_peers_keeps:
  assumes "kv_lawful keys env" "remove_persisted_peers env ps n = (r, n')"
  shows "conn_candidates n' = conn_candidates n \<and> connections n' = connections n \<and>
    keys (n_kvs n') BAN_STORE_NAME = keys (n_kvs n) BAN_STORE_NAME"
  using assms(2)
proof (induction ps arbitrary: n)
  case (Cons p ps)
  obtain x n1 where x: "log_error (remove_persisted_peer env (external_addr p) n) = (x, n1)" by fastforce
  then have "n1 = snd (remove_persisted_peer env (external_addr p) n)"
    using log_error_state by (metis prod.collapse snd_conv)
  with Cons x remove_persisted_peer_keeps [OF assms(1), of "external_addr p" n] show ?case
    by (cases x) (auto simp: bind_res_def)
qed simp

lemma banned_refused:
  assumes "kv_lawful keys env" "is_banned env (Persisted_ip (sa_ip a)) n = Inr b"
    and "serial_ban env (Persisted_ip (sa_ip a)) \<in> keys (n_kvs n) BAN_STORE_NAME"
  shows "fst (accept env sock a n) = Inl Banned"
    and "max_peers_reached pt resp n = Inr reached \<Longrightarrow> \<exists>e. connect env pt a i resp n = (Inl e, n)"
proof -
  let ?n = "log_metrics [Metric_inc Connections_received] n"
  have b: "is_banned env (Persisted_ip (sa_ip a)) n = Inr True"
    using assms kv_lawfulD(3) [OF assms(1)] by (auto simp: is_banned_def split: if_splits sum.splits)
  moreover have "is_banned env p ?n = is_banned env p n" for p
    by (simp add: is_banned_def split: sum.split)
  ultimately show "fst (accept env sock a n) = Inl Banned"
    by (simp add: accept_def unwrap_or_def)
  show "\<exists>e. connect env pt a i resp n = (Inl e, n)" if "max_peers_reached pt resp n = Inr reached"
    using b that by (cases reached) (simp_all add: connect_def unwrap_or_def)
qed

lemma drop_by_ip_and_ban_state:
  assumes "kv_lawful keys env" "channel_lawful (e_changes env)" "drop_by_ip_and_ban env ip n = (Inr r, n1)"
    and "changes n = []" "0 < chan_capacity (conn_changes n)"
  shows "conn_candidates n1 = conn_candidates n" "connections n1 = connections n"
    "changes n1 = [RemoveAllByTokens (find_conn_tokens_by_ip ip n)]"
    "serial_ban env (Persisted_ip ip) \<in> keys (n_kvs n1) BAN_STORE_NAME"
    "chan_capacity (conn_changes n1) = chan_capacity (conn_changes n)"
proof -
  obtain x m where m: "kvs_update env ''Couldn't ban a peer'' BAN_STORE_NAME
      (Inr (Kv_put (serial_ban env (Persisted_ip ip)))) n = (x, m)" by fastforce
  with assms(3) obtain u where x: "x = Inr u" by (cases x) (auto simp: drop_by_ip_and_ban_def)
  have "snd (kvs_update env ''Couldn't ban a peer'' BAN_STORE_NAME
      (Inr (Kv_put (serial_ban env (Persisted_ip ip)))) n) = m" using m by simp
  then have fields: "conn_candidates m = conn_candidates n" "connections m = connections n" "conn_changes m = conn_changes n"
    by (metis kvs_update_fields(6), metis kvs_update_fields(7), metis kvs_update_fields(8))
  define m1 where "m1 = m\<lparr>given_addresses := filter (\<lambda>a. sa_ip a \<noteq> ip) (given_addresses m)\<rparr>"
  have n1: "n1 = register_conn_change env (RemoveAllByTokens (find_conn_tokens_by_ip ip m1)) m1"
    using assms(3) m x by (simp add: drop_by_ip_and_ban_def Let_def m1_def)
  have m: "conn_candidates m1 = conn_candidates n" "connections m1 = connections n" "conn_changes m1 = conn_changes n"
    "serial_ban env (Persisted_ip ip) \<in> keys (n_kvs m1) BAN_STORE_NAME"
    using fields kvs_update_keys [OF assms(1) m] x by (simp_all add: m1_def)
  moreover have "find_conn_tokens_by_ip ip m1 = find_conn_tokens_by_ip ip n"
    using m by (simp add: find_conn_tokens_by_ip_def)
  ultimately show "conn_candidates n1 = conn_candidates n" "connections n1 = connections n"
    "changes n1 = [RemoveAllByTokens (find_conn_tokens_by_ip ip n)]"
    "serial_ban env (Persisted_ip ip) \<in> keys (n_kvs n1) BAN_STORE_NAME"
    "chan_capacity (conn_changes n1) = chan_capacity (conn_changes n)"
    using assms(4,5) channel_lawful_send [OF assms(2)] by (simp_all add: n1 register_conn_change_def)
qed

lemma process_single_change:
  assumes "channel_lawful (e_changes env)" "changes n = [ch]"
    and "process_conn_change env ch (n\<lparr>conn_changes := (conn_changes n)\<lparr>chan_items := []\<rparr>\<rparr>) = (Inr (), n')" "changes n' = []"
  shows "process_conn_changes (\<lambda>_. env) i n = Some (Inr (), n')"
  using assms(2-4) channel_lawful_recv [OF assms(1)]
  by (simp add: process_conn_changes.simps [of "\<lambda>_. env" i n] process_conn_changes.simps [of "\<lambda>_. env" "Suc i" n'])

lemma tokens_by_ip:
  assumes "node_inv n" "(t, c) \<in> set (conn_candidates n) \<union> set (connections n)"
  shows "t \<in> set (find_conn_tokens_by_ip ip n) \<longleftrightarrow> sa_ip (addr (c_remote_peer c)) = ip"
proof -
  have wf: "hm_wf (conn_candidates n @ connections n)"
    and tok: "\<And>t c. (t, c) \<in> set (conn_candidates n @ connections n) \<Longrightarrow> conn_token c = t"
    using assms(1) by (auto simp: node_inv_def collections_inv_def)
  have same: "c' = c" if "(t, c') \<in> set (conn_candidates n @ connections n)" for c'
    using that assms(2) wf by (metis Un_iff eq_key_imp_eq_value set_append)
  have mem: "t \<in> set (find_conn_tokens_by_ip ip n) \<longleftrightarrow>
      (\<exists>t' c'. (t', c') \<in> set (conn_candidates n @ connections n) \<and> sa_ip (addr (c_remote_peer c')) = ip \<and> conn_token c' = t)"
    unfolding find_conn_tokens_by_ip_def map_append [symmetric] set_map set_filter by force
  show ?thesis
  proof
    assume "t \<in> set (find_conn_tokens_by_ip ip n)"
    then obtain t' c' where c': "(t', c') \<in> set (conn_candidates n @ connections n)"
      "sa_ip (addr (c_remote_peer c')) = ip" "conn_token c' = t" unfolding mem by blast
    with tok [OF c'(1)] same [of c'] show "sa_ip (addr (c_remote_peer c)) = ip" by simp
  next
    assume "sa_ip (addr (c_remote_peer c)) = ip"
    with assms(2) tok [of t c] show "t \<in> set (find_conn_tokens_by_ip ip n)" unfolding mem by (metis set_append)
  qed
qed

lemma ban_carried_out:
  assumes "env_ok env" "kv_lawful keys env" "node_inv n" "changes n = []" "0 < chan_capacity (conn_changes n)"
    and "drop_by_ip_and_ban env ip n = (Inr r, n1)"
  shows "\<exists>n2. process_conn_changes (\<lambda>_. env) 0 n1 = Some (Inr (), n2) \<and> node_inv n2 \<and>
    (\<forall>t c. (t, c) \<in> set (conn_candidates n2 @ connections n2) \<longleftrightarrow>
       (t, c) \<in> set (conn_candidates n @ connections n) \<and> sa_ip (addr (c_remote_peer c)) \<noteq> ip) \<and>
    serial_ban env (Persisted_ip ip) \<in> keys (n_kvs n2) BAN_STORE_NAME"
proof -
  let ?toks = "find_conn_tokens_by_ip ip n"
  let ?n1 = "n1\<lparr>conn_changes := (conn_changes n1)\<lparr>chan_items := []\<rparr>\<rparr>"
  note n1 = drop_by_ip_and_ban_state [OF assms(2) env_okD(2) [OF assms(1)] assms(6,4,5)]
  have inv1: "node_inv n1" by (rule drops_inv(2) [OF assms(1,3,6)])
  have inv: "node_inv ?n1" using inv1 collections_inv_changes [of "conn_candidates n1" "connections n1" "changes n1" "next_token n1" "[]"]
    by (simp add: node_inv_def)
  have wf: "hm_wf (conn_candidates ?n1 @ connections ?n1)" using inv by (simp add: node_inv_def collections_inv_def)
  obtain b ps m where m: "remove_connections env ?toks ?n1 = ((b, ps), m)" by (metis prod.collapse)
  note rem = remove_connections_collections [OF wf m]
  have "op_ok 0 (Inr ()) ?n1 m" by (rule remove_connections_ok [OF inv m])
  then have mok: "node_inv m" "changes m = []" by (simp_all add: op_ok_def)
  from remove_persisted_peers_ok [OF assms(1) mok(1), of ps] obtain n2 where
    n2: "remove_persisted_peers env ps m = (Inr (), n2)" "op_ok 0 (Inr ()) m n2" by blast
  note keep = remove_persisted_peers_keeps [OF assms(2) n2(1)]
  have "process_conn_changes (\<lambda>_. env) 0 n1 = Some (Inr (), n2)"
    by (rule process_single_change [OF env_okD(2) [OF assms(1)] n1(3)])
      (use m n2 mok in \<open>simp_all add: process_conn_change_def op_ok_def\<close>)
  moreover have "(t, c) \<in> set (conn_candidates n2 @ connections n2) \<longleftrightarrow>
      (t, c) \<in> set (conn_candidates n @ connections n) \<and> sa_ip (addr (c_remote_peer c)) \<noteq> ip" for t c
    using keep rem(1,2) n1(1,2) tokens_by_ip [OF assms(3), of t c ip] by auto
  ultimately show ?thesis using n2(2) keep rem(3) n1(4) by (auto simp: op_ok_def)
qed

text \<open>(C5) A ban takes effect.  When \<open>drop_by_ip_and_ban\<close> succeeds on a node that a run has reached and that
  has no other request pending, handling the requests ends and closes exactly the connections and candidates
  with the banned address; after that, as long as the ban store can be read, an incoming
  connection from the address is refused as banned and an outgoing one fails and changes nothing.\<close>

theorem banned_ip_kept_out:
  assumes "new_node n0" "(node_step lib)\<^sup>*\<^sup>* (ps0, n0, st0) (ps, n, st)"
    and "env_ok env" "kv_lawful keys env" "changes n = []" "0 < chan_capacity (conn_changes n)"
    and "drop_by_ip_and_ban env ip n = (Inr r, n1)"
  shows "\<exists>n2. process_conn_changes (\<lambda>_. env) 0 n1 = Some (Inr (), n2) \<and>
    (\<forall>t c. (t, c) \<in> set (conn_candidates n2 @ connections n2) \<longleftrightarrow>
       (t, c) \<in> set (conn_candidates n @ connections n) \<and> sa_ip (addr (c_remote_peer c)) \<noteq> ip) \<and>
    (\<forall>b sock port pt i respect. is_banned env (Persisted_ip ip) n2 = Inr b \<longrightarrow>
       fst (accept env sock (socket_addr_new ip port) n2) = Inl Banned \<and>
       (\<exists>e. connect env pt (socket_addr_new ip port) i respect n2 = (Inl e, n2)))"
proof -
  have "node_inv n" using node_sys.inv_reachable [OF _ assms(2)] assms(1) by simp
  from ban_carried_out [OF assms(3,4) this assms(5-7)] obtain n2 where
    n2: "process_conn_changes (\<lambda>_. env) 0 n1 = Some (Inr (), n2)" "node_inv n2"
      "\<forall>t c. (t, c) \<in> set (conn_candidates n2 @ connections n2) \<longleftrightarrow>
         (t, c) \<in> set (conn_candidates n @ connections n) \<and> sa_ip (addr (c_remote_peer c)) \<noteq> ip"
      "serial_ban env (Persisted_ip ip) \<in> keys (n_kvs n2) BAN_STORE_NAME" by blast
  have "\<exists>reached. max_peers_reached pt respect n2 = Inr reached" for pt respect
    using get_peer_stats_total [OF n2(2), of "Some Node"] by (auto simp: max_peers_reached_def)
  moreover have "fst (accept env sock (socket_addr_new ip port) n2) = Inl Banned \<and>
      (\<exists>e. connect env pt (socket_addr_new ip port) i respect n2 = (Inl e, n2))"
    if "is_banned env (Persisted_ip ip) n2 = Inr b" for b sock port pt i respect
    using banned_refused [OF assms(4), of "socket_addr_new ip port" n2 b] n2(4) that calculation by fastforce
  ultimately show ?thesis using n2(1,3) by blast
qed

lemma safe_env_kv: "kv_lawful example_keys safe_env"
  using example_kv_lawful by (simp add: kv_lawful_def safe_env_def)

theorem banned_ip_kept_out_witness:
  "\<exists>n0 n1 n2 r. fresh_node = Inr n0 \<and> new_node n0 \<and>
     drop_by_ip_and_ban safe_env (V4 0x0A000003) n0 = (Inr r, n1) \<and>
     process_conn_changes (\<lambda>_. safe_env) 0 n1 = Some (Inr (), n2) \<and>
     fst (accept safe_env \<lparr>sock_in = [], sock_script = [], sock_sent = [], sock_option_error = None\<rparr>
       (socket_addr_new (V4 0x0A000003) 8888) n2) = Inl Banned \<and>
     (\<exists>e. connect safe_env Node (socket_addr_new (V4 0x0A000003) 8888) None True n2 = (Inl e, n2))"
proof -
  let ?ip = "V4 0x0A000003"
  from fresh_node_new obtain n0 where n0: "fresh_node = Inr n0" "new_node n0" "changes n0 = []"
    "chan_capacity (conn_changes n0) = 50" by blast
  obtain r n1 where ban: "drop_by_ip_and_ban safe_env ?ip n0 = (Inr r, n1)"
    by (simp add: drop_by_ip_and_ban_def kvs_update_def safe_env_def example_env_def Let_def)
  have read: "\<exists>b. is_banned safe_env (Persisted_ip ?ip) n2 = Inr b" for n2
    by (simp add: is_banned_def safe_env_def example_env_def)
  have run: "(node_step silent_lib)\<^sup>*\<^sup>* (idle_poll, n0, ()) (idle_poll, n0, ())" by simp
  have "0 < chan_capacity (conn_changes n0)" using n0(4) by simp
  from banned_ip_kept_out [OF n0(2) run safe_env_ok safe_env_kv n0(3) this ban] read n0(1,2) ban
  show ?thesis by metis
qed

section \<open>Limits\<close>

abbreviation open_connections :: "('ns, 'kv) p2p_node \<Rightarrow> nat" where
  "open_connections n \<equiv> length (conn_candidates n) + length (connections n)"

abbreviation connection_limit :: "('ns, 'kv) p2p_node \<Rightarrow> nat" where
  "connection_limit n \<equiv> unat (nc_hard_connection_limit (n_config n))"

lemma hm_insert_length: "length (hm_insert k v m) \<le> Suc (length m)"
  by (induction m) auto

lemma accept_within_limit:
  assumes "accept env sock a n = (r, n')" "node_type n = Node"
  shows "open_connections n' \<le> max (open_connections n) (connection_limit n) \<and>
    n_config n' = n_config n \<and> node_type n' = Node"
proof -
  have rest: "connections n' = connections n \<and> n_config n' = n_config n \<and> node_type n' = Node"
    using assms by (auto simp: accept_def Let_def split: if_splits option.splits sum.splits)
  have "conn_candidates n' = conn_candidates n \<or>
      (\<exists>t c. conn_candidates n' = hm_insert t c (conn_candidates n)) \<and> open_connections n < connection_limit n"
    using assms by (force simp: accept_def Let_def split: if_splits option.splits sum.splits)
  then have "open_connections n' \<le> max (open_connections n) (connection_limit n)"
  proof
    assume "(\<exists>t c. conn_candidates n' = hm_insert t c (conn_candidates n)) \<and> open_connections n < connection_limit n"
    then obtain t c where "conn_candidates n' = hm_insert t c (conn_candidates n)" "open_connections n < connection_limit n"
      by blast
    with hm_insert_length [of t c "conn_candidates n"] rest show ?thesis by simp
  qed (use rest in simp)
  with rest show ?thesis by blast
qed

lemma accept_loop_within_limit:
  assumes "accept_loop k i evs n = (b, j, n')" "node_type n = Node"
  shows "open_connections n' \<le> max (open_connections n) (connection_limit n)"
  using assms
proof (induction evs arbitrary: i n)
  case (Cons e evs)
  obtain ev env where e: "e = (ev, env)" by fastforce
  show ?case
  proof (cases ev)
    case (Accepted sock a)
    obtain r n1 where acc: "accept env sock a n = (r, n1)" by fastforce
    note lim = accept_within_limit [OF acc Cons.prems(2)]
    have "open_connections n' \<le> max (open_connections n1) (connection_limit n1)" if "i < k"
      using Cons.IH [of "Suc i" n1] Cons.prems(1) e Accepted acc lim that
      by (auto split: sum.splits accept_failure.splits)
    with lim Cons.prems(1) e show ?thesis by (cases "i < k") auto
  qed (use Cons e in \<open>auto split: if_splits\<close>)
qed simp

text \<open>(C6) A regular node that accepts a batch of incoming connections stays within
  \<open>hard_connection_limit\<close>, candidates included; above the limit it accepts none.\<close>

theorem incoming_connections_bounded:
  assumes "accept_new inp events ps n = (ps', n')" "node_type n = Node"
  shows "open_connections n' \<le> max (open_connections n) (connection_limit n)"
  using assms accept_loop_within_limit [OF _ assms(2)]
  by (auto simp: accept_new_def Let_def split: if_splits prod.splits)

theorem incoming_connections_bounded_witness:
  "\<exists>ps n. accept_new (quiet_input\<lparr>pi_listen := [(Accepted \<lparr>sock_in = [], sock_script = [], sock_sent = [],
         sock_option_error = None\<rparr> (socket_addr_new (V4 9) 1), safe_env)]\<rparr>)
       [\<lparr>ev_token = SELF_TOKEN, ev_writable = False, ev_readable = True, ev_closed = False\<rparr>] idle_poll example_node = (ps, n) \<and>
     node_type example_node = Node \<and>
     open_connections n \<le> max (open_connections example_node) (connection_limit example_node)"
proof -
  obtain ps n where acc: "accept_new (quiet_input\<lparr>pi_listen := [(Accepted \<lparr>sock_in = [], sock_script = [], sock_sent = [],
         sock_option_error = None\<rparr> (socket_addr_new (V4 9) 1), safe_env)]\<rparr>)
       [\<lparr>ev_token = SELF_TOKEN, ev_writable = False, ev_readable = True, ev_closed = False\<rparr>] idle_poll example_node = (ps, n)"
    by fastforce
  have "node_type example_node = Node" by (simp add: example_node_def)
  with incoming_connections_bounded [OF acc this] acc show ?thesis by blast
qed

lemma distinct_subset_mset:
  assumes "distinct ys" "mset xs \<subseteq># mset ys"
  shows "distinct xs"
  unfolding distinct_count_atmost_1
proof
  fix a
  have "count (mset xs) a \<le> (if a \<in> set ys then 1 else 0)"
    using assms mset_subset_eq_count [OF assms(2), of a] by (simp add: distinct_count_atmost_1)
  moreover have "0 < count (mset xs) a \<longleftrightarrow> a \<in> set xs" by simp
  ultimately show "count (mset xs) a = (if a \<in> set xs then 1 else 0)"
    by (cases "a \<in> set xs") (simp_all del: count_greater_zero_iff split: if_splits)
qed

lemma filter_notin_length:
  assumes "distinct (map fst m)" "distinct ts" "set ts \<subseteq> fst ` set m"
  shows "length (hm_retain (\<lambda>t _. t \<notin> set ts) m) = length m - length ts"
proof -
  have "length (filter (\<lambda>(t, _). t \<in> set ts) m) = card (set (map fst (filter (\<lambda>(t, _). t \<in> set ts) m)))"
    using assms(1) by (subst distinct_card) (simp_all add: distinct_map_filter)
  also have "set (map fst (filter (\<lambda>(t, _). t \<in> set ts) m)) = set ts" using assms(3) by force
  finally have "length (filter (\<lambda>(t, _). t \<in> set ts) m) = length ts" using assms(2) by (simp add: distinct_card)
  moreover have "length (filter (\<lambda>(t, _). t \<in> set ts) m) + length (hm_retain (\<lambda>t _. t \<notin> set ts) m) = length m"
    using sum_length_filter_compl [of "\<lambda>(t, _). t \<in> set ts" m] by (simp add: case_prod_unfold)
  ultimately show ?thesis by simp
qed

text \<open>Removing some of the connections that satisfy \<open>P\<close>, picked by their tokens.\<close>

lemma remove_chosen:
  assumes "hm_wf (conn_candidates n @ connections n)"
    and "mset toks \<subseteq># mset (map fst (filter (\<lambda>(_, c). P c) (connections n)))"
    and "remove_connections env toks n = (r, n')"
  shows "conn_candidates n' = conn_candidates n" "length (connections n') = length (connections n) - length toks"
    and "(t, c) \<in> set (connections n) \<Longrightarrow> \<not> P c \<Longrightarrow> (t, c) \<in> set (connections n')"
proof -
  note rem = remove_connections_collections [OF assms(1,3)]
  have wf: "distinct (map fst (connections n))" using assms(1) by simp
  have dist: "distinct toks"
    by (rule distinct_subset_mset [OF _ assms(2)]) (use wf in \<open>simp add: distinct_map_filter\<close>)
  have sub: "set toks \<subseteq> fst ` set (filter (\<lambda>(_, c). P c) (connections n))" using set_mset_mono [OF assms(2)] by simp
  have "t \<notin> set toks" if "(t, c) \<in> set (conn_candidates n)" for t c
    using that sub assms(1) by (force simp: image_iff)
  then show "conn_candidates n' = conn_candidates n" by (auto simp: rem(1) filter_id_conv)
  show "length (connections n') = length (connections n) - length toks"
    using filter_notin_length [OF wf dist] sub by (auto simp: rem(2))
  show "(t, c) \<in> set (connections n')" if "(t, c) \<in> set (connections n)" "\<not> P c"
  proof -
    have "t \<notin> set toks"
    proof
      assume "t \<in> set toks"
      with sub obtain c' where "(t, c') \<in> set (connections n)" "P c'" by auto
      with eq_key_imp_eq_value [OF wf that(1)] that(2) show False by blast
    qed
    with that(1) show ?thesis by (simp add: rem(2))
  qed
qed

text \<open>(C7) A regular node with more peers than \<open>max_allowed_nodes\<close> drops, in one round of housekeeping, as many
  connections as there are excess peers, or every one that may be dropped if there are fewer of those.
  Connections to addresses that the operator gave are never dropped, and candidates are left alone.\<close>

theorem excess_peers_dropped:
  assumes "hm_wf (conn_candidates n @ connections n)" "chooses_multiple (e_choose_tokens env)" "node_type n = Node"
    and "get_peer_stats (Some Node) n = Inr ss" "length ss < 2 ^ 16"
  shows "\<exists>n'. drop_excess_peers env n = (Inr (), n') \<and> conn_candidates n' = conn_candidates n \<and>
    length (connections n') = length (connections n) -
      min (length ss - unat (nc_max_allowed_nodes (n_config n)))
        (length (filter (\<lambda>(_, c). \<not> is_given_connection c n) (connections n))) \<and>
    (\<forall>t c. (t, c) \<in> set (connections n) \<longrightarrow> is_given_connection c n \<longrightarrow> (t, c) \<in> set (connections n'))"
proof -
  let ?max = "nc_max_allowed_nodes (n_config n)"
  let ?free = "filter (\<lambda>(_, c). \<not> is_given_connection c n) (connections n)"
  have cnt: "unat (word_of_nat (length ss) :: u16) = length ss"
    using assms(5) by (simp add: unat_of_nat take_bit_eq_mod)
  show ?thesis
  proof (cases "(word_of_nat (length ss) :: u16) > ?max")
    case False
    then have "length ss \<le> unat ?max" using cnt by (simp add: word_less_nat_alt)
    with False assms(3,4) show ?thesis by (simp add: drop_excess_peers_def Let_def)
  next
    case True
    let ?k = "length ss - unat ?max"
    define toks where "toks = e_choose_tokens env (map fst ?free) ?k"
    have k: "unat ((word_of_nat (length ss) :: u16) - ?max) = ?k"
      using True cnt by (simp add: unat_sub word_less_nat_alt word_le_nat_alt less_imp_le)
    have toks: "mset toks \<subseteq># mset (map fst ?free)" "length toks = min ?k (length (map fst ?free))"
      unfolding toks_def using assms(2) [unfolded chooses_multiple_def] by blast+
    obtain r n' where n': "remove_connections env toks n = (r, n')" by fastforce
    with remove_chosen [OF assms(1) toks(1) n'] toks(2) True assms(3,4) k show ?thesis
      by (simp add: drop_excess_peers_def Let_def toks_def)
  qed
qed

lemma take_chooses: "chooses_multiple (\<lambda>xs n. take n xs)"
  unfolding chooses_multiple_def
  by (metis append_take_drop_id mset_append mset_subset_eq_add_left length_take min.commute)

definition crowded_node :: "(bool \<times> nat, example_kv) p2p_node" where
  "crowded_node = example_node\<lparr>n_config := example_config\<lparr>nc_max_allowed_nodes := 1\<rparr>,
     given_addresses := [socket_addr_new (V4 11) 8888],
     connections := map (\<lambda>i. (Token (word_of_nat i), example_connection i (Some (P2PNodeId (word_of_nat i))))) [1, 2, 3]\<rparr>"

theorem excess_peers_dropped_witness:
  "\<exists>ss n'. get_peer_stats (Some Node) crowded_node = Inr ss \<and> length ss = 3 \<and>
     drop_excess_peers safe_env crowded_node = (Inr (), n') \<and> length (connections n') = 1 \<and>
     (Token 1, example_connection 1 (Some (P2PNodeId 1))) \<in> set (connections n')"
proof -
  have wf: "hm_wf (conn_candidates crowded_node @ connections crowded_node)"
    by (simp add: crowded_node_def example_node_def)
  have ch: "chooses_multiple (e_choose_tokens safe_env)"
    using take_chooses by (simp add: safe_env_def example_env_def)
  have ty: "node_type crowded_node = Node" by (simp add: crowded_node_def example_node_def)
  have "\<exists>ss. get_peer_stats (Some Node) crowded_node = Inr ss \<and> length ss = 3"
    by (simp add: get_peer_stats_def crowded_node_def connection_peer_stats_def example_connection_def)
  then obtain ss where ss: "get_peer_stats (Some Node) crowded_node = Inr ss" "length ss = 3" by blast
  have "length ss < 2 ^ 16" using ss(2) by simp
  note dropped = excess_peers_dropped [OF wf ch ty ss(1) this]
  have num: "length (connections crowded_node) = 3" "unat (nc_max_allowed_nodes (n_config crowded_node)) = 1"
    "length (filter (\<lambda>(_, c). \<not> is_given_connection c crowded_node) (connections crowded_node)) = 2"
    by (simp_all add: crowded_node_def is_given_connection_def example_connection_def remote_addr_def external_addr_def)
  have given: "(Token 1, example_connection 1 (Some (P2PNodeId 1))) \<in> set (connections crowded_node)"
    "is_given_connection (example_connection 1 (Some (P2PNodeId 1))) crowded_node"
    by (simp_all add: crowded_node_def is_given_connection_def example_connection_def remote_addr_def)
  from dropped given ss show ?thesis unfolding num by auto
qed

end
