(* ===== verification/Message_Flow.thy ===== *)
theory Message_Flow
  imports Node_Policy
begin

text \<open>
  Messages between two consensus libraries: from the callback of one node, through its outbound
  handler and the connections, to the call into the library of another node.
\<close>

section \<open>Sending\<close>

definition packet_bytes :: "('ns, 'kv) env \<Rightarrow> packet_destination \<Rightarrow> network_id \<Rightarrow> bytes \<Rightarrow> bytes" where
  "packet_bytes env dst i msg = (case serialize (e_fb env) (e_now env) (netmsg (e_now env)
     (NetworkPacket \<lparr>destination = dst, packet_network_id = i, message = msg\<rparr>)) of Inr bs \<Rightarrow> bs | Inl e \<Rightarrow> [])"

lemma packet_serialized:
  "serialize (e_fb env) (e_now env) (netmsg (e_now env)
     (NetworkPacket \<lparr>destination = dst, packet_network_id = i, message = msg\<rparr>)) = Inr (packet_bytes env dst i msg)"
  by (simp add: packet_bytes_def serialize_def netmsg_def)

lemma broadcast_sent:
  assumes "peers_to_skip_of env (Broadcast dont) n = Inr skip"
  shows "send_broadcast_message env dont i msg n =
    (Inr (length (filter (\<lambda>c. is_valid_broadcast_target c skip i) (hm_values (connections n)))),
     n\<lparr>connections := map (\<lambda>(t, c). (t, if is_valid_broadcast_target c skip i
        then async_send (packet_bytes env (Broadcast dont) i msg) Normal c else c)) (connections n)\<rparr>)"
  using assms packet_serialized [of env "Broadcast dont" i msg]
  by (simp add: send_broadcast_message_def send_message_over_network_def process_network_packet_def
      send_over_all_connections_def Let_def)


definition relaying_node :: "(bool \<times> nat, example_kv) p2p_node" where
  "relaying_node = crowded_node\<lparr>n_config := example_config\<lparr>nc_relay_broadcast_percentage := 1 / 2\<rparr>\<rparr>"


section \<open>Receiving\<close>

abbreviation inbound_queue :: "('ns, 'kv) p2p_node \<Rightarrow> cmsg queue_msg channel" where
  "inbound_queue n \<equiv> high_priority (inbound (callback_queue n))"

lemma packet_received:
  assumes "deserialize (e_fb env) (e_now env) bs = Inr m" "net_payload m = NetworkPacket pkt" "destination pkt = Broadcast l"
    and "message pkt = tag # rest" "packet_type_try_from tag = Inr ty" "ty \<noteq> Transaction"
    and "e_u8_deserial env [tag] = Inr tag" "node_type n = Node" "is_post_handshake c"
    and "\<And>q. dedup_queue_of ty (n_dedup n) = Some q \<Longrightarrow> \<not> fst (check_and_insert (e_dedup env) (message pkt) q)"
    and "channel_lawful (e_cmsgs env)" "length (chan_items (inbound_queue n)) < chan_capacity (inbound_queue n)"
  shows "\<exists>c' n'. process_message env bs stats (c, n) = (Inr (), c', n') \<and>
    chan_items (inbound_queue n') = chan_items (inbound_queue n) @
      [Relay (consensus_message_new (Inbound (local_id (c_remote_peer c)) Broadcast_mode) ty (message pkt)
         [local_id (c_remote_peer c)] None)]"
proof -
  obtain c1 n1 where cn: "count_received env bs (c, n) = (c1, n1)" by fastforce
  have c1: "is_post_handshake c1" "c_remote_peer c1 = c_remote_peer c" "callback_queue n1 = callback_queue n"
    using count_received_counted [of "(c, n)" env bs] assms(9)
    by (simp_all add: cn only_counted_def is_post_handshake_def)
  have n1: "n_dedup n1 = n_dedup n" "node_type n1 = Node"
    using cn assms(8) by (auto simp: count_received_def log_metrics_def Let_def)
  obtain d where dup: "is_packet_duplicate env pkt n1 = (Inr False, n1\<lparr>n_dedup := d\<rparr>)"
  proof (cases "dedup_queue_of ty (n_dedup n1)")
    case None
    then have "ty = CatchUpStatus" by (cases ty) simp_all
    then show ?thesis using assms(3-5) that [of "n_dedup n1"] by (simp add: is_packet_duplicate_def Let_def)
  next
    case (Some q)
    from is_packet_duplicate_check [OF assms(4,5,3) Some, of env] assms(10) [of q] Some n1(1) that show ?thesis by auto
  qed
  have room: "length (chan_items (high_priority (inbound (callback_queue n)))) <
      chan_capacity (high_priority (inbound (callback_queue n)))" by (rule assms(12))
  show ?thesis
    using assms(1-7) c1 n1 dup room channel_lawful_send [OF assms(11)]
    by (simp add: process_message_def cn handle_incoming_message_def handle_incoming_packet_def handle_pkt_out_def
        queue_result_def send_in_high_priority_message_def send_msg_def Let_def)
qed

section \<open>From library to library\<close>

text \<open>Both nodes use the same packages: the flat buffers, and the big-endian integers of \<open>concordium_base\<close>.\<close>

definition same_packages :: "('ns, 'kv) env \<Rightarrow> ('ns2, 'kv2) env \<Rightarrow> bool" where
  "same_packages env env' \<longleftrightarrow> fb_lawful (e_fb env) \<and> e_fb env' = e_fb env \<and>
     (\<forall>b. e_u8_serial env b = [b] \<and> e_u8_deserial env' [b] = Inr b) \<and>
     (\<forall>w. length (e_u32_serial env w) = 4 \<and> e_u32_deserial env' (e_u32_serial env w) = Inr w)"

text \<open>The library's state after the call for a message of each type.\<close>

definition library_call ::
    "('c, 'cb) consensus_lib \<Rightarrow> packet_type \<Rightarrow> u32 \<Rightarrow> bytes \<Rightarrow> remote_peer_id \<Rightarrow> int \<Rightarrow> 'c \<Rightarrow> 'c" where
  "library_call lib ty g msg src limit st = (case ty of
     Block \<Rightarrow> (case receiveBlock lib g msg st of (_, _, st') \<Rightarrow> st')
   | FinalizationMessage \<Rightarrow> snd (receiveFinalizationMessage lib g msg st)
   | FinalizationRecord \<Rightarrow> snd (receiveFinalizationRecord lib g msg st)
   | CatchUpStatus \<Rightarrow> snd (receiveCatchUpStatus lib (remote_peer_id_val src) g msg limit st)
   | Transaction \<Rightarrow> (case receiveTransaction lib msg st of (_, _, st') \<Rightarrow> st'))"

lemma delivered:
  assumes "length gs = 4" "e_u32_deserial env gs = Inr g" "ty \<noteq> Transaction" "payload request = tag # gs @ msg"
    and "variant request = ty"
  shows "snd (snd (send_msg_to_consensus env lib src request (n, st))) =
    library_call lib ty g msg src (nc_catch_up_batch_limit (n_config n)) st"
proof -
  have "genesis_index_of env (gs @ msg) = Inr (g, msg)" using assms(1,2) by (simp add: genesis_index_of_def)
  with assms(3-5) show ?thesis
    by (cases ty) (auto simp: send_msg_to_consensus_def deliver_def library_call_def receive_block_def send_finalization_def
        send_finalization_record_def receive_catch_up_status_def apfst_def map_prod_def Let_def split: prod.splits sum.splits)
qed

lemma outbound_broadcast:
  assumes "1 \<le> nc_relay_broadcast_percentage (n_config n)" "(t, c) \<in> set (connections n)"
    and "peer_type (c_remote_peer c) = Node" "nc_default_network (n_config n) \<in> set (c_networks c)"
    and "omit_status m = None" "target_peer m = Inr None" "msg_dont_relay_to m = []"
  shows "\<exists>n1. handle_consensus_outbound_msg env m n = (Inr (), n1) \<and>
    (t, async_send (packet_bytes env (Broadcast []) (nc_default_network (n_config n)) (payload m)) Normal c)
      \<in> set (connections n1)"
proof -
  let ?net = "nc_default_network (n_config n)"
  define bs where "bs = packet_bytes env (Broadcast []) ?net (payload m)"
  have skip: "peers_to_skip_of env (Broadcast []) (log_metrics l n) = Inr []" for l
    using assms(1) by (simp add: peers_to_skip_of_def Let_def)
  have "is_valid_broadcast_target c [] ?net" using assms(3,4) by (simp add: is_valid_broadcast_target_def)
  then have mem: "(t, async_send bs Normal c) \<in> (\<lambda>(t, c). (t, if is_valid_broadcast_target c [] ?net
      then async_send bs Normal c else c)) ` set (connections n)"
    by (intro image_eqI [OF _ assms(2)]) simp
  define n1 where "n1 = (log_metrics [Metric_inc (Sent_consensus_messages (packet_type_label (variant m)))] n)
    \<lparr>connections := map (\<lambda>(t, c). (t, if is_valid_broadcast_target c [] ?net then async_send bs Normal c else c)) (connections n)\<rparr>"
  have "handle_consensus_outbound_msg env m n = (Inr (), n1)"
    using assms(5-7) broadcast_sent [OF skip, where i = ?net and msg = "payload m", folded bs_def]
    by (simp add: handle_consensus_outbound_msg_def send_consensus_msg_to_net_def n1_def)
  moreover have "(t, async_send bs Normal c) \<in> set (connections n1)" using mem by (simp add: n1_def)
  ultimately show ?thesis by (simp add: bs_def)
qed

lemma packet_bytes_read:
  assumes "same_packages env env'"
  shows "\<exists>m. deserialize (e_fb env') (e_now env') (packet_bytes env (Broadcast []) i pl) = Inr m \<and>
    net_payload m = NetworkPacket \<lparr>destination = Broadcast [], packet_network_id = i, message = pl\<rparr>"
  using deserialize_serialize [OF _ _ packet_serialized [of env "Broadcast []" i pl], of "e_now env'"] assms
  by (simp add: same_packages_def netmsg_def payload_wf_def norm_payload_def norm_packet_def)


text \<open>The witness: a finalization message from a node with three peers to a node that knows the sender.\<close>

definition listed_connection :: "(bool \<times> nat) connection" where
  "listed_connection = example_connection 1 (Some (P2PNodeId 1))"

lemma safe_env_packages: "same_packages safe_env safe_env"
  by (simp add: same_packages_def safe_env_def example_env_def example_fb_env_lawful)

lemma safe_env_queue: "channel_lawful (e_cmsgs safe_env)"
  using list_channel_lawful by (simp add: safe_env_def example_env_def)

lemma fresh_dedup:
  "dedup_queue_of FinalizationMessage (n_dedup example_node) = Some q \<Longrightarrow> \<not> fst (check_and_insert (e_dedup safe_env) pl q)"
  by (drule sym)
    (auto simp: example_node_def dedup_queues_new_def xx_new_def example_dedup_simps safe_env_def example_env_def)

lemma listed_receiver:
  "node_type example_node = Node" "is_post_handshake listed_connection"
  "length (chan_items (inbound_queue example_node)) < chan_capacity (inbound_queue example_node)"
  "chan_items (inbound_queue example_node) = []" "local_id (c_remote_peer listed_connection) = RemotePeerId 1"
  by (simp_all add: example_node_def listed_connection_def consensus_queues_default_def inbound_queues_default_def
      list_channel_ops_def CONSENSUS_QUEUE_DEPTH_IN_HI_def) (simp add: example_connection_def)


section \<open>Short packets\<close>



end
