(* ===== verification/Text_Types.thy ===== *)
theory Text_Types
  imports Config
begin

text \<open>
  The strings and floating point numbers of the Rust standard library, as the services around the node
  use them.  A string is the list of its code points; its length is the length of its UTF-8 form.
\<close>

section \<open>Strings\<close>

type_synonym ustring = "nat list"

definition ustr :: "string \<Rightarrow> ustring" where
  "ustr s = map of_char s"

definition utf8_len :: "ustring \<Rightarrow> nat" where
  "utf8_len s = sum_list (map (\<lambda>c. if c < 0x80 then 1 else if c < 0x800 then 2 else if c < 0x10000 then 3 else 4) s)"

definition is_whitespace :: "nat \<Rightarrow> bool" where
  "is_whitespace c \<longleftrightarrow> 9 \<le> c \<and> c \<le> 13 \<or> 0x2000 \<le> c \<and> c \<le> 0x200A \<or>
     c \<in> {0x20, 0x85, 0xA0, 0x1680, 0x2028, 0x2029, 0x202F, 0x205F, 0x3000}"

definition trim :: "ustring \<Rightarrow> ustring" where
  "trim s = rev (dropWhile is_whitespace (rev (dropWhile is_whitespace s)))"

text \<open>\<open>str::lines\<close>: a line ends with a line feed, or with a carriage return and a line feed.\<close>

definition strip_cr :: "ustring \<Rightarrow> ustring" where
  "strip_cr l = (if l \<noteq> [] \<and> last l = 13 then butlast l else l)"

fun lines_from :: "ustring \<Rightarrow> ustring \<Rightarrow> ustring list" where
  "lines_from acc [] = (if acc = [] then [] else [rev acc])"
| "lines_from acc (c # s) = (if c = 10 then strip_cr (rev acc) # lines_from [] s else lines_from (c # acc) s)"

definition str_lines :: "ustring \<Rightarrow> ustring list" where
  "str_lines s = lines_from [] s"

text \<open>\<open>str::strip_prefix\<close>\<close>

fun strip_prefix :: "ustring \<Rightarrow> ustring \<Rightarrow> ustring option" where
  "strip_prefix [] s = Some s"
| "strip_prefix (p # ps) [] = None"
| "strip_prefix (p # ps) (c # s) = (if p = c then strip_prefix ps s else None)"

section \<open>Floating point numbers\<close>

datatype f64 = F64 rat | F64_inf bool | F64_nan

text \<open>\<open><=\<close> on \<open>f64\<close>; \<open>F64_inf True\<close> is the positive infinity.\<close>

fun f64_le :: "f64 \<Rightarrow> f64 \<Rightarrow> bool" where
  "f64_le F64_nan _ = False"
| "f64_le _ F64_nan = False"
| "f64_le (F64_inf b) (F64_inf b') = (b \<longrightarrow> b')"
| "f64_le (F64_inf b) (F64 _) = (\<not> b)"
| "f64_le (F64 _) (F64_inf b) = b"
| "f64_le (F64 x) (F64 y) = (x \<le> y)"

definition f64_of_u64 :: "u64 \<Rightarrow> f64" where
  "f64_of_u64 w = F64 (f64_round (of_nat (unat w)))"

lemma strip_prefix_Some: "strip_prefix p s = Some r \<longleftrightarrow> s = p @ r"
  by (induction p s rule: strip_prefix.induct) auto

end
