(* ===== verification/Grpc_Types.thy ===== *)
theory Grpc_Types
  imports Consensus_Bridge Text_Types
begin

text \<open>
  The requests of the gRPC interface and how they are passed to the consensus library: the module
  \<open>types\<close> of \<open>grpc2.rs\<close> and the answers of queries in \<open>consensus_ffi/helpers.rs\<close>.

  \<^item> In a message every field that is not a scalar is optional; a field with alternatives is an
    optional value of a datatype with one constructor per alternative.
  \<^item> A pointer that is passed to the library is the bytes that the library may read there.  Integers
    behind a pointer are in the byte order of the machine, here little endian.
\<close>

section \<open>Status\<close>

datatype grpc_code =
    Invalid_argument
  | Not_found
  | Already_exists
  | Resource_exhausted
  | Failed_precondition
  | Unimplemented
  | Internal
  | Unavailable
  | Deadline_exceeded

text \<open>A request ends with a status, or its task panics.\<close>

datatype status = Status grpc_code string | Task_panic string

type_synonym 'a grpc = "status + 'a"

text \<open>The operator \<open>?\<close>.\<close>

definition and_then :: "'e + 'a \<Rightarrow> ('a \<Rightarrow> 'e + 'b) \<Rightarrow> 'e + 'b" where
  "and_then r f = (case r of Inl e \<Rightarrow> Inl e | Inr x \<Rightarrow> f x)"

lemma and_then_simps [simp]: "and_then (Inl e) f = Inl e" "and_then (Inr x) f = f x"
  by (simp_all add: and_then_def)

lemma and_then_Inr: "and_then r f = Inr y \<longleftrightarrow> (\<exists>x. r = Inr x \<and> f x = Inr y)"
  by (cases r) simp_all

definition require :: "'a option \<Rightarrow> 'a grpc" where
  "require x = (case x of Some v \<Rightarrow> Inr v | None \<Rightarrow> Inl (Status Invalid_argument ''missing field''))"

lemma require_simps [simp]:
  "require (Some v) = Inr v" "require None = Inl (Status Invalid_argument ''missing field'')"
  "require x = Inr v \<longleftrightarrow> x = Some v"
  by (simp_all add: require_def split: option.split)

section \<open>Requests\<close>

datatype account_identifier_input = AI_Address bytes | AI_CredId bytes | AI_AccountIndex u64

datatype block_hash_input_oneof =
    BH_Best
  | BH_LastFinal
  | BH_Given bytes
  | BH_AbsoluteHeight u64
  | BH_RelativeHeight (rel_genesis_index: "u32 option") (rel_height: "u64 option") (rel_restrict: bool)

type_synonym block_hash_input = "block_hash_input_oneof option"

datatype epoch_request_oneof =
    ER_RelativeEpoch (re_genesis_index: "u32 option") (re_epoch: "u64 option")
  | ER_BlockHash block_hash_input

type_synonym epoch_request = "epoch_request_oneof option"

datatype blocks_at_height_oneof =
    BAH_Absolute "u64 option"
  | BAH_Relative "u32 option" "u64 option" bool

definition u64_to_be_bytes :: "u64 \<Rightarrow> bytes" where
  "u64_to_be_bytes w = nat_to_be 8 (unat w)"

definition u64_to_ne_bytes :: "u64 \<Rightarrow> bytes" where
  "u64_to_ne_bytes w = rev (u64_to_be_bytes w)"

definition account_address_to_ffi :: "bytes \<Rightarrow> bytes option" where
  "account_address_to_ffi address = (if length address = 32 then Some address else None)"

definition account_identifier_to_ffi :: "account_identifier_input option \<Rightarrow> (u8 \<times> bytes) option" where
  "account_identifier_to_ffi account_identifier =
     (case account_identifier of
        None \<Rightarrow> None
      | Some (AI_Address a) \<Rightarrow> if length a = 32 then Some (0, a) else None
      | Some (AI_CredId cred_id) \<Rightarrow> if length cred_id = 48 then Some (1, cred_id) else None
      | Some (AI_AccountIndex ai) \<Rightarrow> Some (2, u64_to_ne_bytes ai))"

datatype block_hash_input_ffi =
    FFI_Best
  | FFI_LastFinal
  | FFI_Given bytes
  | FFI_Absolute bytes
  | FFI_Relative bytes

definition block_to_ptr :: "block_hash_input_ffi \<Rightarrow> u8 \<times> bytes" where
  "block_to_ptr q = (case q of
     FFI_Best \<Rightarrow> (0, [])
   | FFI_LastFinal \<Rightarrow> (1, [])
   | FFI_Given p \<Rightarrow> (2, p)
   | FFI_Absolute d \<Rightarrow> (3, d)
   | FFI_Relative d \<Rightarrow> (4, d))"

definition block_hash_input_to_ffi :: "block_hash_input \<Rightarrow> block_hash_input_ffi option" where
  "block_hash_input_to_ffi bhi =
     (case bhi of
        None \<Rightarrow> None
      | Some BH_Best \<Rightarrow> Some FFI_Best
      | Some BH_LastFinal \<Rightarrow> Some FFI_LastFinal
      | Some (BH_Given bh) \<Rightarrow> if length bh = 32 then Some (FFI_Given bh) else None
      | Some (BH_AbsoluteHeight abh) \<Rightarrow> Some (FFI_Absolute (u64_to_be_bytes abh))
      | Some (BH_RelativeHeight g h r) \<Rightarrow>
          (case h of
             None \<Rightarrow> None
           | Some height \<Rightarrow>
               (case g of
                  None \<Rightarrow> None
                | Some genesis_index \<Rightarrow>
                    Some (FFI_Relative (u64_to_be_bytes height @ u32_to_be_bytes genesis_index @ [if r then 1 else 0])))))"

datatype epoch_request_ffi = FFI_Specified bytes | FFI_OfBlock block_hash_input_ffi

definition epoch_to_ptr :: "epoch_request_ffi \<Rightarrow> u8 \<times> bytes" where
  "epoch_to_ptr q = (case q of FFI_Specified d \<Rightarrow> (5, d) | FFI_OfBlock bhi \<Rightarrow> block_to_ptr bhi)"

definition epoch_request_to_ffi :: "epoch_request \<Rightarrow> epoch_request_ffi option" where
  "epoch_request_to_ffi epoch_req =
     (case epoch_req of
        None \<Rightarrow> None
      | Some (ER_RelativeEpoch g e) \<Rightarrow>
          (case e of
             None \<Rightarrow> None
           | Some epoch \<Rightarrow>
               (case g of
                  None \<Rightarrow> None
                | Some genesis_index \<Rightarrow> Some (FFI_Specified (u64_to_be_bytes epoch @ u32_to_be_bytes genesis_index))))
      | Some (ER_BlockHash bhi) \<Rightarrow> map_option FFI_OfBlock (block_hash_input_to_ffi bhi))"

definition module_reference_to_ffi :: "bytes \<Rightarrow> bytes option" where
  "module_reference_to_ffi module_ref = (if length module_ref = 32 then Some module_ref else None)"

definition transaction_hash_to_ffi :: "bytes \<Rightarrow> bytes option" where
  "transaction_hash_to_ffi transaction_hash = (if length transaction_hash = 32 then Some transaction_hash else None)"

text \<open>An ASCII string has one byte for each character.\<close>

definition receive_name_to_ffi :: "ustring \<Rightarrow> (ustring \<times> u32) option" where
  "receive_name_to_ffi receive_name =
     (let len = utf8_len receive_name in
      if (\<forall>c \<in> set receive_name. c < 128) \<and> len \<le> 100 then Some (receive_name, word_of_nat len) else None)"

definition blocks_at_height_request_to_ffi :: "blocks_at_height_oneof option \<Rightarrow> (u64 \<times> u32 \<times> u8) option" where
  "blocks_at_height_request_to_ffi height =
     (case height of
        None \<Rightarrow> None
      | Some (BAH_Absolute h) \<Rightarrow> map_option (\<lambda>h. (h, 0, 0)) h
      | Some (BAH_Relative g h r) \<Rightarrow>
          (case h of
             None \<Rightarrow> None
           | Some hh \<Rightarrow> map_option (\<lambda>genesis_index. (hh, genesis_index, if r then 1 else 0)) g))"

section \<open>Answers of the library\<close>

primrec grpc_code_of :: "status_code \<Rightarrow> grpc_code" where
  "grpc_code_of Code_invalid_argument = Invalid_argument"
| "grpc_code_of Code_internal = Internal"
| "grpc_code_of Code_not_found = Not_found"
| "grpc_code_of Code_unavailable = Unavailable"

text \<open>The code of a query as a response, and the check that it is the successful one.\<close>

definition query_status :: "int \<Rightarrow> query_response grpc" where
  "query_status code = (case query_response_try_from code of
     Inl _ \<Rightarrow> Inl (Status Internal ''Unexpected response from internal query'') | Inr r \<Rightarrow> Inr r)"

definition checked :: "string \<Rightarrow> query_response \<Rightarrow> unit grpc" where
  "checked msg r = (case ensure_ok r msg of Inl (c, m) \<Rightarrow> Inl (Status (grpc_code_of c) m) | Inr _ \<Rightarrow> Inr ())"

text \<open>The messages of the responses to a transaction.\<close>

primrec ffi_response_display :: "ffi_response \<Rightarrow> string" where
  "ffi_response_display BakerNotFound = ''Baker not found''"
| "ffi_response_display Success = ''Success''"
| "ffi_response_display DeserializationError = ''Deserialization error''"
| "ffi_response_display InvalidResult = ''Invalid result''"
| "ffi_response_display PendingBlock = ''Pending block''"
| "ffi_response_display PendingFinalization = ''Pending finalization''"
| "ffi_response_display Asynchronous = ''Asynchronous''"
| "ffi_response_display DuplicateEntry = ''Duplicate entry''"
| "ffi_response_display Stale = ''Stale''"
| "ffi_response_display IncorrectFinalizationSession = ''Incorrect finalization session''"
| "ffi_response_display Unverifiable = ''Unverifiable''"
| "ffi_response_display ContinueCatchUp = ''Continue catchup''"
| "ffi_response_display BlockTooEarly = ''Block too early''"
| "ffi_response_display MissingImportFile = ''Missing import file''"
| "ffi_response_display ConsensusShutDown = ''Consensus shutdown''"
| "ffi_response_display ExpiryTooLate = ''Expiry too late''"
| "ffi_response_display VerificationFailed = ''Verification failed''"
| "ffi_response_display NonexistingSenderAccount = ''Nonexisting sender account''"
| "ffi_response_display DuplicateNonce = ''Duplicate nonce''"
| "ffi_response_display NonceTooLarge = ''Nonce too large''"
| "ffi_response_display TooLowEnergy = ''Too low energy''"
| "ffi_response_display InvalidGenesisIndex = ''Invalid genesis index''"
| "ffi_response_display DuplicateAccountRegistrationID = ''An account already exists with the given registration id''"
| "ffi_response_display CredentialDeploymentInvalidSignatures = ''The credential deployment contained invalid signatures''"
| "ffi_response_display CredentialDeploymentInvalidIP = ''The credential deployment contained an invalid identity provider''"
| "ffi_response_display CredentialDeploymentInvalidAR = ''The credential deployment contained invalid anonymity revokers''"
| "ffi_response_display CredentialDeploymentExpired = ''The credential deployment was expired''"
| "ffi_response_display ChainUpdateInvalidEffectiveTime = ''The chain update had an invalid effective time''"
| "ffi_response_display ChainUpdateSequenceNumberTooOld = ''The chain update had an old nonce''"
| "ffi_response_display ChainUpdateInvalidSignatures = ''The chain update contained invalid signatures''"
| "ffi_response_display MaxBlockEnergyExceeded = ''The stated energy of the transaction exceeds the maximum allowed''"
| "ffi_response_display InsufficientFunds = ''The sender did not have enough funds to cover the costs''"
| "ffi_response_display DoubleSign = ''The consensus message is a result of double signing''"

lemma checked_Inr [simp]: "checked msg r = Inr () \<longleftrightarrow> r = QueryOk"
  by (cases r) (simp_all add: checked_def)

lemma query_status_Ok: "query_status code = Inr QueryOk \<longleftrightarrow> code = 0"
  by (simp add: query_status_def query_response_try_from_def)

section \<open>The library reads what was asked\<close>

text \<open>The number of bytes that the library reads for each tag.\<close>

definition tag_length :: "u8 \<Rightarrow> nat" where
  "tag_length t = (if t = 2 then 32 else if t = 3 then 8 else if t = 4 then 13 else if t = 5 then 12 else 0)"

lemma length_u64_to_be_bytes [simp]: "length (u64_to_be_bytes w) = 8"
  by (simp add: u64_to_be_bytes_def)

lemma u64_to_be_bytes_inject [simp]: "u64_to_be_bytes v = u64_to_be_bytes w \<longleftrightarrow> v = w"
proof
  assume "u64_to_be_bytes v = u64_to_be_bytes w"
  then have "unat v mod 256 ^ 8 = unat w mod 256 ^ 8" unfolding u64_to_be_bytes_def by (metis be_value_nat_to_be)
  moreover have "unat (x :: u64) < 256 ^ 8" for x using unsigned_less [of x] by simp
  ultimately show "v = w" by (simp add: word_unat_eq_iff)
qed simp

lemma u32_to_be_bytes_inject [simp]: "u32_to_be_bytes v = u32_to_be_bytes w \<longleftrightarrow> v = w"
  by (metis option.inject u32_from_to_be_bytes)

lemma block_ptr_cases:
  assumes "block_hash_input_to_ffi r = Some q"
  obtains "r = Some BH_Best" "block_to_ptr q = (0, [])"
  | "r = Some BH_LastFinal" "block_to_ptr q = (1, [])"
  | h where "r = Some (BH_Given h)" "block_to_ptr q = (2, h)" "length h = 32"
  | a where "r = Some (BH_AbsoluteHeight a)" "block_to_ptr q = (3, u64_to_be_bytes a)"
  | g h b where "r = Some (BH_RelativeHeight (Some g) (Some h) b)"
      "block_to_ptr q = (4, u64_to_be_bytes h @ u32_to_be_bytes g @ [if b then 1 else 0])"
  using assms by (cases r; cases "the r")
    (auto simp: block_hash_input_to_ffi_def block_to_ptr_def split: option.splits if_splits)

lemma block_ptr_length:
  assumes "block_hash_input_to_ffi r = Some q"
  shows "length (snd (block_to_ptr q)) = tag_length (fst (block_to_ptr q))" "fst (block_to_ptr q) \<noteq> 5"
  using assms by (cases rule: block_ptr_cases; simp add: tag_length_def)+

lemma block_ptr_inj:
  assumes "block_hash_input_to_ffi r = Some q" "block_hash_input_to_ffi r' = Some q'" "block_to_ptr q = block_to_ptr q'"
  shows "r = r'"
  using assms(1)
proof (cases rule: block_ptr_cases)
  case (5 g h b)
  with assms(2,3) show ?thesis by (elim block_ptr_cases) (auto split: if_splits)
qed (use assms(2,3) in \<open>elim block_ptr_cases; auto\<close>)+

lemma epoch_ptr_cases:
  assumes "epoch_request_to_ffi r = Some q"
  obtains b p where "r = Some (ER_BlockHash b)" "block_hash_input_to_ffi b = Some p" "epoch_to_ptr q = block_to_ptr p"
  | g e where "r = Some (ER_RelativeEpoch (Some g) (Some e))" "epoch_to_ptr q = (5, u64_to_be_bytes e @ u32_to_be_bytes g)"
  using assms by (cases r; cases "the r") (auto simp: epoch_request_to_ffi_def epoch_to_ptr_def split: option.splits)



end
