(* ===== verification/Consensus_Queries.thy ===== *)
theory Consensus_Queries
  imports Grpc_Types
begin

text \<open>
  The queries that a node makes to the consensus library: the methods \<open>get_..._v2\<close> and their
  relatives of \<open>ConsensusContainer\<close> in \<open>consensus_ffi/ffi.rs\<close>.

  \<^item> Every C function is a parameter with the name it has in the code.  It gets what it may read and
    returns its code, what it wrote behind its output pointers, and for a query with many results the
    receiving end of the channel that it fills.
  \<^item> The sending end of that channel is boxed and handed over as a raw pointer; \<open>sender_fate\<close> says what has become
    of the box when the method returns.
\<close>

section \<open>Status of the node\<close>

definition wrap_c_bool_call :: "u8 \<Rightarrow> bool grpc" where
  "wrap_c_bool_call code =
     (if code = 0 then Inr False else if code = 1 then Inr True
      else Inl (Task_panic ''FFI call didn't return 0 or 1''))"

definition is_consensus_running :: "u8 \<Rightarrow> bool grpc" where
  "is_consensus_running checkIfRunning = wrap_c_bool_call checkIfRunning"

definition in_finalization_committee :: "u8 \<Rightarrow> bool grpc" where
  "in_finalization_committee checkIfWeAreFinalizer = wrap_c_bool_call checkIfWeAreFinalizer"

text \<open>The arguments are what \<open>bakerStatusBestBlock\<close> returns and writes.\<close>

definition in_baking_committee ::
    "u8 \<times> u64 \<times> u8 \<times> f64 \<Rightarrow> (baking_committee_response \<times> bool \<times> u64 \<times> f64) grpc" where
  "in_baking_committee bakerStatusBestBlock =
     (case bakerStatusBestBlock of (code, baker_id, has_baker_id, baker_lottery_power) \<Rightarrow>
        case baking_committee_try_from code of
          Inl _ \<Rightarrow> Inl (Task_panic ''An error occured when trying to convert FFI return code'')
        | Inr s \<Rightarrow> Inr (s, has_baker_id \<noteq> 0, baker_id, baker_lottery_power))"

text \<open>\<open>importBlocks\<close> reads the file at a path; a path that is not Unicode has no string.\<close>

definition import_blocks :: "(ustring \<Rightarrow> 'c \<Rightarrow> int \<times> 'c) \<Rightarrow> ustring option \<Rightarrow> 'c \<Rightarrow> unit result \<times> 'c" where
  "import_blocks importBlocks path st =
     (case path of
        None \<Rightarrow> (Inl (Bail ''Cannot decode path.''), st)
      | Some p \<Rightarrow>
          (let (code, st') = importBlocks p st in
           (case ffi_response_try_from code of
              Inl _ \<Rightarrow> Inl (Bail ''Unsupported FFI return code'')
            | Inr Success \<Rightarrow> Inr ()
            | Inr _ \<Rightarrow> Inl (Bail ''Error during block import''), st')))"

section \<open>The forms of a query\<close>

type_synonym block_fn = "u8 \<Rightarrow> bytes \<Rightarrow> int \<times> bytes \<times> bytes"

type_synonym 'st stream_fn = "u8 \<Rightarrow> bytes \<Rightarrow> int \<times> bytes \<times> 'st"

datatype sender_fate = Sender_dropped | Sender_given | Sender_leaked

definition answer :: "string \<Rightarrow> int \<Rightarrow> 'a \<Rightarrow> 'a grpc" where
  "answer msg code x = and_then (query_status code) (\<lambda>r. and_then (checked msg r) (\<lambda>_. Inr x))"

definition unchecked_answer :: "int \<Rightarrow> 'a \<Rightarrow> 'a grpc" where
  "unchecked_answer code x = and_then (query_status code) (\<lambda>_. Inr x)"

text \<open>The bytes behind the pointers for a block.\<close>

definition block_ptr :: "block_hash_input \<Rightarrow> (u8 \<times> bytes) grpc" where
  "block_ptr bhi = and_then (require (block_hash_input_to_ffi bhi)) (\<lambda>q. Inr (block_to_ptr q))"

definition epoch_ptr :: "epoch_request \<Rightarrow> (u8 \<times> bytes) grpc" where
  "epoch_ptr r = and_then (require (epoch_request_to_ffi r)) (\<lambda>q. Inr (epoch_to_ptr q))"

definition block_query :: "string \<Rightarrow> block_fn \<Rightarrow> block_hash_input \<Rightarrow> (bytes \<times> bytes) grpc" where
  "block_query msg c bhi = and_then (block_ptr bhi) (\<lambda>(t, p). let (code, out) = c t p in answer msg code out)"

text \<open>The box is dropped if the request is refused, and forgotten once it has been turned into a pointer.\<close>

definition with_sender :: "(u8 \<times> bytes) grpc \<Rightarrow> (u8 \<Rightarrow> bytes \<Rightarrow> 'a grpc) \<Rightarrow> 'a grpc \<times> sender_fate" where
  "with_sender request call =
     (case request of
        Inl e \<Rightarrow> (Inl e, Sender_dropped)
      | Inr (t, p) \<Rightarrow>
          (case call t p of Inl e \<Rightarrow> (Inl e, Sender_leaked) | Inr x \<Rightarrow> (Inr x, Sender_given)))"

definition stream_query ::
    "string \<Rightarrow> 'st stream_fn \<Rightarrow> block_hash_input \<Rightarrow> (bytes \<times> 'st) grpc \<times> sender_fate" where
  "stream_query msg c bhi = with_sender (block_ptr bhi) (\<lambda>t p. let (code, out) = c t p in answer msg code out)"

section \<open>Queries about a block\<close>

definition get_block_info_v2 :: "block_fn \<Rightarrow> block_hash_input \<Rightarrow> (bytes \<times> bytes) grpc" where
  "get_block_info_v2 getBlockInfoV2 request = block_query ''block'' getBlockInfoV2 request"

definition get_passive_delegation_info_v2 :: "block_fn \<Rightarrow> block_hash_input \<Rightarrow> (bytes \<times> bytes) grpc" where
  "get_passive_delegation_info_v2 getPassiveDelegationInfoV2 request = block_query ''block'' getPassiveDelegationInfoV2 request"

definition get_tokenomics_info_v2 :: "block_fn \<Rightarrow> block_hash_input \<Rightarrow> (bytes \<times> bytes) grpc" where
  "get_tokenomics_info_v2 getTokenomicsInfoV2 request = block_query ''block'' getTokenomicsInfoV2 request"

definition get_election_info_v2 :: "block_fn \<Rightarrow> block_hash_input \<Rightarrow> (bytes \<times> bytes) grpc" where
  "get_election_info_v2 getElectionInfoV2 request = block_query ''block'' getElectionInfoV2 request"

definition get_next_update_sequence_numbers_v2 :: "block_fn \<Rightarrow> block_hash_input \<Rightarrow> (bytes \<times> bytes) grpc" where
  "get_next_update_sequence_numbers_v2 getNextUpdateSequenceNumbersV2 request = block_query ''block'' getNextUpdateSequenceNumbersV2 request"

definition get_block_chain_parameters_v2 :: "block_fn \<Rightarrow> block_hash_input \<Rightarrow> (bytes \<times> bytes) grpc" where
  "get_block_chain_parameters_v2 getBlockChainParametersV2 request = block_query ''block'' getBlockChainParametersV2 request"

definition get_block_finalization_summary_v2 :: "block_fn \<Rightarrow> block_hash_input \<Rightarrow> (bytes \<times> bytes) grpc" where
  "get_block_finalization_summary_v2 getBlockFinalizationSummaryV2 request = block_query ''block'' getBlockFinalizationSummaryV2 request"

definition get_block_certificates_v2 :: "block_fn \<Rightarrow> block_hash_input \<Rightarrow> (bytes \<times> bytes) grpc" where
  "get_block_certificates_v2 getBlockCertificatesV2 request = block_query ''block'' getBlockCertificatesV2 request"

definition get_account_info_v2 ::
    "(u8 \<Rightarrow> bytes \<Rightarrow> u8 \<Rightarrow> bytes \<Rightarrow> int \<times> bytes \<times> bytes) \<Rightarrow> block_hash_input \<Rightarrow>
     account_identifier_input option \<Rightarrow> (bytes \<times> bytes) grpc" where
  "get_account_info_v2 getAccountInfoV2 block_hash account_identifier =
     and_then (block_ptr block_hash) (\<lambda>(t, p).
     and_then (require (account_identifier_to_ffi account_identifier)) (\<lambda>(acc_type, acc_id).
     let (code, out) = getAccountInfoV2 t p acc_type acc_id in answer ''account or block'' code out))"

definition get_module_source_v2 ::
    "(u8 \<Rightarrow> bytes \<Rightarrow> bytes \<Rightarrow> int \<times> bytes \<times> bytes) \<Rightarrow> block_hash_input \<Rightarrow> bytes \<Rightarrow> (bytes \<times> bytes) grpc" where
  "get_module_source_v2 getModuleSourceV2 block_hash module_ref =
     and_then (block_ptr block_hash) (\<lambda>(t, p).
     and_then (require (module_reference_to_ffi module_ref)) (\<lambda>m.
     let (code, out) = getModuleSourceV2 t p m in answer ''module or block'' code out))"

text \<open>A contract address is an index and a subindex.\<close>

definition get_instance_info_v2 ::
    "(u8 \<Rightarrow> bytes \<Rightarrow> u64 \<Rightarrow> u64 \<Rightarrow> int \<times> bytes \<times> bytes) \<Rightarrow> block_hash_input \<Rightarrow> u64 \<times> u64 \<Rightarrow>
     (bytes \<times> bytes) grpc" where
  "get_instance_info_v2 getInstanceInfoV2 block_hash address =
     and_then (block_ptr block_hash) (\<lambda>(t, p).
     let (code, out) = getInstanceInfoV2 t p (fst address) (snd address) in answer ''block or instance'' code out)"

text \<open>The state of a contract of the second version is a tree and the function that loads its parts.\<close>

datatype 'tree contract_state_response = State_V0 bytes | State_V1 'tree

definition get_instance_state_v2 ::
    "(u8 \<Rightarrow> bytes \<Rightarrow> u64 \<Rightarrow> u64 \<Rightarrow> int \<times> bytes \<times> bytes \<times> 'tree option) \<Rightarrow> block_hash_input \<Rightarrow> u64 \<times> u64 \<Rightarrow>
     (bytes \<times> 'tree contract_state_response) grpc" where
  "get_instance_state_v2 getInstanceStateV2 block_hash address =
     and_then (block_ptr block_hash) (\<lambda>(t, p).
     let (code, out_hash, v0, v1) = getInstanceStateV2 t p (fst address) (snd address) in
     answer ''block or instance'' code
       (out_hash, case v1 of None \<Rightarrow> State_V0 v0 | Some d \<Rightarrow> State_V1 d))"

text \<open>\<open>ser\<close> takes the parts of the parameters and serialises the keys.\<close>

definition get_cryptographic_parameters_v2 ::
    "(u8 \<Rightarrow> bytes \<Rightarrow> int \<times> bytes \<times> 'cp option) \<Rightarrow> ('cp \<Rightarrow> ustring \<times> bytes \<times> bytes) \<Rightarrow> block_hash_input \<Rightarrow>
     (bytes \<times> ustring \<times> bytes \<times> bytes) grpc" where
  "get_cryptographic_parameters_v2 getCryptographicParametersV2 ser block_hash =
     and_then (block_ptr block_hash) (\<lambda>(t, p).
     let (code, out_hash, ptr) = getCryptographicParametersV2 t p in
     and_then (answer ''block'' code ()) (\<lambda>_.
     case ptr of
       None \<Rightarrow> Inl (Status Internal ''Failed to access cryptographic parameters'')
     | Some cp \<Rightarrow> Inr (out_hash, ser cp)))"

record pool_request =
  pool_block_hash :: "block_hash_input option"
  pool_baker :: "u64 option"

text \<open>The block and the baker of a request about a pool.\<close>

definition pool_ptr :: "pool_request \<Rightarrow> (u64 \<times> u8 \<times> bytes) grpc" where
  "pool_ptr request =
     and_then (require (pool_block_hash request)) (\<lambda>b.
     and_then (block_ptr b) (\<lambda>q.
     and_then (require (pool_baker request)) (\<lambda>baker_id. Inr (baker_id, q))))"

definition get_pool_info_v2 ::
    "(u64 \<Rightarrow> u8 \<Rightarrow> bytes \<Rightarrow> int \<times> bytes \<times> bytes) \<Rightarrow> pool_request \<Rightarrow> (bytes \<times> bytes) grpc" where
  "get_pool_info_v2 getPoolInfoV2 request =
     and_then (pool_ptr request) (\<lambda>(baker_id, t, p).
     let (code, out) = getPoolInfoV2 baker_id t p in answer ''block or baker'' code out)"

datatype invoker = Invoker_Account bytes | Invoker_Contract u64 u64

record invoke_request =
  inv_block_hash :: "block_hash_input option"
  inv_invoker :: "invoker option option"
  inv_instance :: "(u64 \<times> u64) option"
  inv_amount :: "u64 option"
  inv_entrypoint :: "ustring option"
  inv_parameter :: "bytes option"
  inv_energy :: "u64 option"

text \<open>The invoker as a tag, the bytes of an account address (a null pointer has none) and a contract address.\<close>

definition invoker_to_ffi :: "invoker option option \<Rightarrow> (u8 \<times> bytes \<times> u64 \<times> u64) grpc" where
  "invoker_to_ffi i =
     (case i of
        None \<Rightarrow> Inr (0, [], 0, 0)
      | Some a \<Rightarrow> and_then (require a) (\<lambda>a. case a of
            Invoker_Account acc \<Rightarrow> and_then (require (account_address_to_ffi acc)) (\<lambda>p. Inr (1, p, 0, 0))
          | Invoker_Contract idx sub \<Rightarrow> Inr (2, [], idx, sub)))"

definition invoke_instance_v2 ::
    "(u8 \<times> bytes \<Rightarrow> u64 \<times> u64 \<Rightarrow> u8 \<times> bytes \<times> u64 \<times> u64 \<Rightarrow> u64 \<Rightarrow> ustring \<times> u32 \<Rightarrow> bytes \<Rightarrow> u64 \<Rightarrow>
       int \<times> bytes \<times> bytes) \<Rightarrow> invoke_request \<Rightarrow> (bytes \<times> bytes) grpc" where
  "invoke_instance_v2 invokeInstanceV2 request =
     and_then (require (inv_block_hash request)) (\<lambda>b.
     and_then (block_ptr b) (\<lambda>block_id.
     and_then (invoker_to_ffi (inv_invoker request)) (\<lambda>invoker.
     and_then (require (inv_amount request)) (\<lambda>amount.
     and_then (require (inv_entrypoint request)) (\<lambda>entrypoint.
     and_then (require (receive_name_to_ffi entrypoint)) (\<lambda>receive_name.
     and_then (require (inv_parameter request)) (\<lambda>parameter.
     if length parameter \<ge> 2 ^ 32
     then Inl (Status Invalid_argument ''Parameter exceeds maximum supported size.'')
     else
     and_then (require (inv_energy request)) (\<lambda>energy.
     and_then (require (inv_instance request)) (\<lambda>contract.
     let (code, out) = invokeInstanceV2 block_id contract invoker amount receive_name parameter energy in
     answer ''block or contract'' code out)))))))))"

section \<open>Queries without a block\<close>

definition get_next_account_sequence_number_v2 :: "(bytes \<Rightarrow> int \<times> bytes) \<Rightarrow> bytes \<Rightarrow> bytes grpc" where
  "get_next_account_sequence_number_v2 getNextAccountSequenceNumberV2 account_address =
     and_then (require (account_address_to_ffi account_address)) (\<lambda>a.
     let (code, out) = getNextAccountSequenceNumberV2 a in unchecked_answer code out)"

definition get_consensus_info_v2 :: "int \<times> bytes \<Rightarrow> bytes grpc" where
  "get_consensus_info_v2 getConsensusInfoV2 = (case getConsensusInfoV2 of (code, out) \<Rightarrow> unchecked_answer code out)"

definition get_branches_v2 :: "int \<times> bytes \<Rightarrow> bytes grpc" where
  "get_branches_v2 getBranchesV2 = (case getBranchesV2 of (code, out) \<Rightarrow> unchecked_answer code out)"

definition get_blocks_at_height_v2 ::
    "(u64 \<Rightarrow> u32 \<Rightarrow> u8 \<Rightarrow> int \<times> bytes) \<Rightarrow> blocks_at_height_oneof option \<Rightarrow> bytes grpc" where
  "get_blocks_at_height_v2 getBlocksAtHeightV2 height =
     and_then (require (blocks_at_height_request_to_ffi height)) (\<lambda>(block_height, genesis_index, r).
     let (code, out) = getBlocksAtHeightV2 block_height genesis_index r in unchecked_answer code out)"

definition get_block_item_status_v2 :: "(bytes \<Rightarrow> int \<times> bytes) \<Rightarrow> bytes \<Rightarrow> bytes grpc" where
  "get_block_item_status_v2 getBlockItemStatusV2 transaction_hash =
     and_then (require (transaction_hash_to_ffi transaction_hash)) (\<lambda>h.
     let (code, out) = getBlockItemStatusV2 h in answer ''transaction'' code out)"

definition get_baker_earliest_win_time_v2 :: "(u64 \<Rightarrow> int \<times> bytes) \<Rightarrow> u64 \<Rightarrow> bytes grpc" where
  "get_baker_earliest_win_time_v2 getBakerEarliestWinTimeV2 request =
     (let (code, out) = getBakerEarliestWinTimeV2 request in answer ''baker'' code out)"

definition get_first_block_epoch_v2 :: "(u8 \<Rightarrow> bytes \<Rightarrow> int \<times> bytes) \<Rightarrow> epoch_request \<Rightarrow> bytes grpc" where
  "get_first_block_epoch_v2 getFirstBlockEpochV2 query =
     and_then (epoch_ptr query) (\<lambda>(t, p). let (code, out) = getFirstBlockEpochV2 t p in answer ''block'' code out)"

section \<open>Queries with many results\<close>

definition get_module_list_v2 :: "'st stream_fn \<Rightarrow> block_hash_input \<Rightarrow> (bytes \<times> 'st) grpc \<times> sender_fate" where
  "get_module_list_v2 getModuleListV2 request = stream_query ''block'' getModuleListV2 request"

definition get_instance_list_v2 :: "'st stream_fn \<Rightarrow> block_hash_input \<Rightarrow> (bytes \<times> 'st) grpc \<times> sender_fate" where
  "get_instance_list_v2 getInstanceListV2 request = stream_query ''block'' getInstanceListV2 request"

definition get_baker_list_v2 :: "'st stream_fn \<Rightarrow> block_hash_input \<Rightarrow> (bytes \<times> 'st) grpc \<times> sender_fate" where
  "get_baker_list_v2 getBakerListV2 request = stream_query ''block'' getBakerListV2 request"

definition get_passive_delegators_v2 :: "'st stream_fn \<Rightarrow> block_hash_input \<Rightarrow> (bytes \<times> 'st) grpc \<times> sender_fate" where
  "get_passive_delegators_v2 getPassiveDelegatorsV2 request = stream_query ''block'' getPassiveDelegatorsV2 request"

definition get_passive_delegators_reward_period_v2 :: "'st stream_fn \<Rightarrow> block_hash_input \<Rightarrow> (bytes \<times> 'st) grpc \<times> sender_fate" where
  "get_passive_delegators_reward_period_v2 getPassiveDelegatorsRewardPeriodV2 request = stream_query ''block'' getPassiveDelegatorsRewardPeriodV2 request"

definition get_identity_providers_v2 :: "'st stream_fn \<Rightarrow> block_hash_input \<Rightarrow> (bytes \<times> 'st) grpc \<times> sender_fate" where
  "get_identity_providers_v2 getIdentityProvidersV2 request = stream_query ''block'' getIdentityProvidersV2 request"

definition get_anonymity_revokers_v2 :: "'st stream_fn \<Rightarrow> block_hash_input \<Rightarrow> (bytes \<times> 'st) grpc \<times> sender_fate" where
  "get_anonymity_revokers_v2 getAnonymityRevokersV2 request = stream_query ''block'' getAnonymityRevokersV2 request"

definition get_block_items_v2 :: "'st stream_fn \<Rightarrow> block_hash_input \<Rightarrow> (bytes \<times> 'st) grpc \<times> sender_fate" where
  "get_block_items_v2 getBlockItemsV2 request = stream_query ''block'' getBlockItemsV2 request"

definition get_block_transaction_events_v2 :: "'st stream_fn \<Rightarrow> block_hash_input \<Rightarrow> (bytes \<times> 'st) grpc \<times> sender_fate" where
  "get_block_transaction_events_v2 getBlockTransactionEventsV2 request = stream_query ''block'' getBlockTransactionEventsV2 request"

definition get_block_special_events_v2 :: "'st stream_fn \<Rightarrow> block_hash_input \<Rightarrow> (bytes \<times> 'st) grpc \<times> sender_fate" where
  "get_block_special_events_v2 getBlockSpecialEventsV2 request = stream_query ''block'' getBlockSpecialEventsV2 request"

definition get_block_pending_updates_v2 :: "'st stream_fn \<Rightarrow> block_hash_input \<Rightarrow> (bytes \<times> 'st) grpc \<times> sender_fate" where
  "get_block_pending_updates_v2 getBlockPendingUpdatesV2 request = stream_query ''block'' getBlockPendingUpdatesV2 request"

definition get_bakers_reward_period_v2 :: "'st stream_fn \<Rightarrow> block_hash_input \<Rightarrow> (bytes \<times> 'st) grpc \<times> sender_fate" where
  "get_bakers_reward_period_v2 getBakersRewardPeriodV2 request = stream_query ''block'' getBakersRewardPeriodV2 request"

text \<open>Only this query takes the box back when the library refuses.\<close>

definition get_account_list_v2 :: "'st stream_fn \<Rightarrow> block_hash_input \<Rightarrow> (bytes \<times> 'st) grpc \<times> sender_fate" where
  "get_account_list_v2 getAccountListV2 block_hash =
     (case block_ptr block_hash of
        Inl e \<Rightarrow> (Inl e, Sender_dropped)
      | Inr (t, p) \<Rightarrow>
          (let (code, out) = getAccountListV2 t p in
           case query_status code of
             Inl e \<Rightarrow> (Inl e, Sender_leaked)
           | Inr r \<Rightarrow>
               (case checked ''block'' r of Inl e \<Rightarrow> (Inl e, Sender_dropped) | Inr _ \<Rightarrow> (Inr out, Sender_given))))"

definition get_ancestors_v2 ::
    "(u64 \<Rightarrow> 'st stream_fn) \<Rightarrow> block_hash_input \<Rightarrow> u64 \<Rightarrow> (bytes \<times> 'st) grpc \<times> sender_fate" where
  "get_ancestors_v2 getAncestorsV2 block_hash amount = stream_query ''block'' (getAncestorsV2 amount) block_hash"

definition get_pool_delegators_v2 ::
    "(u64 \<Rightarrow> 'st stream_fn) \<Rightarrow> pool_request \<Rightarrow> (bytes \<times> 'st) grpc \<times> sender_fate" where
  "get_pool_delegators_v2 getPoolDelegatorsV2 request =
     (case pool_ptr request of
        Inl e \<Rightarrow> (Inl e, Sender_dropped)
      | Inr (baker_id, q) \<Rightarrow>
          with_sender (Inr q)
            (\<lambda>t p. let (code, out) = getPoolDelegatorsV2 baker_id t p in answer ''block or pool'' code out))"

definition get_pool_delegators_reward_period_v2 ::
    "(u64 \<Rightarrow> 'st stream_fn) \<Rightarrow> pool_request \<Rightarrow> (bytes \<times> 'st) grpc \<times> sender_fate" where
  "get_pool_delegators_reward_period_v2 getPoolDelegatorsRewardPeriodV2 request =
     (case pool_ptr request of
        Inl e \<Rightarrow> (Inl e, Sender_dropped)
      | Inr (baker_id, q) \<Rightarrow>
          with_sender (Inr q)
            (\<lambda>t p. let (code, out) = getPoolDelegatorsRewardPeriodV2 baker_id t p in answer ''block or pool'' code out))"

definition get_winning_bakers_epoch_v2 ::
    "(u8 \<Rightarrow> bytes \<Rightarrow> int \<times> 'st) \<Rightarrow> epoch_request \<Rightarrow> 'st grpc \<times> sender_fate" where
  "get_winning_bakers_epoch_v2 getWinningBakersEpochV2 query =
     with_sender (epoch_ptr query) (\<lambda>t p. let (code, out) = getWinningBakersEpochV2 t p in answer ''block'' code out)"

definition get_account_non_finalized_transactions_v2 ::
    "(bytes \<Rightarrow> int \<times> 'st) \<Rightarrow> bytes \<Rightarrow> 'st grpc \<times> sender_fate" where
  "get_account_non_finalized_transactions_v2 getAccountNonFinalizedTransactionsV2 request =
     (case require (account_address_to_ffi request) of
        Inl e \<Rightarrow> (Inl e, Sender_dropped)
      | Inr a \<Rightarrow>
          with_sender (Inr (0, a))
            (\<lambda>_ a. let (code, out) = getAccountNonFinalizedTransactionsV2 a in answer ''account address'' code out))"

section \<open>The callback that fills a channel\<close>

datatype try_send_result = Sent | Channel_full | Channel_closed

text \<open>
  The message is a pointer (\<open>None\<close> if it is null) and a length; \<open>try_send\<close> is that of the channel.  The
  result is the code and the sender, unless it was dropped.
\<close>

definition enqueue_bytearray_callback ::
    "(bytes \<Rightarrow> 's \<Rightarrow> try_send_result \<times> 's) \<Rightarrow> 's \<Rightarrow> bytes option \<Rightarrow> int \<Rightarrow> int \<times> 's option" where
  "enqueue_bytearray_callback try_send sender msg msg_length =
     (if msg_length \<noteq> 0 \<and> msg = None then (- 2, None)
      else
        (let d = (if msg_length \<noteq> 0 then take (nat msg_length) (the msg) else []) in
         case try_send d sender of
           (Sent, s) \<Rightarrow> (0, Some s)
         | (Channel_full, s) \<Rightarrow> (- 1, Some s)
         | (Channel_closed, s) \<Rightarrow> (- 2, None)))"

section \<open>Lemmas\<close>

lemma answer_Inr: "answer msg code x = Inr y \<longleftrightarrow> code = 0 \<and> y = x"
  by (auto simp: answer_def and_then_Inr query_status_Ok)

lemma answer_Ok [simp]: "answer msg 0 x = Inr x"
  by (simp add: answer_Inr)

lemma answer_refused: "answer msg code x = Inl e \<Longrightarrow> code \<noteq> 0"
  using answer_Inr [of msg 0 x x] by auto

lemma block_ptr_Inr: "block_ptr b = Inr tp \<longleftrightarrow> (\<exists>q. block_hash_input_to_ffi b = Some q \<and> tp = block_to_ptr q)"
  by (auto simp: block_ptr_def and_then_Inr)

lemma block_query_Inr:
  "block_query msg c b = Inr out \<longleftrightarrow>
     (\<exists>q. block_hash_input_to_ffi b = Some q \<and> c (fst (block_to_ptr q)) (snd (block_to_ptr q)) = (0, out))"
  by (auto simp: block_query_def and_then_Inr block_ptr_Inr answer_Inr case_prod_unfold prod_eq_iff Let_def)

lemma with_sender_fate:
  "with_sender (Inr tp) (\<lambda>t p. case c t p of (code, out) \<Rightarrow> answer msg code out) =
     (answer msg (fst (c (fst tp) (snd tp))) (snd (c (fst tp) (snd tp))),
      if fst (c (fst tp) (snd tp)) = 0 then Sender_given else Sender_leaked)"
  by (cases tp) (auto simp: with_sender_def case_prod_unfold Let_def answer_Inr dest: answer_refused split: sum.split)

lemma stream_query_fate:
  assumes "block_hash_input_to_ffi b = Some q"
  shows "snd (stream_query msg c b) = (if fst (c (fst (block_to_ptr q)) (snd (block_to_ptr q))) = 0 then Sender_given else Sender_leaked)"
  using assms by (simp add: stream_query_def block_ptr_def with_sender_fate)

lemma sender_leaked_on_refusal:
  assumes "block_hash_input_to_ffi b = Some q" "c (fst (block_to_ptr q)) (snd (block_to_ptr q)) = (1, out)"
  shows "snd (get_module_list_v2 c b) = Sender_leaked" "snd (get_account_list_v2 c b) = Sender_dropped"
  using assms
  by (simp_all add: get_module_list_v2_def stream_query_fate get_account_list_v2_def block_ptr_def query_status_def
      query_response_try_from_def checked_def case_prod_unfold)

end
