(* ===== verification/Grpc_Service.thy ===== *)
theory Grpc_Service
  imports Consensus_Queries Maintenance
begin

text \<open>
  The gRPC service of a node (\<open>grpc2.rs\<close>, \<open>server\<close>): the endpoints that an operator can switch on and off,
  the queries, the operations on peers and bans, and the submission of transactions.

  \<^item> An operation that changes the node takes the node and returns it after its answer.
  \<^item> A response is its body and the block hash whose hexadecimal form is in the metadata.
  \<^item> The C functions of the consensus library are parameters, as in \<open>Consensus_Queries\<close>; a query
    runs on a thread of its own and its result is the answer.
  \<^item> Parsing and printing of IP addresses are parameters.
\<close>

section \<open>Endpoints\<close>

record service_config =
  sc_get_finalized_blocks :: bool
  sc_get_blocks :: bool
  sc_get_account_list :: bool
  sc_get_account_info :: bool
  sc_get_module_list :: bool
  sc_get_module_source :: bool
  sc_get_instance_list :: bool
  sc_get_instance_info :: bool
  sc_get_instance_state :: bool
  sc_instance_state_lookup :: bool
  sc_get_next_account_sequence_number :: bool
  sc_get_consensus_info :: bool
  sc_get_ancestors :: bool
  sc_get_block_item_status :: bool
  sc_invoke_instance :: bool
  sc_get_cryptographic_parameters :: bool
  sc_get_block_info :: bool
  sc_get_baker_list :: bool
  sc_get_pool_info :: bool
  sc_get_passive_delegation_info :: bool
  sc_get_blocks_at_height :: bool
  sc_get_tokenomics_info :: bool
  sc_get_pool_delegators :: bool
  sc_get_pool_delegators_reward_period :: bool
  sc_get_passive_delegators :: bool
  sc_get_passive_delegators_reward_period :: bool
  sc_get_branches :: bool
  sc_get_election_info :: bool
  sc_get_identity_providers :: bool
  sc_get_anonymity_revokers :: bool
  sc_get_account_non_finalized_transactions :: bool
  sc_get_block_transaction_events :: bool
  sc_get_block_special_events :: bool
  sc_get_block_pending_updates :: bool
  sc_get_next_update_sequence_numbers :: bool
  sc_get_block_chain_parameters :: bool
  sc_get_block_finalization_summary :: bool
  sc_shutdown :: bool
  sc_peer_connect :: bool
  sc_peer_disconnect :: bool
  sc_get_banned_peers :: bool
  sc_ban_peer :: bool
  sc_unban_peer :: bool
  sc_dump_start :: bool
  sc_dump_stop :: bool
  sc_get_peers_info :: bool
  sc_get_node_info :: bool
  sc_send_block_item :: bool
  sc_get_account_transaction_sign_hash :: bool
  sc_get_block_items :: bool
  sc_get_bakers_reward_period :: bool
  sc_get_block_certificates :: bool
  sc_get_baker_earliest_win_time :: bool
  sc_get_first_block_epoch :: bool
  sc_get_winning_bakers_epoch :: bool
  sc_dry_run :: bool

definition new_all_enabled :: service_config where
  "new_all_enabled =
     \<lparr>sc_get_finalized_blocks = True, sc_get_blocks = True, sc_get_account_list = True,
      sc_get_account_info = True, sc_get_module_list = True, sc_get_module_source = True,
      sc_get_instance_list = True, sc_get_instance_info = True, sc_get_instance_state = True,
      sc_instance_state_lookup = True, sc_get_next_account_sequence_number = True,
      sc_get_consensus_info = True, sc_get_ancestors = True, sc_get_block_item_status = True,
      sc_invoke_instance = True, sc_get_cryptographic_parameters = True, sc_get_block_info = True,
      sc_get_baker_list = True, sc_get_pool_info = True, sc_get_passive_delegation_info = True,
      sc_get_blocks_at_height = True, sc_get_tokenomics_info = True, sc_get_pool_delegators = True,
      sc_get_pool_delegators_reward_period = True, sc_get_passive_delegators = True,
      sc_get_passive_delegators_reward_period = True, sc_get_branches = True, sc_get_election_info = True,
      sc_get_identity_providers = True, sc_get_anonymity_revokers = True,
      sc_get_account_non_finalized_transactions = True, sc_get_block_transaction_events = True,
      sc_get_block_special_events = True, sc_get_block_pending_updates = True,
      sc_get_next_update_sequence_numbers = True, sc_get_block_chain_parameters = True,
      sc_get_block_finalization_summary = True, sc_shutdown = True, sc_peer_connect = True,
      sc_peer_disconnect = True, sc_get_banned_peers = True, sc_ban_peer = True, sc_unban_peer = True,
      sc_dump_start = True, sc_dump_stop = True, sc_get_peers_info = True, sc_get_node_info = True,
      sc_send_block_item = True, sc_get_account_transaction_sign_hash = True, sc_get_block_items = True,
      sc_get_bakers_reward_period = True, sc_get_block_certificates = True,
      sc_get_baker_earliest_win_time = True, sc_get_first_block_epoch = True,
      sc_get_winning_bakers_epoch = True, sc_dry_run = True\<rparr>"

definition endpoint :: "bool \<Rightarrow> string \<Rightarrow> 'a grpc \<Rightarrow> 'a grpc" where
  "endpoint enabled msg k = (if enabled then k else Inl (Status Unimplemented msg))"

record 'a response =
  blockhash :: "bytes option"
  body :: 'a

definition add_hash :: "bytes \<Rightarrow> 'a \<Rightarrow> 'a response" where
  "add_hash h x = \<lparr>blockhash = Some h, body = x\<rparr>"

definition with_hash :: "(bytes \<times> 'a) grpc \<Rightarrow> 'a response grpc" where
  "with_hash r = and_then r (\<lambda>(h, x). Inr (add_hash h x))"

definition no_hash :: "'a grpc \<Rightarrow> 'a response grpc" where
  "no_hash r = and_then r (\<lambda>x. Inr \<lparr>blockhash = None, body = x\<rparr>)"

section \<open>Queries\<close>

definition get_block_info :: "service_config \<Rightarrow> block_fn \<Rightarrow> block_hash_input \<Rightarrow> bytes response grpc" where
  "get_block_info cfg getBlockInfoV2 request =
     endpoint (sc_get_block_info cfg) ''`GetBlockInfo` is not enabled.''
       (with_hash (get_block_info_v2 getBlockInfoV2 request))"

definition get_passive_delegation_info :: "service_config \<Rightarrow> block_fn \<Rightarrow> block_hash_input \<Rightarrow> bytes response grpc" where
  "get_passive_delegation_info cfg getPassiveDelegationInfoV2 request =
     endpoint (sc_get_passive_delegation_info cfg) ''`GetPassiveDelegationInfo` is not enabled.''
       (with_hash (get_passive_delegation_info_v2 getPassiveDelegationInfoV2 request))"

definition get_tokenomics_info :: "service_config \<Rightarrow> block_fn \<Rightarrow> block_hash_input \<Rightarrow> bytes response grpc" where
  "get_tokenomics_info cfg getTokenomicsInfoV2 request =
     endpoint (sc_get_tokenomics_info cfg) ''`GetTokenomicsInfo` is not enabled.''
       (with_hash (get_tokenomics_info_v2 getTokenomicsInfoV2 request))"

definition get_election_info :: "service_config \<Rightarrow> block_fn \<Rightarrow> block_hash_input \<Rightarrow> bytes response grpc" where
  "get_election_info cfg getElectionInfoV2 request =
     endpoint (sc_get_election_info cfg) ''`GetElectionInfo` is not enabled.''
       (with_hash (get_election_info_v2 getElectionInfoV2 request))"

definition get_next_update_sequence_numbers :: "service_config \<Rightarrow> block_fn \<Rightarrow> block_hash_input \<Rightarrow> bytes response grpc" where
  "get_next_update_sequence_numbers cfg getNextUpdateSequenceNumbersV2 request =
     endpoint (sc_get_next_update_sequence_numbers cfg) ''`GetNextUpdateSequenceNumber` is not enabled.''
       (with_hash (get_next_update_sequence_numbers_v2 getNextUpdateSequenceNumbersV2 request))"

definition get_block_chain_parameters :: "service_config \<Rightarrow> block_fn \<Rightarrow> block_hash_input \<Rightarrow> bytes response grpc" where
  "get_block_chain_parameters cfg getBlockChainParametersV2 request =
     endpoint (sc_get_block_chain_parameters cfg) ''`GetBlockChainParameters` is not enabled.''
       (with_hash (get_block_chain_parameters_v2 getBlockChainParametersV2 request))"

definition get_block_finalization_summary :: "service_config \<Rightarrow> block_fn \<Rightarrow> block_hash_input \<Rightarrow> bytes response grpc" where
  "get_block_finalization_summary cfg getBlockFinalizationSummaryV2 request =
     endpoint (sc_get_block_finalization_summary cfg) ''`GetBlockFinalizationSummary` is not enabled.''
       (with_hash (get_block_finalization_summary_v2 getBlockFinalizationSummaryV2 request))"

definition get_block_certificates :: "service_config \<Rightarrow> block_fn \<Rightarrow> block_hash_input \<Rightarrow> bytes response grpc" where
  "get_block_certificates cfg getBlockCertificatesV2 request =
     endpoint (sc_get_block_certificates cfg) ''`GetBlockCertificates` is not enabled.''
       (with_hash (get_block_certificates_v2 getBlockCertificatesV2 request))"

definition get_account_list :: "service_config \<Rightarrow> 'st stream_fn \<Rightarrow> block_hash_input \<Rightarrow> 'st response grpc" where
  "get_account_list cfg getAccountListV2 request =
     endpoint (sc_get_account_list cfg) ''`GetAccountList` is not enabled.''
       (with_hash (fst (get_account_list_v2 getAccountListV2 request)))"

definition get_module_list :: "service_config \<Rightarrow> 'st stream_fn \<Rightarrow> block_hash_input \<Rightarrow> 'st response grpc" where
  "get_module_list cfg getModuleListV2 request =
     endpoint (sc_get_module_list cfg) ''`GetModuleList` is not enabled.''
       (with_hash (fst (get_module_list_v2 getModuleListV2 request)))"

definition get_instance_list :: "service_config \<Rightarrow> 'st stream_fn \<Rightarrow> block_hash_input \<Rightarrow> 'st response grpc" where
  "get_instance_list cfg getInstanceListV2 request =
     endpoint (sc_get_instance_list cfg) ''`GetInstanceList` is not enabled.''
       (with_hash (fst (get_instance_list_v2 getInstanceListV2 request)))"

definition get_baker_list :: "service_config \<Rightarrow> 'st stream_fn \<Rightarrow> block_hash_input \<Rightarrow> 'st response grpc" where
  "get_baker_list cfg getBakerListV2 request =
     endpoint (sc_get_baker_list cfg) ''`GetBakerList` is not enabled.''
       (with_hash (fst (get_baker_list_v2 getBakerListV2 request)))"

definition get_passive_delegators :: "service_config \<Rightarrow> 'st stream_fn \<Rightarrow> block_hash_input \<Rightarrow> 'st response grpc" where
  "get_passive_delegators cfg getPassiveDelegatorsV2 request =
     endpoint (sc_get_passive_delegators cfg) ''`GetPassiveDelegators` is not enabled.''
       (with_hash (fst (get_passive_delegators_v2 getPassiveDelegatorsV2 request)))"

definition get_passive_delegators_reward_period :: "service_config \<Rightarrow> 'st stream_fn \<Rightarrow> block_hash_input \<Rightarrow> 'st response grpc" where
  "get_passive_delegators_reward_period cfg getPassiveDelegatorsRewardPeriodV2 request =
     endpoint (sc_get_passive_delegators_reward_period cfg) ''`GetPassiveDelegatorsRewardPeriod` is not enabled.''
       (with_hash (fst (get_passive_delegators_reward_period_v2 getPassiveDelegatorsRewardPeriodV2 request)))"

definition get_identity_providers :: "service_config \<Rightarrow> 'st stream_fn \<Rightarrow> block_hash_input \<Rightarrow> 'st response grpc" where
  "get_identity_providers cfg getIdentityProvidersV2 request =
     endpoint (sc_get_identity_providers cfg) ''`GetIdentityProviders` is not enabled.''
       (with_hash (fst (get_identity_providers_v2 getIdentityProvidersV2 request)))"

definition get_anonymity_revokers :: "service_config \<Rightarrow> 'st stream_fn \<Rightarrow> block_hash_input \<Rightarrow> 'st response grpc" where
  "get_anonymity_revokers cfg getAnonymityRevokersV2 request =
     endpoint (sc_get_anonymity_revokers cfg) ''`GetAnonymityRevokers` is not enabled.''
       (with_hash (fst (get_anonymity_revokers_v2 getAnonymityRevokersV2 request)))"

definition get_block_items :: "service_config \<Rightarrow> 'st stream_fn \<Rightarrow> block_hash_input \<Rightarrow> 'st response grpc" where
  "get_block_items cfg getBlockItemsV2 request =
     endpoint (sc_get_block_items cfg) ''`GetBlockItems` is not enabled.''
       (with_hash (fst (get_block_items_v2 getBlockItemsV2 request)))"

definition get_block_transaction_events :: "service_config \<Rightarrow> 'st stream_fn \<Rightarrow> block_hash_input \<Rightarrow> 'st response grpc" where
  "get_block_transaction_events cfg getBlockTransactionEventsV2 request =
     endpoint (sc_get_block_transaction_events cfg) ''`GetBlockTransactionEvents` is not enabled.''
       (with_hash (fst (get_block_transaction_events_v2 getBlockTransactionEventsV2 request)))"

definition get_block_special_events :: "service_config \<Rightarrow> 'st stream_fn \<Rightarrow> block_hash_input \<Rightarrow> 'st response grpc" where
  "get_block_special_events cfg getBlockSpecialEventsV2 request =
     endpoint (sc_get_block_special_events cfg) ''`GetBlockSpecialEvents` is not enabled.''
       (with_hash (fst (get_block_special_events_v2 getBlockSpecialEventsV2 request)))"

definition get_block_pending_updates :: "service_config \<Rightarrow> 'st stream_fn \<Rightarrow> block_hash_input \<Rightarrow> 'st response grpc" where
  "get_block_pending_updates cfg getBlockPendingUpdatesV2 request =
     endpoint (sc_get_block_pending_updates cfg) ''`GetBlockPendingUpdates` is not enabled.''
       (with_hash (fst (get_block_pending_updates_v2 getBlockPendingUpdatesV2 request)))"

definition get_bakers_reward_period :: "service_config \<Rightarrow> 'st stream_fn \<Rightarrow> block_hash_input \<Rightarrow> 'st response grpc" where
  "get_bakers_reward_period cfg getBakersRewardPeriodV2 request =
     endpoint (sc_get_bakers_reward_period cfg) ''`GetBakersRewardPeriod` is not enabled.''
       (with_hash (fst (get_bakers_reward_period_v2 getBakersRewardPeriodV2 request)))"

text \<open>Requests with several fields are tuples of their fields.\<close>

definition get_account_info :: "service_config \<Rightarrow> (u8 \<Rightarrow> bytes \<Rightarrow> u8 \<Rightarrow> bytes \<Rightarrow> int \<times> bytes \<times> bytes) \<Rightarrow>
     block_hash_input option \<times> account_identifier_input option option \<Rightarrow> bytes response grpc" where
  "get_account_info cfg getAccountInfoV2 request =
     endpoint (sc_get_account_info cfg) ''`GetAccountInfo` is not enabled.''
       (with_hash
          (and_then (require (fst request)) (\<lambda>block_hash.
           and_then (require (snd request)) (\<lambda>account_identifier.
           get_account_info_v2 getAccountInfoV2 block_hash account_identifier))))"

definition get_module_source :: "service_config \<Rightarrow> (u8 \<Rightarrow> bytes \<Rightarrow> bytes \<Rightarrow> int \<times> bytes \<times> bytes) \<Rightarrow>
     block_hash_input option \<times> bytes option \<Rightarrow> bytes response grpc" where
  "get_module_source cfg getModuleSourceV2 request =
     endpoint (sc_get_module_source cfg) ''`GetModuleSource` is not enabled.''
       (with_hash
          (and_then (require (fst request)) (\<lambda>block_hash.
           and_then (require (snd request)) (\<lambda>module_ref.
           get_module_source_v2 getModuleSourceV2 block_hash module_ref))))"

definition get_instance_info :: "service_config \<Rightarrow> (u8 \<Rightarrow> bytes \<Rightarrow> u64 \<Rightarrow> u64 \<Rightarrow> int \<times> bytes \<times> bytes) \<Rightarrow>
     block_hash_input option \<times> (u64 \<times> u64) option \<Rightarrow> bytes response grpc" where
  "get_instance_info cfg getInstanceInfoV2 request =
     endpoint (sc_get_instance_info cfg) ''`GetInstanceInfo` is not enabled.''
       (with_hash
          (and_then (require (fst request)) (\<lambda>block_hash.
           and_then (require (snd request)) (\<lambda>contract_address.
           get_instance_info_v2 getInstanceInfoV2 block_hash contract_address))))"

text \<open>\<open>lookup\<close> searches the tree of a contract of the second version.\<close>

definition instance_state_lookup :: "service_config \<Rightarrow> (u8 \<Rightarrow> bytes \<Rightarrow> u64 \<Rightarrow> u64 \<Rightarrow> int \<times> bytes \<times> bytes \<times> 'tree option) \<Rightarrow> ('tree \<Rightarrow> bytes \<Rightarrow> bytes option) \<Rightarrow>
     block_hash_input option \<times> (u64 \<times> u64) option \<times> bytes \<Rightarrow> bytes response grpc" where
  "instance_state_lookup cfg getInstanceStateV2 tree_lookup request =
     endpoint (sc_instance_state_lookup cfg) ''`InstanceStateLookup` is not enabled.''
       (and_then (require (fst request)) (\<lambda>block_hash.
        and_then (require (fst (snd request))) (\<lambda>contract_address.
        and_then (get_instance_state_v2 getInstanceStateV2 block_hash contract_address) (\<lambda>(h, r).
        case r of
          State_V0 st \<Rightarrow> Inr (add_hash h st)
        | State_V1 tree \<Rightarrow>
            (case tree_lookup tree (snd (snd request)) of
               Some v \<Rightarrow> Inr (add_hash h v)
             | None \<Rightarrow> Inl (Status Not_found ''Key not found.''))))))"

definition get_ancestors :: "service_config \<Rightarrow> (u64 \<Rightarrow> 'st stream_fn) \<Rightarrow> block_hash_input option \<times> u64 \<Rightarrow> 'st response grpc" where
  "get_ancestors cfg getAncestorsV2 request =
     endpoint (sc_get_ancestors cfg) ''`GetAncestors` is not enabled.''
       (with_hash
          (and_then (require (fst request)) (\<lambda>block_hash.
           fst (get_ancestors_v2 getAncestorsV2 block_hash (snd request)))))"

text \<open>The energy is limited by what the operator allows.\<close>

definition invoke_instance ::
    "service_config \<Rightarrow> u64 \<Rightarrow> (u8 \<times> bytes \<Rightarrow> u64 \<times> u64 \<Rightarrow> u8 \<times> bytes \<times> u64 \<times> u64 \<Rightarrow> u64 \<Rightarrow> ustring \<times> u32 \<Rightarrow>
       bytes \<Rightarrow> u64 \<Rightarrow> int \<times> bytes \<times> bytes) \<Rightarrow> invoke_request \<Rightarrow> bytes response grpc" where
  "invoke_instance cfg invoke_max_energy invokeInstanceV2 request =
     endpoint (sc_invoke_instance cfg) ''`InvokeInstance` is not enabled.''
       (let max_energy = (case inv_energy request of
              Some nrg \<Rightarrow> min invoke_max_energy nrg | None \<Rightarrow> invoke_max_energy) in
        with_hash (invoke_instance_v2 invokeInstanceV2 (request\<lparr>inv_energy := Some max_energy\<rparr>)))"

section \<open>Listeners\<close>

text \<open>
  The clients that listen for blocks are senders of channels.  A client whose channel is full misses the
  block; one that is gone is removed.
\<close>

fun relay_block :: "('b \<Rightarrow> 's \<Rightarrow> try_send_result \<times> 's) \<Rightarrow> 'b \<Rightarrow> 's list \<Rightarrow> 's list" where
  "relay_block try_send v [] = []"
| "relay_block try_send v (s # senders) =
     (case try_send v s of
        (Channel_closed, _) \<Rightarrow> relay_block try_send v senders
      | (_, s') \<Rightarrow> s' # relay_block try_send v senders)"

definition get_blocks :: "service_config \<Rightarrow> 's \<Rightarrow> 'r \<Rightarrow> 's list \<Rightarrow> 'r response grpc \<times> 's list" where
  "get_blocks cfg sender receiver channels =
     (if \<not> sc_get_blocks cfg then (Inl (Status Unimplemented ''`GetBlocks` is not enabled.''), channels)
      else (Inr \<lparr>blockhash = None, body = receiver\<rparr>, channels @ [sender]))"

section \<open>Operations on the node\<close>

text \<open>A request with an IP address and a port; the port is a 32-bit number in the message.\<close>

record ip_socket_address =
  isa_ip :: "ustring option"
  isa_port :: "u32 option"

definition network_is_stopped :: status where
  "network_is_stopped = Status Failed_precondition ''The network is stopped due to unrecognized protocol update.''"

definition grpc_shutdown ::
    "service_config \<Rightarrow> ('ns, 'kv) env \<Rightarrow> ('ns, 'kv) p2p_node \<Rightarrow> (unit grpc \<times> ('ns, 'kv) p2p_node) option" where
  "grpc_shutdown cfg env n =
     (if \<not> sc_shutdown cfg then Some (Inl (Status Unimplemented ''`Shutdown` is not enabled.''), n)
      else map_option (apfst (\<lambda>r. case r of
          Inr _ \<Rightarrow> Inr () | Inl _ \<Rightarrow> Inl (Status Internal ''Unable to shutdown server''))) (node_close env n))"

definition peer_connect ::
    "service_config \<Rightarrow> (ustring \<Rightarrow> ip_addr option) \<Rightarrow> ('ns, 'kv) env \<Rightarrow> ip_socket_address \<Rightarrow>
     ('ns, 'kv) p2p_node \<Rightarrow> unit grpc \<times> ('ns, 'kv) p2p_node" where
  "peer_connect cfg parse_ip env request n =
     (if \<not> sc_peer_connect cfg then (Inl (Status Unimplemented ''`PeerConnect` is not enabled.''), n)
      else if is_network_stopped n then (Inl network_is_stopped, n)
      else case require (isa_ip request) of
        Inl e \<Rightarrow> (Inl e, n)
      | Inr s \<Rightarrow>
          (case parse_ip s of
             None \<Rightarrow> (Inl (Status Invalid_argument ''Invalid IP address.''), n)
           | Some ip \<Rightarrow>
               (case require (isa_port request) of
                  Inl e \<Rightarrow> (Inl e, n)
                | Inr port \<Rightarrow>
                    (Inr (), register_conn_change env (NewConn (socket_addr_new ip (ucast port)) Node True) n))))"

definition peer_disconnect ::
    "service_config \<Rightarrow> (ustring \<Rightarrow> ip_addr option) \<Rightarrow> ('ns, 'kv) env \<Rightarrow> ip_socket_address \<Rightarrow>
     ('ns, 'kv) p2p_node \<Rightarrow> unit grpc \<times> ('ns, 'kv) p2p_node" where
  "peer_disconnect cfg parse_ip env request n =
     (if \<not> sc_peer_disconnect cfg then (Inl (Status Unimplemented ''`PeerDisconnect` is not enabled.''), n)
      else if is_network_stopped n then (Inl network_is_stopped, n)
      else case require (isa_ip request) of
        Inl e \<Rightarrow> (Inl e, n)
      | Inr s \<Rightarrow>
          (case parse_ip s of
             None \<Rightarrow> (Inl (Status Invalid_argument ''Invalid IP address.''), n)
           | Some ip \<Rightarrow>
               (case require (isa_port request) of
                  Inl e \<Rightarrow> (Inl e, n)
                | Inr port \<Rightarrow>
                    (case drop_addr env (socket_addr_new ip (ucast port)) n of
                       (True, n') \<Rightarrow> (Inr (), n')
                     | (False, n') \<Rightarrow> (Inl (Status Not_found ''The peer was not found.''), n')))))"

definition get_banned_peers ::
    "service_config \<Rightarrow> (ip_addr \<Rightarrow> ustring) \<Rightarrow> ('ns, 'kv) env \<Rightarrow> ('ns, 'kv) p2p_node \<Rightarrow> ustring list grpc" where
  "get_banned_peers cfg show_ip env n =
     endpoint (sc_get_banned_peers cfg) ''`GetBannedPeers` is not enabled.''
       (case get_banlist env n of
          Inr banned_peers \<Rightarrow> Inr (map (\<lambda>b. case b of Persisted_ip a \<Rightarrow> show_ip a) banned_peers)
        | Inl _ \<Rightarrow> Inl (Status Internal ''Could not load banned peers.''))"

definition ban_peer ::
    "service_config \<Rightarrow> (ustring \<Rightarrow> ip_addr option) \<Rightarrow> ('ns, 'kv) env \<Rightarrow> ustring option \<Rightarrow>
     ('ns, 'kv) p2p_node \<Rightarrow> unit grpc \<times> ('ns, 'kv) p2p_node" where
  "ban_peer cfg parse_ip env ip_address n =
     (if \<not> sc_ban_peer cfg then (Inl (Status Unimplemented ''`BanPeer` is not enabled.''), n)
      else case require ip_address of
        Inl e \<Rightarrow> (Inl e, n)
      | Inr s \<Rightarrow>
          (case parse_ip s of
             None \<Rightarrow> (Inl (Status Invalid_argument ''Invalid IP address provided''), n)
           | Some ip \<Rightarrow>
               (case drop_by_ip_and_ban env ip n of
                  (Inr _, n') \<Rightarrow> (Inr (), n')
                | (Inl _, n') \<Rightarrow> (Inl (Status Internal ''Could not ban peer''), n'))))"

definition unban_peer ::
    "service_config \<Rightarrow> (ustring \<Rightarrow> ip_addr option) \<Rightarrow> ('ns, 'kv) env \<Rightarrow> ustring option \<Rightarrow>
     ('ns, 'kv) p2p_node \<Rightarrow> unit grpc \<times> ('ns, 'kv) p2p_node" where
  "unban_peer cfg parse_ip env ip_address n =
     (if \<not> sc_unban_peer cfg then (Inl (Status Unimplemented ''`UnbanPeer` is not enabled.''), n)
      else case require ip_address of
        Inl e \<Rightarrow> (Inl e, n)
      | Inr s \<Rightarrow>
          (case parse_ip s of
             None \<Rightarrow> (Inl (Status Invalid_argument ''Invalid IP address''), n)
           | Some ip \<Rightarrow>
               (case unban_node env (Persisted_ip ip) n of
                  (Inr _, n') \<Rightarrow> (Inr (), n')
                | (Inl _, n') \<Rightarrow> (Inl (Status Internal ''Could not unban peer''), n'))))"

section \<open>Information about the node\<close>

datatype peer_consensus_info = Node_catching_up | Node_up_to_date | Node_pending | Peer_bootstrapper

record peer_info =
  pi_id :: string
  pi_ip :: ustring
  pi_port :: u32
  pi_consensus_info :: peer_consensus_info
  pi_packets_sent :: u64
  pi_packets_received :: u64
  pi_latency :: u64

definition peer_info_of :: "(ip_addr \<Rightarrow> ustring) \<Rightarrow> (remote_peer_id, peer_status) hmap \<Rightarrow> peer_stats \<Rightarrow> peer_info" where
  "peer_info_of show_ip peer_statuses s =
     \<lparr>pi_id = p2p_node_id_display (ps_self_id s),
      pi_ip = show_ip (sa_ip (external_address s)), pi_port = ucast (ps_external_port s),
      pi_consensus_info = (case ps_peer_type s of
          Node \<Rightarrow> (case hm_get peer_statuses (ps_local_id s) of
                     Some CatchingUp \<Rightarrow> Node_catching_up
                   | Some UpToDate \<Rightarrow> Node_up_to_date
                   | _ \<Rightarrow> Node_pending)
        | Bootstrapper \<Rightarrow> Peer_bootstrapper),
      pi_packets_sent = ps_msgs_sent s, pi_packets_received = ps_msgs_received s, pi_latency = ps_latency s\<rparr>"

definition get_peers_info ::
    "service_config \<Rightarrow> (ip_addr \<Rightarrow> ustring) \<Rightarrow> ('ns, 'kv) p2p_node \<Rightarrow> peer_info list grpc" where
  "get_peers_info cfg show_ip n =
     endpoint (sc_get_peers_info cfg) ''`GetPeersInfo` is not enabled.''
       (case get_peer_stats None n of
          Inl _ \<Rightarrow> Inl (Task_panic ''called `Option::unwrap()` on a `None` value'')
        | Inr stats \<Rightarrow> Inr (map (peer_info_of show_ip (peer_states (n_peers n))) stats))"

text \<open>What the consensus library says of itself: \<open>checkIfRunning\<close>, \<open>bakerStatusBestBlock\<close>, \<open>checkIfWeAreFinalizer\<close>
  and the time of the last finalized block.\<close>

record consensus_view =
  cv_running :: u8
  cv_baker_status :: "u8 \<times> u64 \<times> u8 \<times> f64"
  cv_finalizer :: u8
  cv_last_finalized_time :: u64

datatype baker_status = Active_finalizer | Active_baker | Passive_not_in | Passive_not_active | Passive_wrong_keys

datatype node_details = Details_bootstrapper | Details_not_running | Details_active u64 baker_status | Details_passive

definition node_details_of :: "consensus_container \<Rightarrow> consensus_view \<Rightarrow> node_details grpc" where
  "node_details_of c v =
     and_then (is_consensus_running (cv_running v)) (\<lambda>running.
     if \<not> running then Inr Details_not_running
     else if container_type c = Active then
       and_then (in_baking_committee (cv_baker_status v)) (\<lambda>(committee, _, bid, _).
       case committee of
         ActiveInCommittee \<Rightarrow>
           and_then (in_finalization_committee (cv_finalizer v)) (\<lambda>fin.
           Inr (Details_active bid (if fin then Active_finalizer else Active_baker)))
       | NotInCommittee \<Rightarrow> Inr (Details_active bid Passive_not_in)
       | AddedButNotActiveInCommittee \<Rightarrow> Inr (Details_active bid Passive_not_active)
       | AddedButWrongKeys \<Rightarrow> Inr (Details_active bid Passive_wrong_keys))
     else Inr Details_passive)"

record node_info_response =
  ni_peer_version :: string
  ni_local_time :: u64
  ni_peer_uptime :: u64
  ni_node_id :: string
  ni_total_sent :: u64
  ni_total_received :: u64
  ni_avg_bps_in :: u64
  ni_avg_bps_out :: u64
  ni_details :: node_details

text \<open>The clock is read as milliseconds since the Unix epoch; \<open>start_time\<close> is when the node was started.\<close>

definition get_node_info ::
    "service_config \<Rightarrow> string \<Rightarrow> int \<Rightarrow> ('ns, 'kv) env \<Rightarrow> consensus_container \<Rightarrow> consensus_view \<Rightarrow>
     ('ns, 'kv) p2p_node \<Rightarrow> node_info_response grpc" where
  "get_node_info cfg peer_version start_time env c v n =
     endpoint (sc_get_node_info cfg) ''`GetNodeInfo` is not enabled.''
       (if e_millis env < 0 then Inl (Task_panic ''Time went backwards.'')
        else
          and_then (case node_type n of Bootstrapper \<Rightarrow> Inr Details_bootstrapper | Node \<Rightarrow> node_details_of c v) (\<lambda>d.
          Inr \<lparr>ni_peer_version = peer_version, ni_local_time = word_of_int (e_millis env),
            ni_peer_uptime = word_of_int (e_millis env - start_time), ni_node_id = p2p_node_id_display (pp_id (self_peer n)),
            ni_total_sent = total_sent n, ni_total_received = total_received n,
            ni_avg_bps_in = tp_avg_bps_in (n_throughput n), ni_avg_bps_out = tp_avg_bps_out (n_throughput n),
            ni_details = d\<rparr>))"

section \<open>Submission of transactions\<close>

text \<open>
  \<open>v0_format\<close> is the result of \<open>get_v0_format\<close>: the bytes of the block item.  A code of the library that
  is not known makes the thread panic.  The answer comes with the outbound queue and the state of the library.
\<close>

definition send_block_item ::
    "service_config \<Rightarrow> ('c, 'cb) consensus_lib \<Rightarrow> ('ns, 'kv) env \<Rightarrow> bytes grpc \<Rightarrow> 'c \<Rightarrow> ('ns, 'kv) p2p_node \<Rightarrow>
     bytes grpc \<times> 'c \<times> ('ns, 'kv) p2p_node" where
  "send_block_item cfg lib env v0_format st n =
     (if \<not> sc_send_block_item cfg then (Inl (Status Unimplemented ''`SendBlockItem` is not enabled.''), st, n)
      else if is_network_stopped n then (Inl network_is_stopped, st, n)
      else case v0_format of
        Inl e \<Rightarrow> (Inl e, st, n)
      | Inr transaction_bytes \<Rightarrow>
          if length transaction_bytes > PROTOCOL_MAX_TRANSACTION_SIZE
          then (Inl (Status Invalid_argument ''Transaction size exceeds maximum allowed size.''), st, n)
          else
            (case send_transaction lib transaction_bytes st of
               (Inl _, st') \<Rightarrow> (Inl (Task_panic ''Unknown FFI return code''), st', n)
             | (Inr (transaction_hash, consensus_result), st') \<Rightarrow>
                 if consensus_result = Success then
                   (case send_out_message (e_cmsgs env)
                           (consensus_message_new (Outbound None) Transaction
                              (packet_type_tag Transaction # transaction_bytes) [] None) (callback_queue n) of
                      (r, q) \<Rightarrow>
                        (case r of
                           Inr _ \<Rightarrow>
                             (case transaction_hash of
                                Some h \<Rightarrow> Inr h
                              | None \<Rightarrow> Inl (Status Internal ''Block item hash not present, but transaction is accepted.''))
                         | Inl _ \<Rightarrow> Inl (Status Internal ''Couldn't put a transaction in the outbound queue''),
                         st', n\<lparr>callback_queue := q\<rparr>))
                 else if consensus_result = DuplicateEntry
                 then (Inl (Status Already_exists (ffi_response_display consensus_result)), st', n)
                 else (Inl (Status Invalid_argument (ffi_response_display consensus_result)), st', n)))"

end
