(* ===== verification/Node_Services.thy ===== *)
theory Node_Services
  imports Grpc_Service Node_Runs
begin

text \<open>
  The health services (\<open>health.rs\<close>) and what the gRPC service does with a transaction.  The clock of
  the environment is in milliseconds since the Unix epoch; what the consensus library reports is
  a \<open>consensus_view\<close>.
\<close>

section \<open>The health services\<close>

record health_service =
  hs_max_finalization_delay :: u64
  hs_min_peers :: "usize option"

text \<open>\<open>Check_panic\<close> is not an error of the service: the task panics.\<close>

datatype service_error =
    ConsensusNotRunning
  | TooFewPeers nat usize
  | LastFinalFarBehind
  | NotInBakingCommittee
  | TimeInPast
  | ServiceNotFound string
  | Check_panic string

definition is_not_found :: "service_error \<Rightarrow> bool" where
  "is_not_found e \<longleftrightarrow> (case e of ServiceNotFound _ \<Rightarrow> True | _ \<Rightarrow> False)"

text \<open>The text of the status, which only a person reads, is left out.\<close>

text \<open>The message of the status, which prints the error, is left out.\<close>

definition status_of :: "service_error \<Rightarrow> status" where
  "status_of e = (case e of
     Check_panic m \<Rightarrow> Task_panic m
   | _ \<Rightarrow> Status (if is_not_found e then Not_found else Unavailable) [])"

definition or_panic :: "'a grpc \<Rightarrow> service_error + 'a" where
  "or_panic r = (case r of Inl (Task_panic m) \<Rightarrow> Inl (Check_panic m) | Inl _ \<Rightarrow> Inl (Check_panic []) | Inr x \<Rightarrow> Inr x)"

definition check_service ::
    "health_service \<Rightarrow> ('ns, 'kv) env \<Rightarrow> consensus_container \<Rightarrow> consensus_view \<Rightarrow> string \<Rightarrow>
     ('ns, 'kv) p2p_node \<Rightarrow> service_error + unit" where
  "check_service hs env c v service n =
     (if service \<noteq> [] \<and> service \<noteq> ''concordium.v2.Queries'' then Inl (ServiceNotFound service)
      else
        and_then (or_panic (is_consensus_running (cv_running v))) (\<lambda>consensus_running.
        if \<not> consensus_running then Inl ConsensusNotRunning
        else if e_millis env < 0 then Inl TimeInPast
        else
          (let current_time = word_of_int (e_millis env) :: u64;
               last_fin = cv_last_finalized_time v;
               delta = (if last_fin \<le> current_time then current_time - last_fin else 0) in
           if 1000 * hs_max_finalization_delay hs < delta then Inl LastFinalFarBehind
           else
             and_then
               (case hs_min_peers hs of
                  None \<Rightarrow> Inr ()
                | Some min_allowed_peers \<Rightarrow>
                    (case get_peer_stats (Some Node) n of
                       Inl _ \<Rightarrow> Inl (Check_panic ''called `Option::unwrap()` on a `None` value'')
                     | Inr ss \<Rightarrow>
                         if length ss < unat min_allowed_peers then Inl (TooFewPeers (length ss) min_allowed_peers)
                         else Inr ())) (\<lambda>_.
             if is_active c then
               and_then (or_panic (in_baking_committee (cv_baker_status v))) (\<lambda>(committee_status, _).
               if committee_status \<noteq> ActiveInCommittee then Inl NotInBakingCommittee else Inr ())
             else Inr ()))))"

datatype serving_status = Serving | NotServing

definition grpc_health_check ::
    "health_service \<Rightarrow> ('ns, 'kv) env \<Rightarrow> consensus_container \<Rightarrow> consensus_view \<Rightarrow> string \<Rightarrow>
     ('ns, 'kv) p2p_node \<Rightarrow> serving_status grpc" where
  "grpc_health_check hs env c v service n =
     (case check_service hs env c v service n of
        Inr _ \<Rightarrow> Inr Serving
      | Inl (Check_panic m) \<Rightarrow> Inl (Task_panic m)
      | Inl e \<Rightarrow> if is_not_found e then Inl (status_of e) else Inr NotServing)"

definition grpc_health_watch :: "unit grpc" where
  "grpc_health_watch = Inl (Status Unimplemented ''Watch is not implemented.'')"

definition concordium_health_check ::
    "health_service \<Rightarrow> ('ns, 'kv) env \<Rightarrow> consensus_container \<Rightarrow> consensus_view \<Rightarrow>
     ('ns, 'kv) p2p_node \<Rightarrow> unit grpc" where
  "concordium_health_check hs env c v n =
     (case check_service hs env c v [] n of Inl e \<Rightarrow> Inl (status_of e) | Inr _ \<Rightarrow> Inr ())"

section \<open>What healthy means\<close>

text \<open>
  The condition in numbers, without machine arithmetic: consensus runs, the last block was finalized
  recently enough, the node has enough peers, and a node with baker keys is in the baking committee.
\<close>

definition healthy :: "health_service \<Rightarrow> nat \<Rightarrow> consensus_container \<Rightarrow> consensus_view \<Rightarrow> nat \<Rightarrow> bool" where
  "healthy hs now c v peers \<longleftrightarrow>
     cv_running v = 1 \<and>
     now \<le> unat (cv_last_finalized_time v) + 1000 * unat (hs_max_finalization_delay hs) \<and>
     (case hs_min_peers hs of None \<Rightarrow> True | Some m \<Rightarrow> unat m \<le> peers) \<and>
     (is_active c \<longrightarrow> fst (cv_baker_status v) = 0)"

definition node_peers :: "('ns, 'kv) p2p_node \<Rightarrow> nat" where
  "node_peers n = length (filter (\<lambda>c. peer_type (c_remote_peer c) = Node) (hm_values (connections n)))"

lemma collect_results_length: "collect_results rs = Inr xs \<Longrightarrow> length xs = length rs"
  by (induction rs arbitrary: xs rule: collect_results.induct) (auto split: sum.splits)

lemma peer_stats_count:
  assumes "get_peer_stats (Some Node) n = Inr ss" shows "length ss = node_peers n"
  using collect_results_length [OF assms [unfolded get_peer_stats_def]]
  by (simp add: node_peers_def eq_commute [of Node])

lemma delay_exceeded:
  fixes d t :: u64
  assumes "0 \<le> now" "now < 2 ^ 64" "1000 * unat d < 2 ^ 64"
  shows "1000 * d < (if t \<le> word_of_int now then word_of_int now - t else 0) \<longleftrightarrow>
     unat t + 1000 * unat d < nat now"
proof -
  have now: "unat (word_of_int now :: u64) = nat now" using assms(1,2) by (simp add: unat_eq_nat_uint uint_word_of_int)
  have d: "unat (1000 * d) = 1000 * unat d" using assms(3) by (simp add: unat_mult_lem [THEN iffD1])
  show ?thesis
  proof (cases "t \<le> word_of_int now")
    case True
    then have "unat (word_of_int now - t) = nat now - unat t" using now by (simp add: unat_sub)
    then show ?thesis using True d now unfolding word_less_nat_alt word_le_nat_alt by auto
  next
    case False
    then show ?thesis using now by (auto simp: word_le_nat_alt)
  qed
qed


text \<open>The codes that the library returns, and what the code makes of them.\<close>

definition codes_ok :: "consensus_view \<Rightarrow> bool" where
  "codes_ok v \<longleftrightarrow> (cv_running v = 0 \<or> cv_running v = 1) \<and> (\<exists>s. baking_committee_try_from (fst (cv_baker_status v)) = Inr s)"

lemma committee_status:
  assumes "codes_ok v"
  shows "\<exists>s x. in_baking_committee (cv_baker_status v) = Inr (s, x) \<and>
     (s = ActiveInCommittee \<longleftrightarrow> fst (cv_baker_status v) = 0)"
  using assms by (auto simp: codes_ok_def in_baking_committee_def baking_committee_try_from_def case_prod_unfold split: if_splits)

lemma check_service_result:
  assumes "node_inv n" "0 \<le> e_millis env" "e_millis env < 2 ^ 64"
    and "1000 * unat (hs_max_finalization_delay hs) < 2 ^ 64" "codes_ok v"
    and "service = [] \<or> service = ''concordium.v2.Queries''"
  shows "(check_service hs env c v service n = Inr () \<and> healthy hs (nat (e_millis env)) c v (node_peers n)) \<or>
     (\<exists>e. check_service hs env c v service n = Inl e \<and> \<not> is_not_found e \<and> (\<forall>m. e \<noteq> Check_panic m) \<and>
        \<not> healthy hs (nat (e_millis env)) c v (node_peers n))"
proof -
  from get_peer_stats_total [OF assms(1)] obtain ss where ss: "get_peer_stats (Some Node) n = Inr ss" by blast
  from committee_status [OF assms(5)] obtain s x where s: "in_baking_committee (cv_baker_status v) = Inr (s, x)"
    "s = ActiveInCommittee \<longleftrightarrow> fst (cv_baker_status v) = 0" by blast
  have r: "is_consensus_running (cv_running v) = Inr (cv_running v = 1)"
    using assms(5) by (auto simp: codes_ok_def is_consensus_running_def wrap_c_bool_call_def)
  show ?thesis using assms(2,6)
    by (auto simp: check_service_def healthy_def or_panic_def r s ss peer_stats_count [OF ss] is_not_found_def Let_def
        delay_exceeded [OF assms(2-4)] split: option.split)
qed

text \<open>(C35) The health services tell the truth about a running node.  In every state that a run of a new node reaches, the
  service of Concordium answers without an error, and the standard service answers that the node is serving, exactly when
  consensus runs, the last block was finalized no longer ago than allowed, there are at least as many
  connections to regular nodes as required, and a node with baker keys is in the baking committee.
  Otherwise the first answers that the service is unavailable and the second that the node is not serving; neither panics.
\<close>

theorem health_services_correct:
  assumes "new_node n0" "(node_step lib)\<^sup>*\<^sup>* (ps0, n0, st0) (ps, n, st)"
    and "0 \<le> e_millis env" "e_millis env < 2 ^ 64" "1000 * unat (hs_max_finalization_delay hs) < 2 ^ 64" "codes_ok v"
  shows "if healthy hs (nat (e_millis env)) c v (node_peers n)
     then concordium_health_check hs env c v n = Inr () \<and> grpc_health_check hs env c v [] n = Inr Serving
     else concordium_health_check hs env c v n = Inl (Status Unavailable []) \<and>
       grpc_health_check hs env c v [] n = Inr NotServing"
proof -
  have "node_inv n" using node_sys.inv_reachable [OF _ assms(2)] assms(1) by simp
  then consider "check_service hs env c v [] n = Inr ()" "healthy hs (nat (e_millis env)) c v (node_peers n)"
    | e where "check_service hs env c v [] n = Inl e" "\<not> is_not_found e" "\<forall>m. e \<noteq> Check_panic m"
      "\<not> healthy hs (nat (e_millis env)) c v (node_peers n)"
    using check_service_result [OF _ assms(3-6), of n "[]" c] by blast
  then show ?thesis
  proof cases
    case (2 e)
    then show ?thesis by (cases e) (simp_all add: concordium_health_check_def grpc_health_check_def status_of_def)
  qed (simp add: concordium_health_check_def grpc_health_check_def)
qed

definition example_view :: consensus_view where
  "example_view = \<lparr>cv_running = 1, cv_baker_status = (1, 0, 0, F64 0), cv_finalizer = 0, cv_last_finalized_time = 900\<rparr>"

definition example_health :: health_service where
  "example_health = \<lparr>hs_max_finalization_delay = 300, hs_min_peers = None\<rparr>"

definition passive_container :: consensus_container where
  "passive_container =
     \<lparr>container_parameters = \<lparr>max_block_size = 0, block_construction_timeout = 0, insertions_before_purging = 0,
        transaction_keep_alive = 0, transactions_purging_delay = 0, accounts_cache_size = 0, modules_cache_size = 0\<rparr>, is_baking = False, container_genesis = [],
      container_type = Passive, container_calls = []\<rparr>"

theorem health_services_correct_witness:
  "\<exists>n0. fresh_node = Inr n0 \<and>
     grpc_health_check example_health (safe_env\<lparr>e_millis := 1000\<rparr>) passive_container example_view [] n0 = Inr Serving \<and>
     grpc_health_check example_health (safe_env\<lparr>e_millis := 1000000\<rparr>) passive_container example_view [] n0 = Inr NotServing"
proof -
  from fresh_node_new obtain n0 where n0: "fresh_node = Inr n0" "new_node n0" by blast
  have v: "codes_ok example_view" by (simp add: codes_ok_def example_view_def baking_committee_try_from_def)
  have "healthy example_health 1000 passive_container example_view k"
    "\<not> healthy example_health 1000000 passive_container example_view k" for k
    by (simp_all add: healthy_def example_health_def example_view_def passive_container_def is_active_def)
  moreover have b: "1000 * unat (hs_max_finalization_delay example_health) < 2 ^ 64" by (simp add: example_health_def)
  ultimately show ?thesis
    using health_services_correct [OF n0(2) rtranclp.rtrancl_refl _ _ b v, of "safe_env\<lparr>e_millis := 1000\<rparr>" passive_container]
      health_services_correct [OF n0(2) rtranclp.rtrancl_refl _ _ b v, of "safe_env\<lparr>e_millis := 1000000\<rparr>" passive_container] n0(1)
    by (intro exI [of _ n0]) simp
qed

section \<open>Transactions\<close>

text \<open>The message that carries a transaction, and the queue that takes it.\<close>

definition transaction_message :: "bytes \<Rightarrow> cmsg" where
  "transaction_message bs = consensus_message_new (Outbound None) Transaction (packet_type_tag Transaction # bs) [] None"

abbreviation out_queue :: "('ns, 'kv) p2p_node \<Rightarrow> cmsg queue_msg channel" where
  "out_queue n \<equiv> low_priority (outbound (callback_queue n))"

lemma send_out_message_lawful:
  assumes "channel_lawful ops"
  shows "send_out_message ops m q =
     (if length (chan_items (low_priority (outbound q))) < chan_capacity (low_priority (outbound q))
      then (Inr (), q\<lparr>outbound := (outbound q)\<lparr>low_priority :=
        (low_priority (outbound q))\<lparr>chan_items := chan_items (low_priority (outbound q)) @ [Relay m]\<rparr>\<rparr>\<rparr>)
      else (Inl Full, q))"
  using assms by (simp add: send_out_message_def send_msg_def channel_lawful_def)

lemma ffi_response_Success: "ffi_response_try_from c = Inr Success \<longleftrightarrow> c = 0"
  by (auto simp: ffi_response_try_from_def ffi_response_table_def split: if_splits)

lemma send_transaction_Success:
  "send_transaction lib bs st = (Inr (h, Success), st') \<longleftrightarrow>
     (\<exists>out. receiveTransaction lib bs st = (0, out, st') \<and> h = Some out)"
  by (auto simp: send_transaction_def ffi_code_def ffi_response_Success ffi_response_Success [THEN iffD2, OF refl] split: prod.splits sum.splits if_splits)

text \<open>(C34) A transaction that is submitted to a node is sent to its peers exactly when the consensus library
  has accepted it.  The call returns a hash if and only if the endpoint is enabled, the network is not stopped, the block
  item is well formed and not too large, the library takes it and returns this hash, and there is room in the outbound
  queue; then the queue ends with the transaction as a broadcast.  In every other case the node does not change.
\<close>

theorem transaction_sent_iff_accepted:
  assumes "channel_lawful (e_cmsgs env)" "send_block_item cfg lib env v0_format st n = (r, st', n')"
  shows "(\<forall>h. r = Inr h \<longleftrightarrow> sc_send_block_item cfg \<and> \<not> is_network_stopped n \<and>
        length (chan_items (out_queue n)) < chan_capacity (out_queue n) \<and>
        (\<exists>bs. v0_format = Inr bs \<and> length bs \<le> PROTOCOL_MAX_TRANSACTION_SIZE \<and>
           receiveTransaction lib bs st = (0, h, st'))) \<and>
     (\<forall>h bs. r = Inr h \<and> v0_format = Inr bs \<longrightarrow>
        chan_items (out_queue n') = chan_items (out_queue n) @ [Relay (transaction_message bs)]) \<and>
     (\<forall>e. r = Inl e \<longrightarrow> n' = n)"
proof (cases "sc_send_block_item cfg \<and> \<not> is_network_stopped n")
  case True
  show ?thesis
  proof (cases v0_format)
    case (Inr bs)
    show ?thesis
    proof (cases "send_transaction lib bs st")
      case (Pair x st1)
      then show ?thesis
        using True Inr assms(2) send_transaction_Success [of lib bs st]
        by (auto simp: send_block_item_def send_out_message_lawful [OF assms(1)] transaction_message_def
            split: sum.splits prod.splits if_splits option.splits)
    qed
  qed (use True assms(2) in \<open>auto simp: send_block_item_def\<close>)
qed (use assms(2) in \<open>auto simp: send_block_item_def split: if_splits\<close>)


theorem transaction_sent_iff_accepted_witness:
  "\<exists>n'. send_block_item new_all_enabled silent_lib example_env (Inr [7]) () example_node = (Inr [], (), n') \<and>
     chan_items (out_queue n') = [Relay (transaction_message [7])]"
proof -
  obtain r n' where r: "send_block_item new_all_enabled silent_lib example_env (Inr [7]) () example_node = (r, (), n')"
    by (metis prod_cases3 unit.exhaust)
  have n: "sc_send_block_item new_all_enabled" "\<not> is_network_stopped example_node" "chan_items (out_queue example_node) = []"
    "0 < chan_capacity (out_queue example_node)" "receiveTransaction silent_lib bs () = (0, [], ())"
    "(1 :: nat) \<le> PROTOCOL_MAX_TRANSACTION_SIZE" for bs
    by (simp_all add: new_all_enabled_def is_network_stopped_def example_node_def regenesis_from_blocks_def silent_lib_def
        consensus_queues_default_def outbound_queues_default_def list_channel_ops_def PROTOCOL_MAX_TRANSACTION_SIZE_def
        CONSENSUS_QUEUE_DEPTH_OUT_LO_def)
  have "channel_lawful (e_cmsgs example_env)" by (simp add: example_simps list_channel_lawful)
  from transaction_sent_iff_accepted [OF this r] n have "r = Inr []" "chan_items (out_queue n') = [Relay (transaction_message [7])]"
    by auto
  then show ?thesis using r by simp
qed

end
