(* ===== verification/Node_Startup.thy ===== *)
theory Node_Startup
  imports Node_Runs Text_Types
begin

text \<open>
  Starting a node: the persistent preferences (\<open>AppPreferences\<close> of \<open>configuration.rs\<close>) and the functions of
  \<open>bin/cli.rs\<close> that make the node and its first connections.

  \<^item> The file of the preferences is part of their state: \<open>None\<close> if it does not exist.
  \<^item> \<open>prefs_io\<close> holds the answers of the operating system and the format of the package \<open>preferences\<close>, on an
    abstract type of contents; \<open>pio_flush\<close> is what the file holds after the buffer is flushed.
\<close>

section \<open>Preferences\<close>

record 'f prefs_io =
  pio_empty :: 'f
  pio_read :: bool
  pio_create :: bool
  pio_open :: bool
  pio_load :: "'f \<Rightarrow> (string, string) hmap result"
  pio_save :: "(string, string) hmap \<Rightarrow> 'f result"
  pio_flush :: "'f \<Rightarrow> 'f"

record 'f app_preferences =
  preferences_map :: "(string, string) hmap"
  prefs_file :: "'f option"

definition APP_PREFERENCES_KEY_VERSION :: string where
  "APP_PREFERENCES_KEY_VERSION = ''VERSION''"

definition APP_PREFERENCES_PERSISTED_NODE_ID :: string where
  "APP_PREFERENCES_PERSISTED_NODE_ID = ''PERSISTED_NODE_ID''"

text \<open>Opening truncates the file; a map that cannot be saved leaves it empty.\<close>

definition set_config :: "'f prefs_io \<Rightarrow> string \<Rightarrow> string option \<Rightarrow> 'f app_preferences \<Rightarrow> bool \<times> 'f app_preferences" where
  "set_config io key v p =
     (let m = (case v of Some val \<Rightarrow> hm_insert key val (preferences_map p) | None \<Rightarrow> hm_remove key (preferences_map p));
          p' = p\<lparr>preferences_map := m\<rparr> in
      if prefs_file p \<noteq> None \<and> pio_open io then
        (case pio_save io m of
           Inl _ \<Rightarrow> (False, p'\<lparr>prefs_file := Some (pio_empty io)\<rparr>)
         | Inr b \<Rightarrow> (True, p'\<lparr>prefs_file := Some (pio_flush io b)\<rparr>))
      else (False, p'))"

definition get_config :: "(string \<Rightarrow> 'x result) \<Rightarrow> string \<Rightarrow> 'f app_preferences \<Rightarrow> 'x option result" where
  "get_config from_str key p =
     (case hm_get (preferences_map p) key of
        Some s \<Rightarrow> (case from_str s of Inl e \<Rightarrow> Inl e | Inr x \<Rightarrow> Inr (Some x))
      | None \<Rightarrow> Inr None)"

definition app_preferences_new :: "'f prefs_io \<Rightarrow> string \<Rightarrow> 'f option \<Rightarrow> 'f app_preferences result" where
  "app_preferences_new io version file =
     (case (case file of
              Some content \<Rightarrow>
                if \<not> pio_read io then Inl (Bail ''Could not open configuration file'')
                else Inr \<lparr>preferences_map = (case pio_load io content of Inl _ \<Rightarrow> [] | Inr m \<Rightarrow> m), prefs_file = file\<rparr>
            | None \<Rightarrow>
                if \<not> pio_create io then Inl (Bail ''Could not create configuration file'')
                else Inr \<lparr>preferences_map = [], prefs_file = Some (pio_empty io)\<rparr>) of
        Inl e \<Rightarrow> Inl e
      | Inr new_prefs \<Rightarrow> Inr (snd (set_config io APP_PREFERENCES_KEY_VERSION (Some version) new_prefs)))"

section \<open>The node\<close>

text \<open>\<open>fresh\<close> is the identifier drawn at random if there is no other.\<close>

definition instantiate_node ::
    "'f prefs_io \<Rightarrow> ('ns, 'kv) env \<Rightarrow> 'kv startup \<Rightarrow> (string \<Rightarrow> ip_addr result) \<Rightarrow> p2p_node_id \<Rightarrow> config \<Rightarrow>
     metric_log \<Rightarrow> throughput \<Rightarrow> regenesis \<Rightarrow> 'f app_preferences \<Rightarrow> ('ns, 'kv) p2p_node result \<times> 'f app_preferences" where
  "instantiate_node io env su parse_ip fresh conf stats tp rg app_prefs =
     (case (case cm_id (common conf) of
              None \<Rightarrow>
                (case get_config p2p_node_id_from_str APP_PREFERENCES_PERSISTED_NODE_ID app_prefs of
                   Inl e \<Rightarrow> Inl e
                 | Inr maybe_id \<Rightarrow> Inr (case maybe_id of Some i \<Rightarrow> i | None \<Rightarrow> fresh))
            | Some i \<Rightarrow> Inr i) of
        Inl e \<Rightarrow> (Inl e, app_prefs)
      | Inr node_id \<Rightarrow>
          (p2p_node_new env su parse_ip (Some node_id) conf Node stats tp rg,
           snd (set_config io APP_PREFERENCES_PERSISTED_NODE_ID (Some (p2p_node_id_display node_id)) app_prefs)))"

section \<open>First connections\<close>

definition connect_to_config_nodes :: "('ns, 'kv) env \<Rightarrow> ('ns, 'kv) p2p_node \<Rightarrow> unit result \<times> ('ns, 'kv) p2p_node" where
  "connect_to_config_nodes env n = connect_each env False (given_addresses n) n"

definition establish_connections ::
    "config \<Rightarrow> ('ns, 'kv) env \<Rightarrow> ('ns, 'kv) p2p_node \<Rightarrow> unit result \<times> ('ns, 'kv) p2p_node" where
  "establish_connections conf env n =
     bind_res (connect_to_config_nodes env n) (\<lambda>_ n1.
     bind_res (log_error (connect_to_stored_nodes env n1)) (\<lambda>_ n2.
     (Inr (), if \<not> cc_no_bootstrap_dns (connection conf) then attempt_bootstrap env n2 else n2)))"

section \<open>The identifier of a node\<close>

text \<open>
  What the package and the file system promise: a map that is saved can be loaded again, once it has
  been written.
\<close>

definition prefs_lawful :: "'f prefs_io \<Rightarrow> bool" where
  "prefs_lawful io \<longleftrightarrow> pio_read io \<and> pio_open io \<and>
     (\<forall>m. \<exists>b. pio_save io m = Inr b \<and> pio_load io (pio_flush io b) = Inr m)"

lemma set_config_lawful:
  assumes "prefs_lawful io" "prefs_file p \<noteq> None"
  shows "\<exists>b. set_config io key (Some v) p =
     (True, p\<lparr>preferences_map := hm_insert key v (preferences_map p), prefs_file := Some b\<rparr>) \<and>
     pio_load io b = Inr (hm_insert key v (preferences_map p))"
proof -
  from assms(1) obtain b where "pio_save io (hm_insert key v (preferences_map p)) = Inr b"
    "pio_load io (pio_flush io b) = Inr (hm_insert key v (preferences_map p))" unfolding prefs_lawful_def by blast
  then show ?thesis using assms by (intro exI [of _ "pio_flush io b"]) (simp add: set_config_def prefs_lawful_def)
qed

lemma set_config_file: "prefs_file p = Some b \<Longrightarrow> \<exists>c. prefs_file (snd (set_config io key v p)) = Some c"
  by (simp add: set_config_def Let_def split: sum.split)

lemma app_preferences_new_file:
  "app_preferences_new io version file = Inr p \<Longrightarrow> prefs_file p \<noteq> None"
  by (auto simp: app_preferences_new_def set_config_file split: sum.splits option.splits if_splits)

text \<open>Reading the file again gives every preference but the version.\<close>

lemma app_preferences_reload:
  assumes "prefs_lawful io" "pio_load io b = Inr m" "key \<noteq> APP_PREFERENCES_KEY_VERSION"
  shows "\<exists>p. app_preferences_new io version (Some b) = Inr p \<and> prefs_file p \<noteq> None \<and>
     hm_get (preferences_map p) key = hm_get m key"
proof -
  let ?p = "\<lparr>preferences_map = m, prefs_file = Some b\<rparr>"
  from set_config_lawful [OF assms(1), of ?p APP_PREFERENCES_KEY_VERSION version] obtain c where
    "set_config io APP_PREFERENCES_KEY_VERSION (Some version) ?p =
       (True, ?p\<lparr>preferences_map := hm_insert APP_PREFERENCES_KEY_VERSION version m, prefs_file := Some c\<rparr>)" by auto
  then show ?thesis using assms
    by (simp add: app_preferences_new_def prefs_lawful_def update_conv')
qed

lemma clear_on_start_id [simp]: "self_peer (clear_on_start env n) = self_peer n"
  by (simp add: clear_on_start_def clear_bans_def clear_persisted_peers_def Let_def)

lemma p2p_node_new_id:
  assumes "p2p_node_new env su parse_ip (Some i) conf pt stats tp rg = Inr n"
  shows "pp_id (self_peer n) = i"
proof -
  have "\<exists>a nc given kvs. n = clear_on_start env
      (connection_handler_new env (su_seeds su) conf \<lparr>pp_id = i, pp_addr = a, pp_peer_type = pt\<rparr> nc given rg stats tp kvs)"
    using assms by (auto simp: p2p_node_new_def Let_def split: sum.splits)
  then show ?thesis by (auto simp: connection_handler_new_def)
qed

lemma instantiate_id:
  assumes "instantiate_node io env su parse_ip fresh conf stats tp rg p = (Inr n, p')"
  shows "p' = snd (set_config io APP_PREFERENCES_PERSISTED_NODE_ID (Some (p2p_node_id_display (pp_id (self_peer n)))) p)"
    and "cm_id (common conf) = None \<Longrightarrow>
      get_config p2p_node_id_from_str APP_PREFERENCES_PERSISTED_NODE_ID p = Inr (Some i) \<Longrightarrow> pp_id (self_peer n) = i"
  using assms by (auto simp: instantiate_node_def dest: p2p_node_new_id split: sum.splits option.splits)

lemma instantiate_persists:
  assumes "prefs_lawful io" "prefs_file p \<noteq> None"
    and "instantiate_node io env su parse_ip fresh conf stats tp rg p = (Inr n, p')"
  shows "\<exists>b m. prefs_file p' = Some b \<and> pio_load io b = Inr m \<and>
     hm_get m APP_PREFERENCES_PERSISTED_NODE_ID = Some (p2p_node_id_display (pp_id (self_peer n)))"
proof -
  let ?d = "p2p_node_id_display (pp_id (self_peer n))"
  from set_config_lawful [OF assms(1,2), of APP_PREFERENCES_PERSISTED_NODE_ID ?d] obtain b where
    "set_config io APP_PREFERENCES_PERSISTED_NODE_ID (Some ?d) p =
       (True, p\<lparr>preferences_map := hm_insert APP_PREFERENCES_PERSISTED_NODE_ID ?d (preferences_map p), prefs_file := Some b\<rparr>)"
    "pio_load io b = Inr (hm_insert APP_PREFERENCES_PERSISTED_NODE_ID ?d (preferences_map p))" by blast
  then show ?thesis using instantiate_id(1) [OF assms(3)] by (simp add: update_conv')
qed

lemma restart_reads_id:
  assumes "prefs_lawful io" "app_preferences_new io version file = Inr p"
    and "instantiate_node io env su parse_ip fresh conf stats tp rg p = (Inr n, p')"
  obtains p2 where "app_preferences_new io version' (prefs_file p') = Inr p2"
    "get_config p2p_node_id_from_str APP_PREFERENCES_PERSISTED_NODE_ID p2 = Inr (Some (pp_id (self_peer n)))"
proof -
  from instantiate_persists [OF assms(1) app_preferences_new_file [OF assms(2)] assms(3)] obtain b m where b:
    "prefs_file p' = Some b" "pio_load io b = Inr m"
    "hm_get m APP_PREFERENCES_PERSISTED_NODE_ID = Some (p2p_node_id_display (pp_id (self_peer n)))" by blast
  from app_preferences_reload [OF assms(1) b(2), of APP_PREFERENCES_PERSISTED_NODE_ID version'] obtain p2 where p2:
    "app_preferences_new io version' (Some b) = Inr p2"
    "hm_get (preferences_map p2) APP_PREFERENCES_PERSISTED_NODE_ID = hm_get m APP_PREFERENCES_PERSISTED_NODE_ID"
    by (auto simp: APP_PREFERENCES_PERSISTED_NODE_ID_def APP_PREFERENCES_KEY_VERSION_def)
  then have "get_config p2p_node_id_from_str APP_PREFERENCES_PERSISTED_NODE_ID p2 = Inr (Some (pp_id (self_peer n)))"
    using b(3) node_ids_print_parse by (simp add: get_config_def)
  then show ?thesis using that p2(1) b(1) by simp
qed

text \<open>(C36) A node keeps its identifier when it is restarted.  Start a node with whatever preferences; then start it again, with
  a configuration that does not fix an identifier, with the preferences it left on disk, with any version of the program and
  any random numbers.  The preferences can be read, and the second node has the identifier of the first, if what is
  written to the file can be read again.
\<close>

theorem node_id_survives_restart:
  assumes "prefs_lawful io" "app_preferences_new io version file = Inr p"
    and "instantiate_node io env su parse_ip fresh conf stats tp rg p = (Inr n, p')"
    and "cm_id (common conf') = None"
  shows "\<exists>p2. app_preferences_new io version' (prefs_file p') = Inr p2 \<and>
     (\<forall>env' su' parse_ip' fresh' stats' tp' rg' n' p3.
        instantiate_node io env' su' parse_ip' fresh' conf' stats' tp' rg' p2 = (Inr n', p3) \<longrightarrow>
        pp_id (self_peer n') = pp_id (self_peer n))"
proof -
  obtain p2 where "app_preferences_new io version' (prefs_file p') = Inr p2"
    "get_config p2p_node_id_from_str APP_PREFERENCES_PERSISTED_NODE_ID p2 = Inr (Some (pp_id (self_peer n)))"
    by (rule restart_reads_id [OF assms(1-3)])
  then show ?thesis by (intro exI [of _ p2]) (auto intro: instantiate_id(2) [OF _ assms(4)])
qed

definition plain_io :: "(string, string) hmap prefs_io" where
  "plain_io = \<lparr>pio_empty = [], pio_read = True, pio_create = True, pio_open = True, pio_load = Inr, pio_save = Inr,
     pio_flush = id\<rparr>"

definition example_instantiate ::
    "p2p_node_id \<Rightarrow> (string, string) hmap app_preferences \<Rightarrow>
     (bool \<times> nat, example_kv) p2p_node result \<times> (string, string) hmap app_preferences" where
  "example_instantiate fresh p = instantiate_node plain_io safe_env example_startup (\<lambda>_. Inl (Bail []))
     fresh default_config [] example_throughput (regenesis_from_blocks []) p"

lemma plain_io_lawful: "prefs_lawful plain_io"
  by (simp add: prefs_lawful_def plain_io_def)

lemma example_created:
  "\<exists>n. p2p_node_new safe_env example_startup parse_ip (Some i) default_config Node [] example_throughput
     (regenesis_from_blocks []) = Inr n"
proof -
  have "get_ip (su_interfaces example_startup) = Some (V4 0x0A000001)"
    by (simp add: get_ip_def example_startup_def get_ip_if_suitable_def LOCALHOST_def Let_def)
  moreover have "cm_listen_address (common default_config) = None" "cc_connect_to (connection default_config) = []"
    "cm_listen_port (common default_config) = 8888" by (simp_all add: default_config_def)
  moreover obtain nc where "node_config_of default_config Node = Inr nc"
    by (simp add: node_config_of_def default_config_def Let_def)
  ultimately show ?thesis by (simp add: p2p_node_new_def Let_def example_startup_def)
qed

lemma example_instantiated:
  assumes "get_config p2p_node_id_from_str APP_PREFERENCES_PERSISTED_NODE_ID p = Inr mi"
  shows "\<exists>n. fst (example_instantiate fresh p) = Inr n \<and> pp_id (self_peer n) = (case mi of Some i \<Rightarrow> i | None \<Rightarrow> fresh)"
proof -
  have "cm_id (common default_config) = None" by (simp add: default_config_def)
  then show ?thesis using assms example_created [of "\<lambda>_. Inl (Bail [])" "case mi of Some i \<Rightarrow> i | None \<Rightarrow> fresh"]
    by (auto simp: example_instantiate_def instantiate_node_def dest: p2p_node_new_id)
qed

theorem node_id_survives_restart_witness:
  "\<exists>p n p' p2 n' p3. app_preferences_new plain_io ''6.0.0'' None = Inr p \<and>
     example_instantiate (P2PNodeId 7) p = (Inr n, p') \<and>
     app_preferences_new plain_io ''6.0.1'' (prefs_file p') = Inr p2 \<and>
     example_instantiate (P2PNodeId 9) p2 = (Inr n', p3) \<and> pp_id (self_peer n') = P2PNodeId 7"
proof -
  define m where "m = [(''VERSION'', ''6.0.0'')]"
  define p where "p = \<lparr>preferences_map = m, prefs_file = Some m\<rparr>"
  have p: "app_preferences_new plain_io ''6.0.0'' None = Inr p"
    "get_config p2p_node_id_from_str APP_PREFERENCES_PERSISTED_NODE_ID p = Inr None"
    by (simp_all add: app_preferences_new_def plain_io_def set_config_def Let_def get_config_def p_def m_def
        APP_PREFERENCES_KEY_VERSION_def APP_PREFERENCES_PERSISTED_NODE_ID_def)
  from example_instantiated [OF p(2), of "P2PNodeId 7"] obtain n p' where n: "example_instantiate (P2PNodeId 7) p = (Inr n, p')"
    "pp_id (self_peer n) = P2PNodeId 7" by (auto simp: prod_eq_iff)
  have id: "cm_id (common default_config) = None" by (simp add: default_config_def)
  from node_id_survives_restart [OF plain_io_lawful p(1) n(1) [unfolded example_instantiate_def] id, of "''6.0.1''"]
  obtain p2 where p2: "app_preferences_new plain_io ''6.0.1'' (prefs_file p') = Inr p2"
    and same: "example_instantiate fresh p2 = (Inr n', p3) \<Longrightarrow> pp_id (self_peer n') = P2PNodeId 7" for fresh n' p3
    unfolding example_instantiate_def n(2) by blast
  obtain q where "app_preferences_new plain_io ''6.0.1'' (prefs_file p') = Inr q"
    "get_config p2p_node_id_from_str APP_PREFERENCES_PERSISTED_NODE_ID q = Inr (Some (pp_id (self_peer n)))"
    by (rule restart_reads_id [OF plain_io_lawful p(1) n(1) [unfolded example_instantiate_def]])
  with p2 have "get_config p2p_node_id_from_str APP_PREFERENCES_PERSISTED_NODE_ID p2 = Inr (Some (pp_id (self_peer n)))" by simp
  then obtain n' where "fst (example_instantiate (P2PNodeId 9) p2) = Inr n'" using example_instantiated by blast
  then show ?thesis using p(1) n(1) p2 same by (metis prod.collapse)
qed

end
