(* ===== verification/Out_Of_Band.thy ===== *)
theory Out_Of_Band
  imports Consensus_Queries
begin

text \<open>
  Out-of-band catch-up (\<open>bin/cli.rs\<close>): blocks are imported from a file, or from files that
  an index on a server lists.

  \<^item> \<open>import_env\<close> holds what comes from outside: the HTTP client, the URLs, the parser of the index, the
    temporary files and the flag that stops the import, as it is found before each record.
  \<^item> \<open>importBlocks\<close> of the consensus library is a parameter on its state; it reads a file, given by its path
    (\<open>None\<close> if it is not Unicode) and its contents.
\<close>

section \<open>The index\<close>

record block_chunk_data =
  bc_filename :: ustring
  bc_genesis_index :: nat
  bc_first_block_height :: u64
  bc_last_block_height :: u64

record http_response =
  hr_success :: bool
  hr_reason :: "string option"
  hr_text :: "ustring result"
  hr_stream :: "bytes result list"

record import_env =
  ie_client :: "unit result"
  ie_get :: "ustring \<Rightarrow> http_response result"
  ie_join :: "ustring \<Rightarrow> ustring result"
  ie_csv :: "ustring \<Rightarrow> block_chunk_data result list"
  ie_temp_file :: "nat \<Rightarrow> ustring option result"
  ie_write :: "bytes \<Rightarrow> unit result"
  ie_flush :: "unit result"
  ie_stopped :: "nat \<Rightarrow> bool"

text \<open>The message about a request that failed contains the reason, which not every status has.\<close>

definition failed_response :: "string \<Rightarrow> http_response \<Rightarrow> rust_error" where
  "failed_response msg r = (case hr_reason r of
     Some _ \<Rightarrow> Bail msg | None \<Rightarrow> Panic ''called `Option::unwrap()` on a `None` value'')"

section \<open>Downloading\<close>

text \<open>The loop ends with the stream, and also when the stream fails.\<close>

fun write_stream :: "import_env \<Rightarrow> bytes result list \<Rightarrow> bytes result" where
  "write_stream env [] = Inr []"
| "write_stream env (Inl e # bufs) = Inr []"
| "write_stream env (Inr bs # bufs) =
     and_then (ie_write env bs) (\<lambda>_. and_then (write_stream env bufs) (\<lambda>rest. Inr (bs @ rest)))"

definition download_chunk :: "import_env \<Rightarrow> nat \<Rightarrow> ustring \<Rightarrow> (ustring option \<times> bytes) result" where
  "download_chunk env k download_url =
     and_then (case ie_temp_file env k of Inl _ \<Rightarrow> Inl (Bail ''Cannot create output file.'') | Inr p \<Rightarrow> Inr p) (\<lambda>path.
     and_then (ie_get env download_url) (\<lambda>response.
     if \<not> hr_success response then Inl (failed_response ''Unable to download the block chunk file'' response)
     else
       and_then (write_stream env (hr_stream response)) (\<lambda>content.
       and_then (ie_flush env) (\<lambda>_. Inr (path, content)))))"

section \<open>Importing\<close>

text \<open>\<open>import_blocks\<close> on a file with its contents; the temporary file is deleted afterwards.\<close>

definition import_file ::
    "(ustring \<times> bytes \<Rightarrow> 'c \<Rightarrow> int \<times> 'c) \<Rightarrow> ustring option \<times> bytes \<Rightarrow> 'c \<Rightarrow> unit result \<times> 'c" where
  "import_file importBlocks f st = import_blocks (\<lambda>p. importBlocks (p, snd f)) (fst f) st"

definition skippable :: "nat \<Rightarrow> u64 \<Rightarrow> block_chunk_data \<Rightarrow> bool" where
  "skippable current_genesis_index last_finalized_block_height d \<longleftrightarrow>
     bc_genesis_index d < current_genesis_index \<or> bc_last_block_height d \<le> last_finalized_block_height"

text \<open>The number \<open>k\<close> counts the records.\<close>

fun import_chunks ::
    "import_env \<Rightarrow> (ustring \<times> bytes \<Rightarrow> 'c \<Rightarrow> int \<times> 'c) \<Rightarrow> nat \<Rightarrow> u64 \<Rightarrow> nat \<Rightarrow> bool \<Rightarrow>
     block_chunk_data result list \<Rightarrow> 'c \<Rightarrow> unit result \<times> 'c" where
  "import_chunks env importBlocks gi height k mayskip [] st = (Inr (), st)"
| "import_chunks env importBlocks gi height k mayskip (r # rs) st =
     (if ie_stopped env k then (Inl (Bail ''Import stopped by the user.''), st)
      else case r of
        Inl e \<Rightarrow> (Inl e, st)
      | Inr d \<Rightarrow>
          if mayskip \<and> skippable gi height d then import_chunks env importBlocks gi height (Suc k) True rs st
          else
            (case and_then (ie_join env (bc_filename d)) (download_chunk env k) of
               Inl e \<Rightarrow> (Inl e, st)
             | Inr f \<Rightarrow>
                 (case import_file importBlocks f st of
                    (Inl e, st') \<Rightarrow> (Inl e, st')
                  | (Inr _, st') \<Rightarrow> import_chunks env importBlocks gi height (Suc k) False rs st')))"

text \<open>
  \<open>genesis_block_hashes\<close> are the hashes as strings; \<open>last_height\<close> is what \<open>get_last_finalized_block_height\<close>
  returns.  The first hash is accessed by index.
\<close>

definition check_index :: "ustring list \<Rightarrow> ustring \<Rightarrow> unit result" where
  "check_index genesis_block_hashes index_str =
     (case str_lines index_str of
        [] \<Rightarrow> Inl (Bail ''The catchup index file was empty.'')
      | first_line # _ \<Rightarrow>
          (case strip_prefix (ustr ''# genesis hash '') first_line of
             None \<Rightarrow> Inl (Bail ''The catchup index file does not begin with a line containing the genesis block hash.'')
           | Some h \<Rightarrow>
               (case genesis_block_hashes of
                  [] \<Rightarrow> Inl (Panic ''index out of bounds'')
                | genesis_hash # _ \<Rightarrow>
                    if trim h = genesis_hash then Inr ()
                    else Inl (Bail ''The genesis block hash in the catchup index file does not match''))))"

definition import_missing_blocks ::
    "import_env \<Rightarrow> (ustring \<times> bytes \<Rightarrow> 'c \<Rightarrow> int \<times> 'c) \<Rightarrow> u64 \<Rightarrow> ustring list \<Rightarrow> ustring \<Rightarrow> 'c \<Rightarrow> unit result \<times> 'c" where
  "import_missing_blocks env importBlocks last_height genesis_block_hashes index_url st =
     (case
        and_then (ie_client env) (\<lambda>_.
        and_then (ie_get env index_url) (\<lambda>index_response.
        if \<not> hr_success index_response
        then Inl (failed_response ''Unable to download the catchup index file'' index_response)
        else
          and_then (hr_text index_response) (\<lambda>index_str.
          and_then (check_index genesis_block_hashes index_str) (\<lambda>_. Inr index_str)))) of
        Inl e \<Rightarrow> (Inl e, st)
      | Inr index_str \<Rightarrow>
          import_chunks env importBlocks (length genesis_block_hashes - 1) last_height 0 True (ie_csv env index_str) st)"

datatype catch_up_outcome = No_catch_up | Completed | Stopped | Failed rust_error

definition outcome_of :: "bool \<Rightarrow> unit result \<Rightarrow> catch_up_outcome" where
  "outcome_of import_stopped r = (case r of
     Inr _ \<Rightarrow> Completed | Inl (Panic p) \<Rightarrow> Failed (Panic p) | Inl e \<Rightarrow> if import_stopped then Stopped else Failed e)"

text \<open>A local file comes first; \<open>stopped_after\<close> is the flag when the import is over.\<close>

definition maybe_do_out_of_band_catchup ::
    "import_env \<Rightarrow> (ustring \<times> bytes \<Rightarrow> 'c \<Rightarrow> int \<times> 'c) \<Rightarrow> u64 \<Rightarrow> ustring list \<Rightarrow> bool \<Rightarrow>
     (ustring option \<times> bytes) option \<Rightarrow> ustring option \<Rightarrow> 'c \<Rightarrow> catch_up_outcome \<times> 'c" where
  "maybe_do_out_of_band_catchup env importBlocks last_height genesis_block_hashes stopped_after
       import_blocks_from download_blocks_from st =
     (case import_blocks_from of
        Some f \<Rightarrow> apfst (outcome_of stopped_after) (import_file importBlocks f st)
      | None \<Rightarrow>
          (case download_blocks_from of
             Some url \<Rightarrow>
               apfst (outcome_of stopped_after)
                 (import_missing_blocks env importBlocks last_height genesis_block_hashes url st)
           | None \<Rightarrow> (No_catch_up, st)))"

section \<open>Properties\<close>

text \<open>Importing a list of files, up to the first that the library refuses.\<close>

fun import_all :: "(ustring \<times> bytes \<Rightarrow> 'c \<Rightarrow> int \<times> 'c) \<Rightarrow> (ustring option \<times> bytes) list \<Rightarrow> 'c \<Rightarrow> unit result \<times> 'c" where
  "import_all importBlocks [] st = (Inr (), st)"
| "import_all importBlocks (f # fs) st =
     (case import_file importBlocks f st of
        (Inl e, st') \<Rightarrow> (Inl e, st')
      | (Inr _, st') \<Rightarrow> import_all importBlocks fs st')"

text \<open>The file of the record number \<open>k\<close>.\<close>

definition fetch :: "import_env \<Rightarrow> nat \<Rightarrow> block_chunk_data \<Rightarrow> (ustring option \<times> bytes) result" where
  "fetch env k d = and_then (ie_join env (bc_filename d)) (download_chunk env k)"

fun fetched :: "import_env \<Rightarrow> nat \<Rightarrow> block_chunk_data list \<Rightarrow> (ustring option \<times> bytes) list \<Rightarrow> bool" where
  "fetched env k [] fs \<longleftrightarrow> fs = []"
| "fetched env k (d # ds) fs \<longleftrightarrow> fs \<noteq> [] \<and> fetch env k d = Inr (hd fs) \<and> fetched env (Suc k) ds (tl fs)"

lemma import_chunks_all:
  assumes "\<forall>k. \<not> ie_stopped env k" "fetched env k ds fs"
  shows "import_chunks env importBlocks gi height k False (map Inr ds) st = import_all importBlocks fs st"
  using assms(2)
proof (induction ds arbitrary: k fs st)
  case (Cons d ds)
  then show ?case using assms(1) by (cases fs) (auto simp: fetch_def split: prod.split sum.split)
qed simp

lemma import_chunks_skips:
  assumes "\<forall>k. \<not> ie_stopped env k"
    and "fetched env (k + length (takeWhile (skippable gi height) ds)) (dropWhile (skippable gi height) ds) fs"
  shows "import_chunks env importBlocks gi height k True (map Inr ds) st = import_all importBlocks fs st"
  using assms(2)
proof (induction ds arbitrary: k)
  case (Cons d ds)
  show ?case
  proof (cases "skippable gi height d")
    case False
    then show ?thesis using Cons.prems assms(1) import_chunks_all [OF assms(1), of k "d # ds" fs importBlocks gi height st]
      by simp
  qed (use Cons assms(1) in simp)
qed simp


text \<open>A download that breaks off gives the part that came, and no error.\<close>

lemma truncated_download_accepted:
  assumes "ie_temp_file env k = Inr p" "ie_get env url = Inr response" "hr_success response" "ie_flush env = Inr ()"
    and "\<forall>bs. ie_write env bs = Inr ()" "hr_stream response = Inr bs # Inl e # bufs"
  shows "download_chunk env k url = Inr (p, bs)"
  using assms by (simp add: download_chunk_def)

text \<open>A chunk of blocks after a protocol update is skipped if its relative heights are low.\<close>

lemma later_genesis_chunk_skipped:
  "gi < bc_genesis_index d \<Longrightarrow> bc_last_block_height d \<le> height \<Longrightarrow> skippable gi height d"
  by (simp add: skippable_def)

definition example_response :: "ustring \<Rightarrow> http_response" where
  "example_response url = \<lparr>hr_success = True, hr_reason = Some [], hr_text = Inr (ustr ''# genesis hash  9 '' @ [10]),
     hr_stream = [Inr (map word_of_nat url)]\<rparr>"

definition example_import :: import_env where
  "example_import = \<lparr>ie_client = Inr (), ie_get = (\<lambda>url. Inr (example_response url)),
     ie_join = Inr,
     ie_csv = (\<lambda>_. [Inr \<lparr>bc_filename = [1], bc_genesis_index = 0, bc_first_block_height = 1, bc_last_block_height = 9\<rparr>,
        Inr \<lparr>bc_filename = [2], bc_genesis_index = 0, bc_first_block_height = 10, bc_last_block_height = 19\<rparr>,
        Inr \<lparr>bc_filename = [3], bc_genesis_index = 0, bc_first_block_height = 20, bc_last_block_height = 29\<rparr>]),
     ie_temp_file = (\<lambda>k. Inr (Some [k])), ie_write = (\<lambda>_. Inr ()), ie_flush = Inr (), ie_stopped = (\<lambda>_. False)\<rparr>"


text \<open>A library that counts the bytes of the files it is given.\<close>

definition count_blocks :: "ustring \<times> bytes \<Rightarrow> nat list \<Rightarrow> int \<times> nat list" where
  "count_blocks f st = (0, st @ map unat (snd f))"


end
