(* ===== verification/Collector_Backend.thy ===== *)
theory Collector_Backend
  imports Text_Types
begin

text \<open>
  The collector backend (\<open>collector-backend\<close>): what nodes report, the checks of a report, the
  table of the nodes and the pages that show it.

  \<^item> The MessagePack decoder \<open>dec\<close> and the JSON encoders are parameters, as are the clock and the
    body of a request with its announced size.
  \<^item> The handlers run under the lock of the table, so each is one step.
\<close>

section \<open>Reports\<close>

datatype is_in_baking_committee =
    ActiveInCommittee
  | AddedButNotActiveInCommittee
  | AddedButWrongKeys
  | NotInCommittee

primrec committee_serialize :: "is_in_baking_committee \<Rightarrow> string" where
  "committee_serialize ActiveInCommittee = ''ActiveInCommittee''"
| "committee_serialize AddedButNotActiveInCommittee = ''AddedButNotActiveInCommittee''"
| "committee_serialize AddedButWrongKeys = ''AddedButWrongKeys''"
| "committee_serialize NotInCommittee = ''NotInCommittee''"

definition committee_deserialize :: "string \<Rightarrow> is_in_baking_committee result" where
  "committee_deserialize s =
     (if s = ''ActiveInCommittee'' then Inr ActiveInCommittee
      else if s = ''AddedButNotActiveInCommittee'' then Inr AddedButNotActiveInCommittee
      else if s = ''AddedButWrongKeys'' then Inr AddedButWrongKeys
      else if s = ''NotInCommittee'' then Inr NotInCommittee
      else Inl (Bail ''Failed deserializing string as IsInBakingCommittee''))"

record node_info =
  nodeName :: ustring
  nodeId :: ustring
  peerType :: ustring
  uptime :: u64
  client :: ustring
  averagePing :: "f64 option"
  peersCount :: u64
  peersList :: "ustring list"
  bestBlock :: ustring
  bestBlockHeight :: u64
  bestBlockBakerId :: "u64 option"
  bestArrivedTime :: "ustring option"
  blockArrivePeriodEMA :: "f64 option"
  blockArrivePeriodEMSD :: "f64 option"
  blockArriveLatencyEMA :: "f64 option"
  blockArriveLatencyEMSD :: "f64 option"
  blockReceivePeriodEMA :: "f64 option"
  blockReceivePeriodEMSD :: "f64 option"
  blockReceiveLatencyEMA :: "f64 option"
  blockReceiveLatencyEMSD :: "f64 option"
  finalizedBlock :: ustring
  finalizedBlockHeight :: u64
  finalizedTime :: "ustring option"
  finalizationPeriodEMA :: "f64 option"
  finalizationPeriodEMSD :: "f64 option"
  packetsSent :: u64
  packetsReceived :: u64
  consensusRunning :: bool
  bakingCommitteeMember :: is_in_baking_committee
  consensusBakerId :: "u64 option"
  finalizationCommitteeMember :: bool
  ancestorsSinceBestBlock :: "ustring list option"
  stagingNetUsername :: "ustring option"
  transactionsPerBlockEMA :: "f64 option"
  transactionsPerBlockEMSD :: "f64 option"
  bestBlockTransactionsSize :: "u64 option"
  bestBlockTotalEncryptedAmount :: "u64 option"
  bestBlockTotalAmount :: "u64 option"
  bestBlockTransactionCount :: "u64 option"
  bestBlockTransactionEnergyCost :: "u64 option"
  bestBlockExecutionCost :: "u64 option"
  bestBlockCentralBankAmount :: "u64 option"
  blocksReceivedCount :: "u64 option"
  blocksVerifiedCount :: "u64 option"
  genesisBlock :: ustring
  finalizationCount :: "u64 option"
  finalizedBlockParent :: ustring
  last_updated :: u64
  averageBytesPerSecondIn :: u64
  averageBytesPerSecondOut :: u64

text \<open>What the summary page shows of a node.\<close>

record node_info_dashboard =
  d_nodeName :: ustring
  d_nodeId :: ustring
  d_peerType :: ustring
  d_uptime :: u64
  d_client :: ustring
  d_averagePing :: "f64 option"
  d_peersCount :: u64
  d_peersList :: "ustring list"
  d_bestBlock :: ustring
  d_bestBlockHeight :: u64
  d_bestBlockBakerId :: "u64 option"
  d_bestArrivedTime :: "ustring option"
  d_blockArrivePeriodEMA :: "f64 option"
  d_blockArrivePeriodEMSD :: "f64 option"
  d_blockArriveLatencyEMA :: "f64 option"
  d_blockArriveLatencyEMSD :: "f64 option"
  d_blockReceivePeriodEMA :: "f64 option"
  d_blockReceivePeriodEMSD :: "f64 option"
  d_blockReceiveLatencyEMA :: "f64 option"
  d_blockReceiveLatencyEMSD :: "f64 option"
  d_finalizedBlock :: ustring
  d_finalizedBlockHeight :: u64
  d_finalizedTime :: "ustring option"
  d_finalizationPeriodEMA :: "f64 option"
  d_finalizationPeriodEMSD :: "f64 option"
  d_packetsSent :: u64
  d_packetsReceived :: u64
  d_consensusRunning :: bool
  d_bakingCommitteeMember :: is_in_baking_committee
  d_consensusBakerId :: "u64 option"
  d_finalizationCommitteeMember :: bool
  d_transactionsPerBlockEMA :: "f64 option"
  d_transactionsPerBlockEMSD :: "f64 option"
  d_bestBlockTransactionsSize :: "u64 option"
  d_bestBlockTotalEncryptedAmount :: "u64 option"
  d_bestBlockTotalAmount :: "u64 option"
  d_bestBlockTransactionCount :: "u64 option"
  d_bestBlockTransactionEnergyCost :: "u64 option"
  d_bestBlockExecutionCost :: "u64 option"
  d_bestBlockCentralBankAmount :: "u64 option"
  d_blocksReceivedCount :: "u64 option"
  d_blocksVerifiedCount :: "u64 option"
  d_genesisBlock :: ustring
  d_finalizationCount :: "u64 option"
  d_finalizedBlockParent :: ustring
  d_averageBytesPerSecondIn :: f64
  d_averageBytesPerSecondOut :: f64

definition dashboard_from :: "node_info \<Rightarrow> node_info_dashboard" where
  "dashboard_from i =
     \<lparr>d_nodeName = nodeName i,
      d_nodeId = nodeId i,
      d_peerType = peerType i,
      d_uptime = uptime i,
      d_client = client i,
      d_averagePing = averagePing i,
      d_peersCount = peersCount i,
      d_peersList = peersList i,
      d_bestBlock = bestBlock i,
      d_bestBlockHeight = bestBlockHeight i,
      d_bestBlockBakerId = bestBlockBakerId i,
      d_bestArrivedTime = bestArrivedTime i,
      d_blockArrivePeriodEMA = blockArrivePeriodEMA i,
      d_blockArrivePeriodEMSD = blockArrivePeriodEMSD i,
      d_blockArriveLatencyEMA = blockArriveLatencyEMA i,
      d_blockArriveLatencyEMSD = blockArriveLatencyEMSD i,
      d_blockReceivePeriodEMA = blockReceivePeriodEMA i,
      d_blockReceivePeriodEMSD = blockReceivePeriodEMSD i,
      d_blockReceiveLatencyEMA = blockReceiveLatencyEMA i,
      d_blockReceiveLatencyEMSD = blockReceiveLatencyEMSD i,
      d_finalizedBlock = finalizedBlock i,
      d_finalizedBlockHeight = finalizedBlockHeight i,
      d_finalizedTime = finalizedTime i,
      d_finalizationPeriodEMA = finalizationPeriodEMA i,
      d_finalizationPeriodEMSD = finalizationPeriodEMSD i,
      d_packetsSent = packetsSent i,
      d_packetsReceived = packetsReceived i,
      d_consensusRunning = consensusRunning i,
      d_bakingCommitteeMember = bakingCommitteeMember i,
      d_consensusBakerId = consensusBakerId i,
      d_finalizationCommitteeMember = finalizationCommitteeMember i,
      d_transactionsPerBlockEMA = transactionsPerBlockEMA i,
      d_transactionsPerBlockEMSD = transactionsPerBlockEMSD i,
      d_bestBlockTransactionsSize = bestBlockTransactionsSize i,
      d_bestBlockTotalEncryptedAmount = bestBlockTotalEncryptedAmount i,
      d_bestBlockTotalAmount = bestBlockTotalAmount i,
      d_bestBlockTransactionCount = bestBlockTransactionCount i,
      d_bestBlockTransactionEnergyCost = bestBlockTransactionEnergyCost i,
      d_bestBlockExecutionCost = bestBlockExecutionCost i,
      d_bestBlockCentralBankAmount = bestBlockCentralBankAmount i,
      d_blocksReceivedCount = blocksReceivedCount i,
      d_blocksVerifiedCount = blocksVerifiedCount i,
      d_genesisBlock = genesisBlock i,
      d_finalizationCount = finalizationCount i,
      d_finalizedBlockParent = finalizedBlockParent i,
      d_averageBytesPerSecondIn = f64_of_u64 (averageBytesPerSecondIn i),
      d_averageBytesPerSecondOut = f64_of_u64 (averageBytesPerSecondOut i)\<rparr>"

record node_info_chain_viz =
  v_nodeName :: ustring
  v_nodeId :: ustring
  v_bestBlock :: ustring
  v_bestBlockHeight :: u64
  v_finalizedBlock :: ustring
  v_finalizedBlockHeight :: u64
  v_finalizedBlockParent :: ustring
  v_ancestorsSinceBestBlock :: "ustring list option"

definition chain_viz_from :: "node_info \<Rightarrow> node_info_chain_viz" where
  "chain_viz_from i =
     \<lparr>v_nodeName = nodeName i, v_nodeId = nodeId i, v_bestBlock = bestBlock i, v_bestBlockHeight = bestBlockHeight i,
      v_finalizedBlock = finalizedBlock i, v_finalizedBlockHeight = finalizedBlockHeight i,
      v_finalizedBlockParent = finalizedBlockParent i, v_ancestorsSinceBestBlock = ancestorsSinceBestBlock i\<rparr>"

section \<open>Configuration and state\<close>

record validation_config =
  valid_content_length :: u64
  valid_node_name_lenght :: usize
  valid_node_average_ping :: f64
  valid_node_peers_count :: u64
  validate_against_average_at :: u64
  percentage_used_for_averages :: usize
  valid_additional_best_block_height :: u64
  valid_additional_finalized_block_height :: u64

definition validation_config_default :: validation_config where
  "validation_config_default =
     \<lparr>valid_content_length = 100000, valid_node_name_lenght = 100, valid_node_average_ping = F64 150000,
      valid_node_peers_count = 50, validate_against_average_at = 20, percentage_used_for_averages = 60,
      valid_additional_best_block_height = 1000, valid_additional_finalized_block_height = 1000\<rparr>"

record collector_state_data =
  nodes :: "(ustring, node_info) hmap"
  banned_versions :: "ustring list"
  banned_node_names :: "ustring list"

text \<open>The state that \<open>main\<close> starts with; the file of banned names has one name on each line.\<close>

definition backend_start :: "ustring list \<Rightarrow> ustring option \<Rightarrow> collector_state_data" where
  "backend_start versions names_file =
     \<lparr>nodes = [], banned_versions = versions,
      banned_node_names = (case names_file of Some s \<Rightarrow> str_lines s | None \<Rightarrow> [])\<rparr>"

section \<open>Operations\<close>

text \<open>\<open>retain\<close> in the cleanup thread; the sum wraps around.\<close>

definition cleanup :: "u64 \<Rightarrow> u64 \<Rightarrow> collector_state_data \<Rightarrow> collector_state_data" where
  "cleanup current_stamp allowed_stale_time st =
     st\<lparr>nodes := hm_retain (\<lambda>_ element. current_stamp < last_updated element + allowed_stale_time) (nodes st)\<rparr>"

text \<open>The pages: a JSON array of what \<open>to_json\<close> makes of every node.\<close>

fun json_items :: "nat \<Rightarrow> ustring list \<Rightarrow> ustring" where
  "json_items i [] = []"
| "json_items i (x # xs) = (if i \<noteq> 0 then ustr '','' else []) @ x @ json_items (Suc i) xs"

definition nodes_summary :: "(node_info_dashboard \<Rightarrow> ustring) \<Rightarrow> collector_state_data \<Rightarrow> ustring" where
  "nodes_summary to_json st =
     ustr ''['' @ json_items 0 (map (to_json \<circ> dashboard_from) (hm_values (nodes st))) @ ustr '']''"

definition nodes_block_info :: "(node_info_chain_viz \<Rightarrow> ustring) \<Rightarrow> collector_state_data \<Rightarrow> ustring" where
  "nodes_block_info to_json st =
     ustr ''['' @ json_items 0 (map (to_json \<circ> chain_viz_from) (hm_values (nodes st))) @ ustr '']''"

text \<open>The average of \<open>number_to_include\<close> of the values, leaving out the highest and the lowest.\<close>

definition average_without_outer_values :: "u64 list \<Rightarrow> usize \<Rightarrow> u64 result" where
  "average_without_outer_values values number_to_include =
     (let sorted_values = sort values;
          omitting = word_of_nat (length values) - number_to_include;
          start = omitting div 2;
          end_index = start + number_to_include in
      if end_index < start \<or> unat end_index > length values then Inl (Panic ''slice index out of range'')
      else if number_to_include = 0 then Inl (Panic ''attempt to divide by zero'')
      else Inr (sum_list (take (unat number_to_include) (drop (unat start) sorted_values)) div number_to_include))"

fun read_body :: "nat \<Rightarrow> bytes \<Rightarrow> bytes result list \<Rightarrow> bytes result" where
  "read_body content_length content [] =
     (if length content = content_length then Inr content else Inl (Bail ''Invalid body''))"
| "read_body content_length content (Inl e # bufs) = Inl e"
| "read_body content_length content (Inr buffer # bufs) =
     (if length content + length buffer \<le> content_length
      then read_body content_length (content @ buffer) bufs else Inl (Bail ''Invalid body''))"

definition ensure :: "bool \<Rightarrow> string \<Rightarrow> 'a result \<Rightarrow> 'a result" where
  "ensure b msg k = (if b then k else Inl (Bail msg))"

definition check_fields :: "validation_config \<Rightarrow> collector_state_data \<Rightarrow> node_info \<Rightarrow> unit result" where
  "check_fields conf st i =
     ensure (nodeName i \<noteq> []) ''nodeName cannot be empty''
    (ensure (length (str_lines (nodeName i)) = 1) ''nodeName is not allowed to contain line breaks''
    (ensure (nodeId i \<noteq> []) ''nodeId cannot be empty''
    (ensure (utf8_len (nodeName i) \<le> unat (valid_node_name_lenght conf)) ''nodeName is to long too be considered valid''
    (ensure (case averagePing i of None \<Rightarrow> True | Some avg_ping \<Rightarrow> f64_le avg_ping (valid_node_average_ping conf))
       ''Average ping is too high to be considered valid''
    (ensure (peersCount i \<le> valid_node_peers_count conf) ''peersCount is too high to be considered valid''
    (ensure (client i \<notin> set (banned_versions st)) ''node version is banned''
    (ensure (trim (nodeName i) \<notin> set (banned_node_names st)) ''node name is banned''
    (Inr ()))))))))"

definition check_height :: "(node_info \<Rightarrow> u64) \<Rightarrow> u64 \<Rightarrow> usize \<Rightarrow> string \<Rightarrow> (ustring, node_info) hmap \<Rightarrow> node_info \<Rightarrow> unit result" where
  "check_height height additional number_to_include msg ns i =
     (case average_without_outer_values (map height (hm_values ns)) number_to_include of
        Inl e \<Rightarrow> Inl e
      | Inr average \<Rightarrow> ensure (height i \<le> average + additional) msg (Inr ()))"

definition check_averages :: "validation_config \<Rightarrow> collector_state_data \<Rightarrow> node_info \<Rightarrow> unit result" where
  "check_averages conf st i =
     (if word_of_nat (length (nodes st)) \<ge> validate_against_average_at conf then
        (let number_to_include = (word_of_nat (length (nodes st)) * percentage_used_for_averages conf) div 100 in
         case check_height bestBlockHeight (valid_additional_best_block_height conf) number_to_include
                ''bestBlockHeight is too high above average to be considered valid'' (nodes st) i of
           Inl e \<Rightarrow> Inl e
         | Inr _ \<Rightarrow>
             check_height finalizedBlockHeight (valid_additional_finalized_block_height conf) number_to_include
               ''finalizedBlockHeight is too high above average to be considered valid'' (nodes st) i)
      else Inr ())"

definition nodes_post_handler ::
    "(bytes \<Rightarrow> node_info result) \<Rightarrow> u64 \<Rightarrow> validation_config \<Rightarrow> u64 option \<Rightarrow> bytes result list \<Rightarrow>
     collector_state_data \<Rightarrow> unit result \<times> collector_state_data" where
  "nodes_post_handler dec now conf size_hint bufs st =
     (case size_hint of
        None \<Rightarrow> (Inl (Bail ''Header 'Content-Length' is required''), st)
      | Some content_length \<Rightarrow>
          if content_length > valid_content_length conf
          then (Inl (Bail ''Content-Length is larger than the limit set by the collector backend''), st)
          else (case read_body (unat content_length) [] bufs of
              Inl e \<Rightarrow> (Inl e, st)
            | Inr body_content \<Rightarrow>
                (case dec body_content of
                   Inl e \<Rightarrow> (Inl e, st)
                 | Inr i \<Rightarrow>
                     (case check_fields conf st i of
                        Inl e \<Rightarrow> (Inl e, st)
                      | Inr _ \<Rightarrow>
                          (case check_averages conf st i of
                             Inl e \<Rightarrow> (Inl e, st)
                           | Inr _ \<Rightarrow>
                               (Inr (), st\<lparr>nodes := hm_insert (nodeId i) (i\<lparr>last_updated := now\<rparr>) (nodes st)\<rparr>))))))"

datatype backend_route = Index | Nodes_summary | Nodes_block_info | Nodes_post

definition router :: "bool \<Rightarrow> string \<Rightarrow> backend_route option" where
  "router is_post path =
     (if \<not> is_post then
        (if path = ''/'' then Some Index
         else if path \<in> {''/nodesSummary'', ''/data/nodesSummary''} then Some Nodes_summary
         else if path \<in> {''/nodesBlocksInfo'', ''/data/nodesBlocksInfo''} then Some Nodes_block_info
         else None)
      else if path \<in> {''/nodes/post'', ''/post/nodes''} then Some Nodes_post
      else None)"

text \<open>The status of the response to a report; a panic ends the task that serves the request.\<close>

definition nodes_post_handler_wrapper :: "unit result \<Rightarrow> nat option" where
  "nodes_post_handler_wrapper r = (case r of
     Inr _ \<Rightarrow> Some 200 | Inl (Panic _) \<Rightarrow> None | Inl _ \<Rightarrow> Some 400)"

end
