(* ===== verification/Backend_Table.thy ===== *)
theory Backend_Table
  imports Collector_Backend
begin

text \<open>
  What the collector backend stores and shows: the average that reports are compared with, the reports
  that are refused, and the rows of the table in every run.
\<close>

lemma committee_deserialize_serialize: "committee_deserialize (committee_serialize c) = Inr c"
  by (cases c) (simp_all add: committee_deserialize_def)

section \<open>The trimmed average\<close>

lemma sorted_nth_le_bound:
  assumes "sorted xs" "length (filter (\<lambda>v. hi < v) xs) \<le> d" "i + d < length xs"
  shows "xs ! i \<le> (hi :: 'a :: linorder)"
proof (rule ccontr)
  assume "\<not> xs ! i \<le> hi"
  then have "hi < xs ! j" if "i \<le> j" "j < length xs" for j
    using sorted_nth_mono [OF assms(1) that] by simp
  then have "filter (\<lambda>v. hi < v) (drop i xs) = drop i xs" by (auto simp: filter_id_conv in_set_conv_nth)
  moreover have "length (filter (\<lambda>v. hi < v) (drop i xs)) \<le> length (filter (\<lambda>v. hi < v) xs)"
    by (metis append_take_drop_id filter_append le_add2 length_append)
  ultimately show False using assms(2,3) by simp
qed

lemma sorted_nth_ge_bound:
  assumes "sorted xs" "length (filter (\<lambda>v. v < lo) xs) \<le> i" "i < length xs"
  shows "(lo :: 'a :: linorder) \<le> xs ! i"
proof (rule ccontr)
  assume "\<not> lo \<le> xs ! i"
  then have "xs ! j < lo" if "j \<le> i" for j
    using sorted_nth_mono [OF assms(1) that assms(3)] by simp
  then have "filter (\<lambda>v. v < lo) (take (Suc i) xs) = take (Suc i) xs" by (auto simp: filter_id_conv in_set_conv_nth)
  moreover have "length (filter (\<lambda>v. v < lo) (take (Suc i) xs)) \<le> length (filter (\<lambda>v. v < lo) xs)"
    by (metis append_take_drop_id filter_append le_add1 length_append)
  ultimately show False using assms(2,3) by simp
qed

lemma unat_sum_list_bounds:
  assumes "\<forall>x \<in> set xs. lo \<le> x \<and> x \<le> hi" "length xs * unat hi < 2 ^ LENGTH('a)"
  shows "length xs * unat lo \<le> unat (sum_list xs) \<and> unat (sum_list (xs :: 'a::len word list)) \<le> length xs * unat hi"
  using assms
proof (induction xs)
  case (Cons x xs)
  then have "unat (sum_list xs) \<le> length xs * unat hi" "length xs * unat lo \<le> unat (sum_list xs)" by simp_all
  moreover have "unat lo \<le> unat x" "unat x \<le> unat hi" using Cons.prems by (simp_all add: word_le_nat_alt)
  moreover have "unat x + unat (sum_list xs) < 2 ^ LENGTH('a)" using calculation Cons.prems(2) by simp
  ultimately show ?case by (simp add: unat_add_lem [THEN iffD1])
qed simp

lemma div_between:
  fixes k s a b :: nat assumes "k * a \<le> s" "s \<le> k * b" "0 < k"
  shows "a \<le> s div k \<and> s div k \<le> b"
  using assms div_le_mono [of "k * a" s k] div_le_mono [of s "k * b" k] by simp

lemma average_between:
  fixes xs :: "'a::len word list"
  assumes "\<forall>x \<in> set xs. lo \<le> x \<and> x \<le> hi" "length xs * unat hi < 2 ^ LENGTH('a)" "xs \<noteq> []" "length xs < 2 ^ LENGTH('a)"
  shows "lo \<le> sum_list xs div word_of_nat (length xs) \<and> sum_list xs div word_of_nat (length xs) \<le> hi"
  using div_between [of "length xs" "unat lo" "unat (sum_list xs)" "unat hi"] unat_sum_list_bounds [OF assms(1,2)] assms(3,4)
  by (simp add: word_le_nat_alt unat_div unat_of_nat take_bit_nat_eq_self)

lemma average_value:
  assumes "length vs < 2 ^ 64" "0 < k" "k \<le> length vs"
  shows "average_without_outer_values vs (word_of_nat k) =
     Inr (sum_list (take k (drop ((length vs - k) div 2) (sort vs))) div word_of_nat k)"
proof -
  have sub: "(word_of_nat (length vs) - word_of_nat k) = (word_of_nat (length vs - k) :: u64)" using assms(3) by (simp add: of_nat_diff)
  have half: "word_of_nat (length vs - k) div 2 = (word_of_nat ((length vs - k) div 2) :: u64)"
    using assms(1) by (intro word_unat_eq_iff [THEN iffD2]) (simp add: unat_div unat_of_nat take_bit_nat_eq_self)
  let ?s = "(length vs - k) div 2"
  have b: "?s + k \<le> length vs" using assms(3) by simp
  have un: "unat (word_of_nat n :: u64) = n" if "n \<le> length vs" for n
    using that assms(1) by (simp add: unat_of_nat take_bit_nat_eq_self)
  have u: "unat (word_of_nat (?s + k) :: u64) = ?s + k" "unat (word_of_nat ?s :: u64) = ?s" "unat (word_of_nat k :: u64) = k"
    using b assms(3) un [of "?s + k"] un [of ?s] un [of k] by linarith+
  have "\<not> (word_of_nat (?s + k) :: u64) < word_of_nat ?s" unfolding word_less_nat_alt u by simp
  moreover have "(word_of_nat k :: u64) \<noteq> 0" using u(3) assms(2) by (auto simp only: unat_0)
  moreover have "(word_of_nat ?s + word_of_nat k :: u64) = word_of_nat (?s + k)" by simp
  moreover have "\<not> length vs < ?s + k" using b by simp
  ultimately show ?thesis by (simp only: average_without_outer_values_def Let_def sub half u if_False simp_thms)
qed

lemma trimmed_average_between:
  assumes "length vs < 2 ^ 64" "0 < k" "k \<le> length vs" "k * unat hi < 2 ^ 64"
    and "length (filter (\<lambda>v. hi < v) vs) \<le> (length vs - k) div 2"
    and "length (filter (\<lambda>v. v < lo) vs) \<le> (length vs - k) div 2"
  obtains a where "average_without_outer_values vs (word_of_nat k) = Inr a" "lo \<le> a" "a \<le> hi"
proof -
  let ?s = "(length vs - k) div 2"
  let ?m = "take k (drop ?s (sort vs))"
  have len: "length ?m = k" using assms(3) by simp
  have cnt: "length (filter P (sort vs)) = length (filter P vs)" for P
    by (simp add: filter_sort)
  have "lo \<le> ?m ! j \<and> ?m ! j \<le> hi" if "j < k" for j
    using that len assms(3,5,6) cnt sorted_nth_le_bound [of "sort vs" hi ?s "?s + j"] sorted_nth_ge_bound [of "sort vs" lo "?s + j"]
    by (simp add: less_diff_conv)
  then have "\<forall>x \<in> set ?m. lo \<le> x \<and> x \<le> hi" by (metis in_set_conv_nth len)
  moreover have "?m \<noteq> []" using len assms(2) by auto
  ultimately have "lo \<le> sum_list ?m div word_of_nat k \<and> sum_list ?m div word_of_nat k \<le> hi"
    using average_between [of ?m lo hi] assms(1,3,4) unfolding len by simp
  then show ?thesis using that average_value [OF assms(1-3)] by blast
qed


section \<open>Reports that are refused\<close>

lemma ensure_Inr [simp]: "ensure b msg k = Inr x \<longleftrightarrow> b \<and> k = Inr x"
  by (simp add: ensure_def)

lemma post_refused: "nodes_post_handler dec now conf h bufs st = (Inl e, st') \<Longrightarrow> st' = st"
  by (auto simp: nodes_post_handler_def split: option.splits sum.splits if_splits)

lemma post_stored:
  "nodes_post_handler dec now conf h bufs st = (Inr u, st') \<Longrightarrow>
     \<exists>n body i. h = Some n \<and> n \<le> valid_content_length conf \<and> read_body (unat n) [] bufs = Inr body \<and>
       dec body = Inr i \<and> check_fields conf st i = Inr () \<and> check_averages conf st i = Inr () \<and>
       st' = st\<lparr>nodes := hm_insert (nodeId i) (i\<lparr>last_updated := now\<rparr>) (nodes st)\<rparr>"
  by (simp add: nodes_post_handler_def not_less split: option.splits sum.splits if_splits)

text \<open>The whole body has arrived when the report is decoded.\<close>

lemma read_body_complete:
  "read_body n content bufs = Inr body \<Longrightarrow>
     length body = n \<and> body = content @ concat (map projr bufs) \<and> (\<forall>b \<in> set bufs. \<not> isl b)"
  by (induction n content bufs rule: read_body.induct) (auto split: if_splits)

lemma check_height_bound:
  assumes "check_height height additional (word_of_nat k) msg ns i = Inr ()"
    and "length ns < 2 ^ 64" "0 < k" "k \<le> length ns" "k * unat hi < 2 ^ 64" "unat hi + unat additional < 2 ^ 64"
    and "length (filter (\<lambda>v. hi < height v) (hm_values ns)) \<le> (length ns - k) div 2"
  shows "height i \<le> hi + additional"
proof -
  let ?vs = "map height (hm_values ns)"
  have "length (filter (\<lambda>v. hi < v) ?vs) \<le> (length ?vs - k) div 2"
    using assms(7) by (simp add: filter_map comp_def)
  then obtain a where a: "average_without_outer_values ?vs (word_of_nat k) = Inr a" "a \<le> hi"
    using trimmed_average_between [of ?vs k hi 0] assms(2-5) by auto
  then have "height i \<le> a + additional" using assms(1) by (simp add: check_height_def)
  moreover have "a + additional \<le> hi + additional"
    using a(2) assms(6) unfolding word_le_nat_alt
    by (subst (1 2) unat_add_lem [THEN iffD1]) simp_all
  ultimately show ?thesis by order
qed

lemma nodes_included:
  assumes "percentage_used_for_averages conf \<le> 100" "length (nodes st) * 100 < 2 ^ 64"
  shows "(word_of_nat (length (nodes st)) * percentage_used_for_averages conf) div 100 =
     word_of_nat (length (nodes st) * unat (percentage_used_for_averages conf) div 100)"
proof -
  let ?n = "length (nodes st)" and ?p = "unat (percentage_used_for_averages conf)"
  have "?p \<le> 100" using assms(1) by (simp add: word_le_nat_alt)
  then have "?n * ?p \<le> ?n * 100" by (rule mult_le_mono2)
  then have np: "?n * ?p < 2 ^ 64" using assms(2) by (rule le_less_trans)
  then have le: "?n * ?p div 100 < 2 ^ 64" using div_le_dividend le_less_trans by blast
  have "word_of_nat ?n * percentage_used_for_averages conf = word_of_nat (?n * ?p)" by simp
  then show ?thesis using np le
    by (intro word_unat_eq_iff [THEN iffD2]) (simp add: unat_div unat_of_nat take_bit_nat_eq_self del: of_nat_mult)
qed


text \<open>Nodes that report the height \<open>h\<close>, and the table of 20 nodes of which four claim the highest number there is.\<close>

definition example_report :: "nat \<Rightarrow> u64 \<Rightarrow> node_info" where
  "example_report j h =
     \<lparr>nodeName = [65], nodeId = [65 + j], peerType = ustr ''Node'', uptime = 0, client = ustr ''5.3.2'',
      averagePing = None, peersCount = 0, peersList = [], bestBlock = [], bestBlockHeight = h,
      bestBlockBakerId = None, bestArrivedTime = None, blockArrivePeriodEMA = None, blockArrivePeriodEMSD = None,
      blockArriveLatencyEMA = None, blockArriveLatencyEMSD = None, blockReceivePeriodEMA = None,
      blockReceivePeriodEMSD = None, blockReceiveLatencyEMA = None, blockReceiveLatencyEMSD = None,
      finalizedBlock = [], finalizedBlockHeight = h, finalizedTime = None, finalizationPeriodEMA = None,
      finalizationPeriodEMSD = None, packetsSent = 0, packetsReceived = 0, consensusRunning = True,
      bakingCommitteeMember = NotInCommittee, consensusBakerId = None, finalizationCommitteeMember = False,
      ancestorsSinceBestBlock = None, stagingNetUsername = None, transactionsPerBlockEMA = None,
      transactionsPerBlockEMSD = None, bestBlockTransactionsSize = None, bestBlockTotalEncryptedAmount = None,
      bestBlockTotalAmount = None, bestBlockTransactionCount = None, bestBlockTransactionEnergyCost = None,
      bestBlockExecutionCost = None, bestBlockCentralBankAmount = None, blocksReceivedCount = None,
      blocksVerifiedCount = None, genesisBlock = [], finalizationCount = None, finalizedBlockParent = [],
      last_updated = 0, averageBytesPerSecondIn = 0, averageBytesPerSecondOut = 0\<rparr>"

definition example_table :: collector_state_data where
  "example_table =
     \<lparr>nodes = map (\<lambda>j. ([65 + j], example_report j (if j < 4 then - 1 else 100))) [0..<20],
      banned_versions = [], banned_node_names = []\<rparr>"

lemma example_report_simps [simp]:
  "nodeName (example_report j h) = [65]" "nodeId (example_report j h) = [65 + j]" "bestBlockHeight (example_report j h) = h"
  "finalizedBlockHeight (example_report j h) = h" "averagePing (example_report j h) = None"
  "peersCount (example_report j h) = 0" "client (example_report j h) = ustr ''5.3.2''"
  by (simp_all add: example_report_def)

lemma example_table_simps [simp]:
  "length (nodes example_table) = 20"
  "length (filter ((\<lambda>v. 100 < bestBlockHeight v) \<circ> snd) (nodes example_table)) = 4"
  by (simp_all add: example_table_def comp_def upt_rec)


section \<open>Runs of the backend\<close>

definition report_ok :: "validation_config \<Rightarrow> collector_state_data \<Rightarrow> ustring \<Rightarrow> node_info \<Rightarrow> bool" where
  "report_ok conf st k i \<longleftrightarrow>
     nodeId i = k \<and> k \<noteq> [] \<and> nodeName i \<noteq> [] \<and> 10 \<notin> set (butlast (nodeName i)) \<and>
     utf8_len (nodeName i) \<le> unat (valid_node_name_lenght conf) \<and>
     (averagePing i = None \<or> f64_le (the (averagePing i)) (valid_node_average_ping conf)) \<and>
     peersCount i \<le> valid_node_peers_count conf \<and>
     client i \<notin> set (banned_versions st) \<and> trim (nodeName i) \<notin> set (banned_node_names st)"

definition table_ok :: "validation_config \<Rightarrow> ustring list \<Rightarrow> ustring list \<Rightarrow> collector_state_data \<Rightarrow> bool" where
  "table_ok conf vs ns st \<longleftrightarrow> banned_versions st = vs \<and> banned_node_names st = ns \<and> hm_wf (nodes st) \<and>
     (\<forall>k i. (k, i) \<in> set (nodes st) \<longrightarrow> report_ok conf st k i)"

text \<open>What happens to the table: reports arrive, with any decoder and at any time, and the cleanup thread wakes up.\<close>

inductive backend_step :: "validation_config \<Rightarrow> collector_state_data \<Rightarrow> collector_state_data \<Rightarrow> bool" for conf where
  post: "nodes_post_handler dec now conf h bufs st = (r, st') \<Longrightarrow> backend_step conf st st'"
| tidy: "backend_step conf st (cleanup now allowed st)"

lemma lines_from_Nil [simp]: "lines_from acc s = [] \<longleftrightarrow> acc = [] \<and> s = []"
  by (induction acc s rule: lines_from.induct) auto

lemma lines_from_one: "length (lines_from acc s) = 1 \<Longrightarrow> 10 \<notin> set (butlast s)"
  by (induction acc s rule: lines_from.induct) (auto split: if_splits)

lemma check_fields_ok: "check_fields conf st i = Inr () \<Longrightarrow> report_ok conf st (nodeId i) i"
  using lines_from_one [of "[]" "nodeName i"]
  by (auto simp: check_fields_def report_ok_def str_lines_def split: option.splits)

lemma report_ok_update [simp]:
  "report_ok conf st k (i\<lparr>last_updated := now\<rparr>) = report_ok conf st k i"
  "report_ok conf (st\<lparr>nodes := ns\<rparr>) k i = report_ok conf st k i"
  by (simp_all add: report_ok_def)

lemma table_ok_step: "backend_step conf st st' \<Longrightarrow> table_ok conf vs ns st \<Longrightarrow> table_ok conf vs ns st'"
proof (induction rule: backend_step.induct)
  case (post dec now h bufs st r st')
  show ?case
  proof (cases r)
    case Inl
    then show ?thesis using post post_refused by metis
  next
    case (Inr u)
    then obtain i where "check_fields conf st i = Inr ()"
        "st' = st\<lparr>nodes := hm_insert (nodeId i) (i\<lparr>last_updated := now\<rparr>) (nodes st)\<rparr>"
      using post(1) post_stored [of dec now conf h bufs st u st'] by blast
    then show ?thesis using post(2) check_fields_ok [of conf st i]
      by (auto simp: table_ok_def set_update_distinct)
  qed
qed (auto simp: table_ok_def cleanup_def)

interpretation backend: transition_system "\<lambda>st. st = backend_start vs names_file" "backend_step conf"
    "table_ok conf vs (case names_file of Some s \<Rightarrow> str_lines s | None \<Rightarrow> [])" for conf vs names_file
  by unfold_locales (simp add: table_ok_def backend_start_def, rule table_ok_step)


lemma example_post:
  "backend_step validation_config_default (backend_start [] (Some []))
     \<lparr>nodes = [([65], (example_report 0 5)\<lparr>last_updated := 7\<rparr>)], banned_versions = [], banned_node_names = []\<rparr>"
  by (rule backend_step.post [where dec = "\<lambda>_. Inr (example_report 0 5)" and h = "Some 0" and bufs = "[]" and now = 7])
    (simp add: nodes_post_handler_def backend_start_def str_lines_def check_fields_def ensure_def utf8_len_def
      check_averages_def validation_config_default_def)


end
