(* ===== verification/Spec2Isabelle.thy ===== *)
theory Spec2Isabelle
  imports Packet_Types Peer_Types Metrics Buckets Dedup_Queues Message_Queues Config Low_Level
    Transport Wire_Format Peer_List Consensus_Queues Node_State Bans Read_Progress
    Example_Node Connection_Handlers Connectivity Consensus_Bridge
    Maintenance Low_Level_Safety Handler_Safety Node_Invariant Peers_Frame Node_Runs Catch_Up_Runs
    Node_Policy Message_Flow Text_Types Grpc_Types Consensus_Queries Grpc_Service Node_Services
    Node_Startup Out_Of_Band Collector_Backend Backend_Table
begin

text \<open>
  A verification of the Concordium node, of its Rust part under \<open>src/concordium-node\<close>, and of the
  collector backend under \<open>src/collector-backend\<close>.

  \<^bold>\<open>The program.\<close>  A node keeps encrypted connections to its peers, reads and writes framed
  messages on them, drops duplicates, and passes packets to the consensus library, which is a
  separate program in Haskell behind a C interface.  What the library wants to send comes back
  through callbacks and queues and is sent to one peer or to all.  A poll thread accepts, opens and
  closes connections, carries out what other threads asked for, and keeps the list of peers to
  catch up with.  Operators talk to the node over gRPC.  The collector backend is a server that
  collects reports about nodes.

  \<^bold>\<open>The model.\<close>  One theory per component; the paths are relative to \<open>src/concordium-node/src\<close>.

  \<^item> \<open>Prelude\<close>: machine words, results, hash maps and sets, big-endian numbers, and the locales
    \<open>hash_map\<close>, \<open>transition_system\<close> and \<open>payload_codec\<close>.
  \<^item> \<open>Packet_Types\<close>: \<open>consensus_ffi/helpers.rs\<close>, \<open>consensus_ffi/messaging.rs\<close>.  \<open>Peer_Types\<close>:
    \<open>common\<close>, \<open>network/mod.rs\<close>.  \<open>Metrics\<close>: the updates of \<open>stats_export_service.rs\<close> as a log.
  \<^item> \<open>Buckets\<close>: \<open>network/buckets.rs\<close>.  \<open>Dedup_Queues\<close> and \<open>Message_Queues\<close>: the deduplication
    queues, the queues of outgoing messages and the statistics of \<open>connection/mod.rs\<close>.
  \<^item> \<open>Config\<close>: the options and the checks of \<open>configuration.rs\<close>, with \<open>f64\<close> rounded to 53 bits, and the configuration of a node in
    \<open>p2p/maintenance.rs\<close>.
  \<^item> \<open>Low_Level\<close>: \<open>connection/low_level.rs\<close>.  \<open>Wire_Format\<close>: \<open>network/serialization\<close>.
  \<^item> \<open>Peer_List\<close>: \<open>consensus_ffi/catch_up.rs\<close> and the catch-up logic of \<open>plugins/consensus.rs\<close>.
    \<open>Consensus_Queues\<close>: \<open>consensus_ffi/consensus.rs\<close> and the consumers of \<open>bin/cli.rs\<close>.
  \<^item> \<open>Node_State\<close>: a connection and the node, with the environment \<open>env\<close> of packages and system.
    \<open>Bans\<close>: \<open>p2p/bans.rs\<close>, \<open>p2p/peers.rs\<close>.  \<open>Connection_Handlers\<close>: \<open>connection/mod.rs\<close>,
    \<open>connection/message_handlers.rs\<close>.  \<open>Connectivity\<close>: \<open>p2p/connectivity.rs\<close>, \<open>p2p/peers.rs\<close>.
    \<open>Consensus_Bridge\<close>: \<open>plugins/consensus.rs\<close> and the calls and callbacks of
    \<open>consensus_ffi/ffi.rs\<close>.  \<open>Maintenance\<close>: \<open>p2p/maintenance.rs\<close>, up to the poll loop.
  \<^item> \<open>Text_Types\<close>: strings and floating point numbers.  \<open>Grpc_Types\<close>, \<open>Grpc_Service\<close>: the requests and the
    service of \<open>grpc2.rs\<close>.  \<open>Consensus_Queries\<close>: the queries of \<open>consensus_ffi/ffi.rs\<close>.
    \<open>Node_Services\<close>: \<open>health.rs\<close>.  \<open>Node_Startup\<close>: the preferences of \<open>configuration.rs\<close> and the start of
    a node in \<open>bin/cli.rs\<close>.  \<open>Out_Of_Band\<close>: the import of blocks in \<open>bin/cli.rs\<close>.
  \<^item> \<open>Collector_Backend\<close>: \<open>lib.rs\<close> and \<open>bin/node-collector-backend.rs\<close> of the backend.

  A struct is a record, an enumeration a datatype, a method one function on the record.  A fallible
  call returns a sum; a call that changes something before it fails returns the error and the
  state.  A panic is an error value \<open>Panic\<close> that callers pass on.  Locks are
  atomic.  Sockets are scripts of what reading and writing return.  Integers are words that wrap.
  Clock, random choices, files, databases, channels, noise sessions, generated parsers and the C
  functions are parameters; what their documentation promises is a named predicate
  (\<open>circular_queue_lawful\<close>, \<open>noise_paired\<close>, \<open>noise_counts\<close>, \<open>channel_lawful\<close>, \<open>kv_lawful\<close>, \<open>fb_lawful\<close>, \<open>noise_in_place\<close>, \<open>noise_safe\<close>, \<open>dedup_env_lawful\<close>, \<open>env_ok\<close>,
  \<open>prefs_lawful\<close>), and a theorem that needs it has a witness where the parameter is a concrete function.

  \<^bold>\<open>What is proved.\<close>

  \<^item> Single components: the queues of messages refine a queue with two priorities, deduplication remembers a window
    of messages, buckets never panic and their gauge is exact, accepted configurations are consistent,
    the catch-up list is consistent and serves every pending peer, the consumers of the queues keep the order.
  \<^item> Connections: framing and encryption deliver what was sent whatever the socket splits (\<open>Transport\<close>), decryption in
    place equals its specification, messages survive the wire format, reading a socket always ends (\<open>Read_Progress\<close>), and
    before the handshake nothing but a handshake has an effect (\<open>Connection_Handlers\<close>).
  \<^item> The node: \<open>Low_Level_Safety\<close>, \<open>Handler_Safety\<close> and \<open>Node_Invariant\<close> show that no operation panics
    and that all keep the invariant of the node; \<open>Node_Runs\<close> puts them together for every run from a node that
    \<open>P2PNode::new\<close> made.  \<open>Peers_Frame\<close> and \<open>Catch_Up_Runs\<close> show that the node implements the catch-up list,
    \<open>Node_Policy\<close> that bans and limits hold, \<open>Message_Flow\<close> that a message of one library reaches the other.
  \<^item> Around the node: health services, submission of transactions, requests to the library, the identity of a node across
    restarts, the import of blocks, and the table of the collector backend (\<open>Backend_Table\<close>).
  \<^item> Where the code does not do what it says, a theorem shows what it does: the relay percentage, short packets, the
    handshake message that arrives in parts, the pre-shared key, the duplicate check before the handshake, the block size, the
    queue that is discarded.

  \<^bold>\<open>Bounds.\<close>  No loop has fuel.  Loops over data are recursive functions; the loop that reads a socket and
  the one that handles changes of connections are partial functions whose value \<open>None\<close> is not to end, and
  they are proved to end when channels and sessions do as documented.  Theorems on runs of a node assume that connection tokens, which count up to \<open>2 ^ 64\<close>, do not run out
  (\<open>tokens_left\<close>) and that the clock fits an \<open>i64\<close>.  Where a theorem is about numbers, its bounds
  exclude overflow and are stated.

  \<^bold>\<open>Not modelled.\<close>

  \<^item> The consensus library, and of \<open>consensus_ffi/ffi.rs\<close> the start of the Haskell runtime, the declarations of
    the C functions, the sessions of dry runs, the callbacks that copy a single response, and the getters that only
    return a number of the library.
  \<^item> Of \<open>grpc2.rs\<close> the tonic server with its layers and its shutdown, the conversion of transactions to the types of the
    package \<open>concordium_base\<close>, dry runs, the stream of the state of a contract, the listeners for finalized blocks, and the queries
    \<open>get_next_account_sequence_number\<close>, \<open>get_consensus_info\<close>, \<open>get_block_item_status\<close>,
    \<open>get_cryptographic_parameters\<close>, \<open>get_pool_info\<close>, \<open>get_blocks_at_height\<close>, \<open>get_pool_delegators\<close>,
    \<open>get_pool_delegators_reward_period\<close>, \<open>get_branches\<close>, \<open>get_account_non_finalized_transactions\<close>,
    \<open>get_baker_earliest_win_time\<close>, \<open>get_first_block_epoch\<close> and \<open>get_winning_bakers_epoch\<close>: like the
    handlers that are modelled, they check that they are enabled and forward to the library.
  \<^item> Parsing of the command line, logging, signals, starting and joining of threads, the registry and the HTTP server of the
    metrics, the feature \<open>network_dump\<close>: input, output and scheduling without logic of their own.
  \<^item> The collector, a separate program: mostly asynchronous calls of generated clients, with a few computations on
    the answers.  The Windows service, the macOS logger, and build scripts.
\<close>

end
